(* ===== verification/Prelude.thy ===== *)
theory Prelude
  imports Main "HOL-Library.Word"
begin

text \<open>
  Prelude of the kidle development: how a Go function with effects is written as a HOL
  function, the errors and panics it can end with, and the generic lemmas every component
  shares.

  A Go function that performs effects is a state transformer of type \<open>('s, 'a) go\<close>: it maps
  the state it runs in to an outcome and the state it leaves. The outcome is \<open>Ret x\<close> for a
  normal return and \<open>Panic p\<close> for a run-time panic; the effects done before a panic stay in
  the state. Go's pair \<open>(T, error)\<close> is \<open>go_error + 'a\<close>, its \<open>error\<close> is \<open>go_error option\<close>.
  Log lines are left out of the model everywhere: they are pure output.
\<close>

named_theorems go_simps \<open>unfolding of the state-transformer combinators\<close>
named_theorems go_frame \<open>relations between the states before and after that a program keeps\<close>

section \<open>Errors and panics\<close>

text \<open>
  Errors of the Kubernetes API carry a reason; \<open>strconv\<close> errors are numeric; \<open>Errorf s e\<close> is
  \<open>fmt.Errorf("s: %v", e)\<close> (or with another separator), which formats \<open>e\<close> and does not wrap it,
  so no reason can be read back from it.
\<close>

datatype api_reason = NotFound | Conflict | AlreadyExists | OtherReason string

datatype num_error = ErrSyntax | ErrRange

datatype go_error =
    ApiError api_reason
  | NumError num_error
  | OtherError string
  | Errorf string go_error

definition IsNotFound :: "go_error \<Rightarrow> bool" where
  "IsNotFound e \<longleftrightarrow> (case e of ApiError NotFound \<Rightarrow> True | _ \<Rightarrow> False)"

definition IsConflict :: "go_error \<Rightarrow> bool" where
  "IsConflict e \<longleftrightarrow> (case e of ApiError Conflict \<Rightarrow> True | _ \<Rightarrow> False)"

lemma IsNotFound_iff [simp]: "IsNotFound e \<longleftrightarrow> e = ApiError NotFound"
  by (simp add: IsNotFound_def split: go_error.splits api_reason.splits)

lemma IsConflict_iff [simp]: "IsConflict e \<longleftrightarrow> e = ApiError Conflict"
  by (simp add: IsConflict_def split: go_error.splits api_reason.splits)

text \<open>\<open>MustFailed\<close> is the panic of \<open>utilruntime.Must\<close>.\<close>

datatype panic = NilDereference | IndexOutOfRange | SliceOutOfRange | MustFailed go_error

datatype 'a outcome = Ret 'a | Panic panic

definition bind_outcome :: "'a outcome \<Rightarrow> ('a \<Rightarrow> 'b outcome) \<Rightarrow> 'b outcome" where
  "bind_outcome m f = (case m of Ret x \<Rightarrow> f x | Panic p \<Rightarrow> Panic p)"

lemma bind_outcome_simps [simp]:
  "bind_outcome (Ret x) f = f x"
  "bind_outcome (Panic p) f = Panic p"
  by (simp_all add: bind_outcome_def)

text \<open>Reading through a pointer: the nil pointer panics.\<close>

definition deref :: "'a option \<Rightarrow> 'a outcome" where
  "deref p = (case p of None \<Rightarrow> Panic NilDereference | Some x \<Rightarrow> Ret x)"

lemma deref_simps [simp]:
  "deref (Some x) = Ret x"
  "deref None = Panic NilDereference"
  by (simp_all add: deref_def)

lemma deref_Ret_iff: "deref p = Ret x \<longleftrightarrow> p = Some x"
  by (cases p) auto

section \<open>Programs with effects\<close>

type_synonym ('s, 'a) go = "'s \<Rightarrow> 'a outcome \<times> 's"

definition go_return :: "'a \<Rightarrow> ('s, 'a) go" where
  "go_return x = (\<lambda>s. (Ret x, s))"

definition go_bind :: "('s, 'a) go \<Rightarrow> ('a \<Rightarrow> ('s, 'b) go) \<Rightarrow> ('s, 'b) go" where
  "go_bind m f = (\<lambda>s. case m s of (Ret x, s') \<Rightarrow> f x s' | (Panic p, s') \<Rightarrow> (Panic p, s'))"

text \<open>A computation without effects that may panic.\<close>

definition go_pure :: "'a outcome \<Rightarrow> ('s, 'a) go" where
  "go_pure r = (\<lambda>s. (r, s))"

text \<open>\<open>if err := m; err != nil { h(err) } else { k }\<close>, on an \<open>error\<close> and on a \<open>(T, error)\<close>.\<close>

definition go_check :: "('s, go_error option) go \<Rightarrow> (go_error \<Rightarrow> ('s, 'b) go) \<Rightarrow> ('s, 'b) go \<Rightarrow> ('s, 'b) go"
  where
  "go_check m h k = go_bind m (\<lambda>r. case r of Some e \<Rightarrow> h e | None \<Rightarrow> k)"

definition go_try :: "('s, go_error + 'a) go \<Rightarrow> (go_error \<Rightarrow> ('s, 'b) go) \<Rightarrow> ('a \<Rightarrow> ('s, 'b) go) \<Rightarrow> ('s, 'b) go"
  where
  "go_try m h k = go_bind m (\<lambda>r. case r of Inl e \<Rightarrow> h e | Inr x \<Rightarrow> k x)"

text \<open>
  A program over the outer state run inside a larger one, whose second component (the objects
  that live in this call's memory) it cannot see; and a program that owns a memory object, run
  in the outer state, which returns the object it leaves.
\<close>

definition go_outer :: "('w, 'a) go \<Rightarrow> ('w \<times> 'o, 'a) go" where
  "go_outer m = (\<lambda>(w, x). case m w of (r, w') \<Rightarrow> (r, (w', x)))"

definition go_local :: "'o \<Rightarrow> ('w \<times> 'o, 'a) go \<Rightarrow> ('w, 'a) go" where
  "go_local x m = (\<lambda>w. case m (w, x) of (r, (w', x')) \<Rightarrow> (r, w'))"

text \<open>A call of a service that cannot panic.\<close>

definition go_call :: "('w \<Rightarrow> 'a \<times> 'w) \<Rightarrow> ('w, 'a) go" where
  "go_call f = (\<lambda>w. case f w of (r, w') \<Rightarrow> (Ret r, w'))"

lemma go_return_apply [simp, go_simps]: "go_return x s = (Ret x, s)"
  by (simp add: go_return_def)

lemma go_pure_apply [simp, go_simps]: "go_pure r s = (r, s)"
  by (simp add: go_pure_def)

lemma go_call_apply [simp, go_simps]: "go_call f w = (Ret (fst (f w)), snd (f w))"
  by (simp add: go_call_def split: prod.splits)

lemma go_outer_apply [simp, go_simps]: "go_outer m (w, x) = (fst (m w), (snd (m w), x))"
  by (simp add: go_outer_def split: prod.splits)

lemma go_local_apply [simp, go_simps]: "go_local x m w = (fst (m (w, x)), fst (snd (m (w, x))))"
  by (simp add: go_local_def split: prod.splits)

lemma go_bind_Ret [simp]: "m s = (Ret x, s') \<Longrightarrow> go_bind m f s = f x s'"
  by (simp add: go_bind_def)

lemma go_bind_Panic [simp]: "m s = (Panic p, s') \<Longrightarrow> go_bind m f s = (Panic p, s')"
  by (simp add: go_bind_def)

lemma go_bind_pure [simp]:
  "go_bind (go_pure (Ret x)) f = f x"
  "go_bind (go_pure (Panic p)) f = go_pure (Panic p)"
  "go_bind (go_return x) f = f x"
  by (simp_all add: go_bind_def go_pure_def go_return_def)

lemma go_bind_eq_Ret:
  "go_bind m f s = (Ret y, t) \<longleftrightarrow> (\<exists>x u. m s = (Ret x, u) \<and> f x u = (Ret y, t))"
  by (auto simp: go_bind_def split: prod.splits outcome.splits)

lemma go_check_None [simp]: "m s = (Ret None, s') \<Longrightarrow> go_check m h k s = k s'"
  by (simp add: go_check_def)

lemma go_check_Some [simp]: "m s = (Ret (Some e), s') \<Longrightarrow> go_check m h k s = h e s'"
  by (simp add: go_check_def)

lemma go_check_eq_Ret:
  "go_check m h k s = (Ret y, t) \<longleftrightarrow>
     (\<exists>e u. m s = (Ret (Some e), u) \<and> h e u = (Ret y, t)) \<or>
     (\<exists>u. m s = (Ret None, u) \<and> k u = (Ret y, t))"
  by (auto simp: go_check_def go_bind_def split: prod.splits outcome.splits option.splits)

lemma go_try_Inl [simp]: "m s = (Ret (Inl e), s') \<Longrightarrow> go_try m h k s = h e s'"
  by (simp add: go_try_def)

lemma go_try_Inr [simp]: "m s = (Ret (Inr x), s') \<Longrightarrow> go_try m h k s = k x s'"
  by (simp add: go_try_def)

lemma go_try_eq_Ret:
  "go_try m h k s = (Ret y, t) \<longleftrightarrow>
     (\<exists>e u. m s = (Ret (Inl e), u) \<and> h e u = (Ret y, t)) \<or>
     (\<exists>x u. m s = (Ret (Inr x), u) \<and> k x u = (Ret y, t))"
  by (auto simp: go_try_def go_bind_def split: prod.splits outcome.splits sum.splits)

lemma go_sum_eq_Ret:
  "(case r of Inl e \<Rightarrow> h e | Inr x \<Rightarrow> k x) s = (Ret y, t) \<longleftrightarrow>
     (\<exists>e. r = Inl e \<and> h e s = (Ret y, t)) \<or> (\<exists>x. r = Inr x \<and> k x s = (Ret y, t))"
  by (cases r) auto

lemma go_call_Ret: "go_call f w = (Ret r, w') \<longleftrightarrow> f w = (r, w')"
  by (simp add: prod_eq_iff)

lemmas go_eq_Ret = go_bind_eq_Ret go_check_eq_Ret go_try_eq_Ret

section \<open>What a program keeps\<close>

text \<open>
  \<open>go_keeps R m\<close>: whatever \<open>m\<close> ends with, a return, an error or a panic, the states before and
  after are related by \<open>R\<close>. For a reflexive and transitive \<open>R\<close> it is compositional.
\<close>

definition go_keeps :: "('s \<Rightarrow> 's \<Rightarrow> bool) \<Rightarrow> ('s, 'a) go \<Rightarrow> bool" where
  "go_keeps R m \<longleftrightarrow> (\<forall>s. R s (snd (m s)))"

lemma go_keepsD: "go_keeps R m \<Longrightarrow> m s = (r, t) \<Longrightarrow> R s t"
  by (metis go_keeps_def snd_conv)

lemma go_keepsI: "(\<And>s r t. m s = (r, t) \<Longrightarrow> R s t) \<Longrightarrow> go_keeps R m"
  by (metis go_keeps_def prod.collapse)

lemma go_keeps_return [go_frame]: "reflp R \<Longrightarrow> go_keeps R (go_return x)"
  by (simp add: go_keeps_def reflpD)

lemma go_keeps_pure [go_frame]: "reflp R \<Longrightarrow> go_keeps R (go_pure r)"
  by (simp add: go_keeps_def reflpD)

lemma go_keeps_bind [go_frame]:
  assumes "transp R" "go_keeps R m" "\<And>x. go_keeps R (f x)"
  shows "go_keeps R (go_bind m f)"
proof (rule go_keepsI)
  fix s r t assume run: "go_bind m f s = (r, t)"
  obtain q u where m: "m s = (q, u)" by (cases "m s")
  then have su: "R s u" using assms(2) by (blast dest: go_keepsD)
  show "R s t"
  proof (cases q)
    case (Ret x)
    with m run have "f x u = (r, t)" by simp
    then have "R u t" using assms(3) by (blast dest: go_keepsD)
    with su assms(1) show ?thesis by (blast dest: transpD)
  next
    case (Panic p)
    with m run su show ?thesis by simp
  qed
qed

lemma go_keeps_check [go_frame]:
  "transp R \<Longrightarrow> go_keeps R m \<Longrightarrow> (\<And>e. go_keeps R (h e)) \<Longrightarrow> go_keeps R k \<Longrightarrow>
     go_keeps R (go_check m h k)"
  unfolding go_check_def by (intro go_keeps_bind) (auto split: option.splits)

lemma go_keeps_try [go_frame]:
  "transp R \<Longrightarrow> go_keeps R m \<Longrightarrow> (\<And>e. go_keeps R (h e)) \<Longrightarrow> (\<And>x. go_keeps R (k x)) \<Longrightarrow>
     go_keeps R (go_try m h k)"
  unfolding go_try_def by (intro go_keeps_bind) (auto split: sum.splits)

lemma go_keeps_if [go_frame]:
  "go_keeps R m \<Longrightarrow> go_keeps R n \<Longrightarrow> go_keeps R (if b then m else n)"
  by simp

section \<open>Lists\<close>

lemma list_all_append_take:
  "list_all P xs \<Longrightarrow> list_all P (take n xs)"
  by (induction xs arbitrary: n) (auto simp: take_Cons split: nat.splits)

lemma find_append: "find P (xs @ ys) = (case find P xs of None \<Rightarrow> find P ys | Some x \<Rightarrow> Some x)"
  by (induction xs) auto

lemma find_SomeD: "find P xs = Some x \<Longrightarrow> x \<in> set xs \<and> P x"
  by (induction xs) (auto split: if_splits)

lemma filter_neq_id [simp]: "a \<notin> set xs \<Longrightarrow> filter (\<lambda>x. x \<noteq> a) xs = xs"
  by (induction xs) auto

lemma take_eq_takeI: "take n xs = take n ys \<Longrightarrow> m \<le> n \<Longrightarrow> take m xs = take m ys"
  by (metis min.absorb1 take_take)

end
