(* ===== verification/GoStd.thy ===== *)
theory GoStd
  imports Prelude
begin

text \<open>
  What the source uses of Go and its standard library: pointers, \<open>int32\<close>, \<open>strconv\<close>
  (\<open>Itoa\<close>, \<open>Atoi\<close>, \<open>FormatBool\<close>), \<open>strings.ToLower\<close>, \<open>strings.Split\<close> and
  \<open>encoding/base64\<close>. A Go string is a list of bytes, a HOL \<open>string\<close>. The lemmas give the
  round trip of \<open>Itoa\<close> and \<open>Atoi\<close> and the alphabet of the base64 encoding.
\<close>

section \<open>Pointers\<close>

text \<open>
  A pointer is read as the value it points to (\<open>None\<close> is nil). Where the source compares
  pointers it compares addresses: \<open>Cell a x\<close> is a variable at address \<open>a\<close> holding \<open>x\<close>.
  \<open>new_cell\<close> is the address of a fresh variable: it is none of those in use, here those up to \<open>a\<close>.
\<close>

datatype 'a cell = Cell nat 'a

definition new_cell :: "nat \<Rightarrow> 'a \<Rightarrow> 'a cell" where
  "new_cell a x = Cell (Suc a) x"

definition ptr_eq :: "'a cell option \<Rightarrow> 'a cell option \<Rightarrow> bool" where
  "ptr_eq p q = (case (p, q) of
     (None, None) \<Rightarrow> True
   | (Some (Cell a _), Some (Cell b _)) \<Rightarrow> a = b
   | _ \<Rightarrow> False)"

text \<open>\<open>p != pointer.T(x)\<close>, for a pointer \<open>p\<close> that exists before the call.\<close>

definition ptr_differs_from_new :: "'a option \<Rightarrow> 'a \<Rightarrow> bool" where
  "ptr_differs_from_new p x = (\<not> ptr_eq (map_option (Cell 0) p) (Some (new_cell 0 x)))"

lemma ptr_differs_from_new [simp]: "ptr_differs_from_new p x"
  by (cases p) (simp_all add: ptr_differs_from_new_def ptr_eq_def new_cell_def)

text \<open>It does not matter at which address the pointer was, as long as it was in use.\<close>

lemma new_cell_apart: "b \<le> a \<Longrightarrow> \<not> ptr_eq (map_option (Cell b) p) (Some (new_cell a x))"
  by (cases p) (simp_all add: ptr_eq_def new_cell_def)

lemma ptr_differs_from_new_at:
  "b \<le> a \<Longrightarrow> ptr_differs_from_new p x = (\<not> ptr_eq (map_option (Cell b) p) (Some (new_cell a x)))"
  by (simp add: new_cell_apart)

section \<open>Integers\<close>

type_synonym int32 = "32 word"
type_synonym int64 = "64 word"

text \<open>\<open>src/pkg/utils/pointer/pointer.go\<close>, with the addresses in use.\<close>

definition Int32 :: "nat \<Rightarrow> int32 \<Rightarrow> int32 cell" where
  "Int32 used i = new_cell used i"

definition Int64 :: "nat \<Rightarrow> int64 \<Rightarrow> int64 cell" where
  "Int64 used i = new_cell used i"

definition Bool :: "nat \<Rightarrow> bool \<Rightarrow> bool cell" where
  "Bool used b = new_cell used b"

text \<open>A comparison with the result of one of them holds for no pointer that was there before.\<close>

lemma helpers_differ:
  "a \<le> used \<Longrightarrow> \<not> ptr_eq (map_option (Cell a) p) (Some (Int32 used i))"
  "a \<le> used \<Longrightarrow> \<not> ptr_eq (map_option (Cell a) q) (Some (Int64 used j))"
  "a \<le> used \<Longrightarrow> \<not> ptr_eq (map_option (Cell a) r) (Some (Bool used b))"
  by (simp_all add: Int32_def Int64_def Bool_def new_cell_apart)

definition int32_of_int :: "int \<Rightarrow> int32" where
  "int32_of_int n = word_of_int n"

lemma int32_of_int_sint [simp]: "int32_of_int (sint r) = r"
  by (simp add: int32_of_int_def)

lemma sint_int32_bounds: "- (2 ^ 31) \<le> sint (r :: int32)" "sint (r :: int32) < 2 ^ 31"
  using sint_greater_eq [of r] sint_less [of r] by simp_all

lemma sint_int32_eq: "sint (a :: int32) = sint b \<longleftrightarrow> a = b"
  by (metis int32_of_int_sint)

lemma sint_int32_eq_0: "sint (r :: int32) = 0 \<longleftrightarrow> r = 0"
  by (metis signed_word_eqI signed_0)

section \<open>strconv\<close>

definition digit_char :: "nat \<Rightarrow> char" where
  "digit_char d = ''0123456789'' ! d"

fun itoa_nat :: "nat \<Rightarrow> string" where
  "itoa_nat n = (if n < 10 then [digit_char n] else itoa_nat (n div 10) @ [digit_char (n mod 10)])"

declare itoa_nat.simps [simp del]

definition Itoa :: "int \<Rightarrow> string" where
  "Itoa n = (if n < 0 then CHR ''-'' # itoa_nat (nat (- n)) else itoa_nat (nat n))"

text \<open>
  \<open>strconv.Atoi\<close> on a 64-bit \<open>int\<close>: \<open>ParseInt(s, 10, 0)\<close> over \<open>ParseUint\<close>, which reads the
  digits from the left and stops at the first one it cannot take, with \<open>ErrSyntax\<close> or, when the
  value leaves 64 bits, \<open>ErrRange\<close>.
\<close>

definition digit_value :: "char \<Rightarrow> nat option" where
  "digit_value c = (let n = (of_char c :: nat) in if 48 \<le> n \<and> n \<le> 57 then Some (n - 48) else None)"

fun parse_uint :: "nat \<Rightarrow> string \<Rightarrow> num_error + nat" where
  "parse_uint acc [] = Inr acc"
| "parse_uint acc (c # cs) =
     (case digit_value c of
        None \<Rightarrow> Inl ErrSyntax
      | Some d \<Rightarrow> if 2 ^ 64 \<le> 10 * acc + d then Inl ErrRange else parse_uint (10 * acc + d) cs)"

definition ParseUint :: "string \<Rightarrow> num_error + nat" where
  "ParseUint s = (if s = [] then Inl ErrSyntax else parse_uint 0 s)"

definition Atoi :: "string \<Rightarrow> num_error + int" where
  "Atoi s = (case s of
     [] \<Rightarrow> Inl ErrSyntax
   | c # cs \<Rightarrow>
       let neg = (c = CHR ''-''); body = (if neg \<or> c = CHR ''+'' then cs else s)
       in case ParseUint body of
            Inl e \<Rightarrow> Inl e
          | Inr un \<Rightarrow>
              if \<not> neg \<and> 2 ^ 63 \<le> un then Inl ErrRange
              else if neg \<and> 2 ^ 63 < un then Inl ErrRange
              else Inr (if neg then - int un else int un))"

definition FormatBool :: "bool \<Rightarrow> string" where
  "FormatBool b = (if b then ''true'' else ''false'')"

lemma FormatBool_eq [simp]: "FormatBool a = FormatBool b \<longleftrightarrow> a = b"
  by (simp add: FormatBool_def)

lemma digit_value_digit_char [simp]: "d < 10 \<Longrightarrow> digit_value (digit_char d) = Some d"
  by (simp add: digit_char_def digit_value_def less_Suc_eq numeral_eq_Suc) auto

lemma digit_char_not_sign: "d < 10 \<Longrightarrow> digit_char d \<noteq> CHR ''-'' \<and> digit_char d \<noteq> CHR ''+''"
  by (auto simp: digit_char_def less_Suc_eq numeral_eq_Suc)

lemma parse_uint_append:
  "parse_uint acc (xs @ ys) =
     (case parse_uint acc xs of Inl e \<Rightarrow> Inl e | Inr a \<Rightarrow> parse_uint a ys)"
  by (induction acc xs rule: parse_uint.induct) (auto split: option.splits)

lemma parse_uint_itoa_nat: "n < 2 ^ 64 \<Longrightarrow> parse_uint 0 (itoa_nat n) = Inr n"
proof (induction n rule: itoa_nat.induct)
  case (1 n)
  show ?case
  proof (cases "n < 10")
    case True
    then show ?thesis by (simp add: itoa_nat.simps [of n])
  next
    case False
    with 1 have "parse_uint 0 (itoa_nat (n div 10)) = Inr (n div 10)" by simp
    with False "1.prems" show ?thesis
      by (simp add: itoa_nat.simps [of n] parse_uint_append)
  qed
qed

lemma itoa_nat_head:
  "\<exists>d cs. d < 10 \<and> itoa_nat n = digit_char d # cs"
proof (induction n rule: itoa_nat.induct)
  case (1 n)
  then show ?case
    by (cases "n < 10") (auto simp: itoa_nat.simps [of n])
qed

lemma ParseUint_itoa_nat: "n < 2 ^ 64 \<Longrightarrow> ParseUint (itoa_nat n) = Inr n"
  using itoa_nat_head [of n] by (auto simp: ParseUint_def parse_uint_itoa_nat)

lemma Atoi_Itoa:
  assumes "- (2 ^ 63) \<le> n" "n < 2 ^ 63"
  shows "Atoi (Itoa n) = Inr n"
proof (cases "n < 0")
  case True
  with assms have "ParseUint (itoa_nat (nat (- n))) = Inr (nat (- n))"
    by (intro ParseUint_itoa_nat) simp
  with True assms show ?thesis by (simp add: Itoa_def Atoi_def)
next
  case False
  with assms have p: "ParseUint (itoa_nat (nat n)) = Inr (nat n)"
    by (intro ParseUint_itoa_nat) simp
  obtain d cs where "d < 10" "itoa_nat (nat n) = digit_char d # cs"
    using itoa_nat_head by blast
  with False assms p show ?thesis
    by (simp add: Itoa_def Atoi_def digit_char_not_sign)
qed

lemma Atoi_Itoa_sint [simp]: "Atoi (Itoa (sint (r :: int32))) = Inr (sint r)"
  by (rule Atoi_Itoa) (use sint_int32_bounds [of r] in simp_all)

lemma Itoa_inject:
  "\<lbrakk> - (2 ^ 63) \<le> m; m < 2 ^ 63; - (2 ^ 63) \<le> n; n < 2 ^ 63; Itoa m = Itoa n \<rbrakk> \<Longrightarrow> m = n"
  by (metis Atoi_Itoa sum.inject(2))

lemma Itoa_sint_eq [simp]: "Itoa (sint (a :: int32)) = Itoa (sint b) \<longleftrightarrow> a = b"
  by (metis Atoi_Itoa_sint sum.inject(2) signed_word_eqI)

lemma Itoa_0 [simp]: "Itoa 0 = ''0''"
  by (simp add: Itoa_def itoa_nat.simps digit_char_def)

lemma Itoa_sint_eq_0 [simp]: "Itoa (sint (a :: int32)) = ''0'' \<longleftrightarrow> a = 0"
  using Itoa_sint_eq [of a 0] by (simp del: Itoa_sint_eq)

section \<open>strings\<close>

text \<open>
  \<open>strings.ToLower\<close> on ASCII text, which the names of Kubernetes objects are.
\<close>

definition to_lower :: "char \<Rightarrow> char" where
  "to_lower c = (let n = (of_char c :: nat) in if 65 \<le> n \<and> n \<le> 90 then char_of (n + 32) else c)"

definition ToLower :: "string \<Rightarrow> string" where
  "ToLower s = map to_lower s"

lemma length_ToLower [simp]: "length (ToLower s) = length s"
  by (simp add: ToLower_def)

lemma ToLower_append [simp]: "ToLower (s @ t) = ToLower s @ ToLower t"
  by (simp add: ToLower_def)

lemma ToLower_Cons [simp]: "ToLower (c # s) = to_lower c # ToLower s" and ToLower_Nil [simp]: "ToLower [] = []"
  by (simp_all add: ToLower_def)

lemma to_lower_dash [simp]: "to_lower (CHR ''-'') = CHR ''-''"
  by (simp add: to_lower_def)

text \<open>\<open>strings.Split\<close> with a one-byte separator.\<close>

fun Split :: "string \<Rightarrow> char \<Rightarrow> string list" where
  "Split [] sep = [[]]"
| "Split (c # cs) sep =
     (if c = sep then [] # Split cs sep
      else case Split cs sep of [] \<Rightarrow> [[c]] | w # ws \<Rightarrow> (c # w) # ws)"

lemma Split_not_Nil [simp]: "Split s sep \<noteq> []"
  by (induction s) (auto split: list.splits)

lemma Split_none: "sep \<notin> set s \<Longrightarrow> Split s sep = [s]"
  by (induction s) auto

lemma Split_append: "sep \<notin> set s \<Longrightarrow> Split (s @ sep # t) sep = s # Split t sep"
  by (induction s) auto

section \<open>encoding/base64\<close>

definition base64_alphabet :: string where
  "base64_alphabet = ''ABCDEFGHIJKLMNOPQRSTUVWXYZabcdefghijklmnopqrstuvwxyz0123456789+/''"

definition base64_char :: "nat \<Rightarrow> char" where
  "base64_char n = base64_alphabet ! n"

fun base64_std :: "string \<Rightarrow> string" where
  "base64_std [] = []"
| "base64_std [a] =
     (let x = (of_char a :: nat)
      in [base64_char (x div 4), base64_char (x mod 4 * 16), CHR ''='', CHR ''=''])"
| "base64_std [a, b] =
     (let x = (of_char a :: nat); y = (of_char b :: nat)
      in [base64_char (x div 4), base64_char (x mod 4 * 16 + y div 16),
          base64_char (y mod 16 * 4), CHR ''=''])"
| "base64_std (a # b # c # cs) =
     (let x = (of_char a :: nat); y = (of_char b :: nat); z = (of_char c :: nat)
      in base64_char (x div 4) # base64_char (x mod 4 * 16 + y div 16)
         # base64_char (y mod 16 * 4 + z div 64) # base64_char (z mod 64) # base64_std cs)"

lemma length_base64_std: "length (base64_std s) = 4 * ((length s + 2) div 3)"
proof (induction s rule: base64_std.induct)
  case (4 a b c cs)
  then have "length (base64_std cs) = 4 * ((length cs + 2) div 3)" by simp
  moreover have "(length (a # b # c # cs) + 2) div 3 = (length cs + 2) div 3 + 1"
    using div_add_self2 [of 3 "length cs + 2"] by simp
  moreover have "length (base64_std (a # b # c # cs)) = length (base64_std cs) + 4"
    by (simp add: Let_def)
  ultimately show ?case by (simp only: distrib_left mult_1_right)
qed (simp_all add: Let_def)

text \<open>The first six characters of an encoding are those of the first five bytes.\<close>

lemma base64_std_take6:
  "5 \<le> length s \<Longrightarrow> take 6 (base64_std (take 5 s)) = take 6 (base64_std s)"
proof -
  assume "5 \<le> length s"
  then obtain a b c d e r where s: "s = a # b # c # d # e # r"
    by (auto simp: Suc_le_length_iff eval_nat_numeral)
  show ?thesis
    unfolding s by (cases r) (simp_all add: Let_def)
qed

end
