(* ===== verification/Names.thy ===== *)
theory Names
  imports GoStd
begin

text \<open>
  \<open>src/pkg/utils/k8s/name.go\<close>: the names of the objects kidle creates for an instance, cut to
  the 63 characters of a DNS label. \<open>Base64\<close> and \<open>ToDNSName\<close> are the two functions of the file;
  slicing out of range is a panic. The lemmas: when \<open>ToDNSName\<close> returns, the length of what it
  returns, that it is a DNS label when the name has no dot, and on which names it is injective.
\<close>

section \<open>The functions\<close>

definition ResourceNameLengthLimit :: int where
  "ResourceNameLengthLimit = 63"

text \<open>\<open>s[:n]\<close>\<close>

definition slice_to :: "string \<Rightarrow> int \<Rightarrow> string outcome" where
  "slice_to s n = (if 0 \<le> n \<and> n \<le> int (length s) then Ret (take (nat n) s) else Panic SliceOutOfRange)"

definition Base64 :: "string \<Rightarrow> int \<Rightarrow> string outcome" where
  "Base64 src len =
     (let encoded = base64_std src
      in if len \<ge> 0 then slice_to encoded len else Ret encoded)"

definition ToDNSName :: "string \<Rightarrow> string \<Rightarrow> string \<Rightarrow> string outcome" where
  "ToDNSName prefix name suffix0 =
     (let suffix = (if suffix0 \<noteq> '''' then ''-'' @ suffix0 else suffix0);
          n = prefix @ ''-'' @ name @ suffix
      in if length n \<le> 63 then Ret n
         else
           let i = int (length (prefix @ ''-'' @ suffix));
               left = ResourceNameLengthLimit - i
           in bind_outcome (Base64 name 6) (\<lambda>b64.
              bind_outcome (slice_to name (left - 7)) (\<lambda>cut.
              Ret (ToLower (prefix @ ''-'' @ cut @ ''-'' @ b64 @ suffix)))))"

section \<open>Closed forms\<close>

text \<open>The suffix with its dash, and the length of what surrounds the name.\<close>

definition dashed :: "string \<Rightarrow> string" where
  "dashed s = (if s = '''' then '''' else CHR ''-'' # s)"

definition name_room :: "string \<Rightarrow> string \<Rightarrow> nat" where
  "name_room prefix suffix = 63 - (Suc (length prefix) + length (dashed suffix))"

lemma ToDNSName_dashed:
  "ToDNSName prefix name suffix =
     (if Suc (length prefix) + length name + length (dashed suffix) \<le> 63
      then Ret (prefix @ ''-'' @ name @ dashed suffix)
      else bind_outcome (Base64 name 6) (\<lambda>b64.
           bind_outcome (slice_to name (56 - int (Suc (length prefix) + length (dashed suffix)))) (\<lambda>cut.
           Ret (ToLower (prefix @ ''-'' @ cut @ ''-'' @ b64 @ dashed suffix)))))"
proof -
  have d: "(if suffix \<noteq> '''' then ''-'' @ suffix else suffix) = dashed suffix"
    by (simp add: dashed_def)
  have l: "ResourceNameLengthLimit - int (length (prefix @ ''-'' @ dashed suffix)) - 7
      = 56 - int (Suc (length prefix) + length (dashed suffix))"
    by (simp add: ResourceNameLengthLimit_def)
  show ?thesis unfolding ToDNSName_def Let_def d l by simp
qed

lemma ToDNSName_short:
  "Suc (length prefix) + length name + length (dashed suffix) \<le> 63 \<Longrightarrow>
     ToDNSName prefix name suffix = Ret (prefix @ ''-'' @ name @ dashed suffix)"
  by (simp add: ToDNSName_dashed)

lemma Base64_6: "4 \<le> length s \<Longrightarrow> Base64 s 6 = Ret (take 6 (base64_std s))"
  by (simp add: Base64_def slice_to_def length_base64_std Let_def)

lemma ToDNSName_long:
  assumes long: "63 < Suc (length prefix) + length name + length (dashed suffix)"
    and room: "Suc (length prefix) + length (dashed suffix) \<le> 56"
  shows "ToDNSName prefix name suffix =
    Ret (ToLower (prefix @ ''-'' @ take (name_room prefix suffix - 7) name @ ''-''
           @ take 6 (base64_std name) @ dashed suffix))"
proof -
  have name: "7 < length name" using assms by simp
  then have b: "Base64 name 6 = Ret (take 6 (base64_std name))" by (simp add: Base64_6)
  have "nat (56 - int (Suc (length prefix) + length (dashed suffix))) = name_room prefix suffix - 7"
    by (simp add: name_room_def)
  then have "slice_to name (56 - int (Suc (length prefix) + length (dashed suffix)))
      = Ret (take (name_room prefix suffix - 7) name)"
    using assms by (simp add: slice_to_def)
  with b long show ?thesis by (simp add: ToDNSName_dashed)
qed

lemma ToDNSName_no_room:
  assumes long: "63 < Suc (length prefix) + length name + length (dashed suffix)"
    and room: "56 < Suc (length prefix) + length (dashed suffix)"
  shows "ToDNSName prefix name suffix = Panic SliceOutOfRange"
proof -
  have "Base64 name 6 = Panic SliceOutOfRange \<or> (\<exists>b. Base64 name 6 = Ret b)"
    by (simp add: Base64_def slice_to_def Let_def)
  moreover have "slice_to name (56 - int (Suc (length prefix) + length (dashed suffix)))
      = Panic SliceOutOfRange"
    using room by (simp add: slice_to_def)
  ultimately show ?thesis using long by (auto simp: ToDNSName_dashed)
qed

section \<open>When it returns, and what it returns\<close>

lemma ToDNSName_defined:
  assumes "Suc (length prefix) + length (dashed suffix) \<le> 56"
  obtains s where "ToDNSName prefix name suffix = Ret s" "length s \<le> 63"
proof (cases "Suc (length prefix) + length name + length (dashed suffix) \<le> 63")
  case True
  then show ?thesis using that by (simp add: ToDNSName_short)
next
  case False
  then have "7 < length name" using assms by simp
  with False assms show ?thesis
    using that by (simp add: ToDNSName_long name_room_def length_base64_std)
qed

lemma ToDNSName_length:
  "ToDNSName prefix name suffix = Ret s \<Longrightarrow>
     length s = min 63 (Suc (length prefix) + length name + length (dashed suffix))"
proof -
  assume ret: "ToDNSName prefix name suffix = Ret s"
  show ?thesis
  proof (cases "Suc (length prefix) + length name + length (dashed suffix) \<le> 63")
    case True
    with ret show ?thesis by (auto simp: ToDNSName_short)
  next
    case False
    have room: "Suc (length prefix) + length (dashed suffix) \<le> 56"
    proof (rule ccontr)
      assume "\<not> ?thesis"
      with False have "ToDNSName prefix name suffix = Panic SliceOutOfRange"
        by (intro ToDNSName_no_room) simp_all
      with ret show False by simp
    qed
    then have "7 < length name" using False by simp
    with False room ret show ?thesis
      by (auto simp: ToDNSName_long name_room_def length_base64_std)
  qed
qed

text \<open>The five suffixes kidle uses with its prefix leave room for every name.\<close>

definition kidle_suffixes :: "string list" where
  "kidle_suffixes = [''idle'', ''wakeup'', ''sa'', ''role'', ''rb'']"

lemma kidle_room: "suffix \<in> set kidle_suffixes \<Longrightarrow> Suc (length ''kidle'') + length (dashed suffix) \<le> 13"
  by (auto simp: kidle_suffixes_def dashed_def)

lemma ToDNSName_kidle:
  assumes "suffix \<in> set kidle_suffixes"
  obtains s where "ToDNSName ''kidle'' name suffix = Ret s" "length s \<le> 63"
  using kidle_room [OF assms] by (rule ToDNSName_defined [OF order_trans]) simp_all

section \<open>DNS labels\<close>

definition dns_alnum :: "char \<Rightarrow> bool" where
  "dns_alnum c = (let n = (of_char c :: nat) in 97 \<le> n \<and> n \<le> 122 \<or> 48 \<le> n \<and> n \<le> 57)"

definition dns_char :: "char \<Rightarrow> bool" where
  "dns_char c = (dns_alnum c \<or> c = CHR ''-'')"

text \<open>RFC 1123, as Kubernetes checks it: \<open>[a-z0-9]([-a-z0-9]*[a-z0-9])?\<close>, 63 at most.\<close>

definition dns_label :: "string \<Rightarrow> bool" where
  "dns_label s = (s \<noteq> [] \<and> length s \<le> 63 \<and> list_all dns_char s \<and> dns_alnum (hd s) \<and> dns_alnum (last s))"

lemma dns_char_code:
  "dns_char c \<Longrightarrow> (of_char c :: nat) = 45 \<or> 48 \<le> (of_char c :: nat) \<and> (of_char c :: nat) \<le> 57
     \<or> 97 \<le> (of_char c :: nat) \<and> (of_char c :: nat) \<le> 122"
  by (auto simp: dns_char_def dns_alnum_def Let_def)

lemma to_lower_dns [simp]: "dns_char c \<Longrightarrow> to_lower c = c"
  using dns_char_code [of c] by (auto simp: to_lower_def Let_def)

lemma ToLower_dns [simp]: "list_all dns_char s \<Longrightarrow> ToLower s = s"
  by (induction s) (simp_all add: ToLower_def)

lemma base64_char_alnum:
  assumes "n < 62"
  shows "dns_alnum (to_lower (base64_char n))"
proof -
  have "list_all (\<lambda>c. dns_alnum (to_lower c)) (take 62 base64_alphabet)"
    by (simp add: base64_alphabet_def to_lower_def dns_alnum_def Let_def)
  moreover have "length base64_alphabet = 64" by (simp add: base64_alphabet_def)
  ultimately show ?thesis
    using assms by (simp add: base64_char_def list_all_length)
qed

text \<open>
  On DNS characters the first six characters of the encoding never use the last two letters of
  the base64 alphabet, \<open>+\<close> and \<open>/\<close>, nor its padding.
\<close>

lemma base64_take6_dns:
  assumes "list_all dns_char s" "5 \<le> length s"
  shows "list_all dns_alnum (ToLower (take 6 (base64_std s)))"
proof -
  obtain a b c d e r where s: "s = a # b # c # d # e # r"
    using assms(2) by (auto simp: Suc_le_length_iff eval_nat_numeral)
  define va vb vc vd ve where v: "va = (of_char a :: nat)" "vb = (of_char b :: nat)"
    "vc = (of_char c :: nat)" "vd = (of_char d :: nat)" "ve = (of_char e :: nat)"
  have code: "n = 45 \<or> 48 \<le> n \<and> n \<le> 57 \<or> 97 \<le> n \<and> n \<le> 122" if "n \<in> {va, vb, vc, vd, ve}" for n
    using that assms(1) dns_char_code unfolding s v by auto
  have le: "n \<le> 122" if "n \<in> {va, vb, vc, vd, ve}" for n using code [OF that] by linarith
  have quarter: "n div 4 < 62" if "n \<in> {va, vb, vc, vd, ve}" for n using le [OF that] by linarith
  have second: "m mod 4 * 16 + n div 16 < 62" if "n \<in> {va, vb, vc, vd, ve}" for m n
  proof -
    have "m mod 4 < 4" by simp
    then show ?thesis using le [OF that] by linarith
  qed
  have third: "m mod 16 * 4 + n div 64 < 62" if "n \<in> {va, vb, vc, vd, ve}" for m n
  proof -
    have "m mod 16 < 16" by simp
    then show ?thesis using le [OF that] by linarith
  qed
  have fourth: "n mod 64 < 62" if "n \<in> {va, vb, vc, vd, ve}" for n
  proof (cases "n \<le> 57")
    case True
    then show ?thesis by simp
  next
    case False
    with code [OF that] have "97 \<le> n" "n \<le> 122" by linarith+
    then show ?thesis by (simp add: le_mod_geq)
  qed
  have rest: "\<exists>t. base64_std (d # e # r)
      = base64_char (vd div 4) # base64_char (vd mod 4 * 16 + ve div 16) # t"
    by (cases r) (simp_all add: Let_def v)
  then obtain t where "base64_std s = base64_char (va div 4) # base64_char (va mod 4 * 16 + vb div 16)
      # base64_char (vb mod 16 * 4 + vc div 64) # base64_char (vc mod 64)
      # base64_char (vd div 4) # base64_char (vd mod 4 * 16 + ve div 16) # t"
    unfolding s by (auto simp: Let_def v)
  then show ?thesis
    by (simp add: ToLower_def base64_char_alnum quarter second third fourth)
qed

lemma ToDNSName_label:
  assumes ret: "ToDNSName prefix name suffix = Ret s"
    and prefix: "list_all dns_char prefix" "prefix \<noteq> []" "dns_alnum (hd prefix)"
    and name: "list_all dns_char name" "name \<noteq> []" "dns_alnum (last name)"
    and suffix: "list_all dns_char suffix" "suffix \<noteq> [] \<Longrightarrow> dns_alnum (last suffix)"
  shows "dns_label s"
proof -
  have dash: "list_all dns_char (dashed suffix)"
    using suffix by (simp add: dashed_def dns_char_def)
  have len: "length s \<le> 63" using ToDNSName_length [OF ret] by simp
  show ?thesis
  proof (cases "Suc (length prefix) + length name + length (dashed suffix) \<le> 63")
    case True
    with ret have "s = prefix @ ''-'' @ name @ dashed suffix" by (simp add: ToDNSName_short)
    with assms dash len show ?thesis by (auto simp: dns_label_def dashed_def dns_char_def)
  next
    case False
    then have room: "Suc (length prefix) + length (dashed suffix) \<le> 56"
      using ret ToDNSName_no_room [of prefix name suffix] by force
    then have n5: "5 \<le> length name" using False by simp
    let ?b = "ToLower (take 6 (base64_std name))"
    have b: "list_all dns_alnum ?b" by (rule base64_take6_dns [OF name(1) n5])
    have b6: "length ?b = 6" using n5 by (simp add: length_base64_std)
    then have bne: "?b \<noteq> []" by (metis list.size(3) zero_neq_numeral)
    have "s = prefix @ ''-'' @ take (name_room prefix suffix - 7) name @ ''-'' @ ?b @ dashed suffix"
      using ret ToDNSName_long [of prefix name suffix] False room prefix(1) name(1) dash
      by (simp add: list_all_append_take dns_char_def)
    moreover have "list_all dns_char ?b"
      using b by (auto simp: list_all_iff dns_char_def)
    moreover have "dns_alnum (last ?b)"
      using b bne by (simp add: list_all_iff)
    ultimately show ?thesis
      using prefix suffix dash len bne
      by (auto simp: dns_label_def dashed_def dns_char_def list_all_append_take name(1))
  qed
qed

section \<open>Which names collide\<close>

text \<open>A name ends with its suffix, so names with suffixes of different endings differ.\<close>

lemma ToDNSName_suffix:
  assumes "ToDNSName prefix name suffix = Ret s" "list_all dns_char suffix" "suffix \<noteq> []"
  shows "last s = last suffix"
proof (cases "Suc (length prefix) + length name + length (dashed suffix) \<le> 63")
  case True
  with assms show ?thesis by (auto simp: ToDNSName_short dashed_def)
next
  case False
  then have "Suc (length prefix) + length (dashed suffix) \<le> 56"
    using assms(1) ToDNSName_no_room [of prefix name suffix] by force
  moreover have "ToLower (dashed suffix) = dashed suffix"
    using assms(2) by (simp add: dashed_def)
  ultimately show ?thesis
    using assms(1,3) ToDNSName_long [of prefix name suffix] False by (auto simp: dashed_def)
qed

lemma ToDNSName_idle_wakeup:
  "ToDNSName ''kidle'' a ''idle'' = Ret s \<Longrightarrow> ToDNSName ''kidle'' b ''wakeup'' = Ret t \<Longrightarrow> s \<noteq> t"
  using ToDNSName_suffix [of "''kidle''" a "''idle''" s] ToDNSName_suffix [of "''kidle''" b "''wakeup''" t]
  by (auto simp: dns_char_def dns_alnum_def)

lemma ToDNSName_short_inj:
  assumes "Suc (length prefix) + length a + length (dashed suffix) \<le> 63"
    and "Suc (length prefix) + length b + length (dashed suffix) \<le> 63"
    and "ToDNSName prefix a suffix = ToDNSName prefix b suffix"
  shows "a = b"
  using assms by (simp add: ToDNSName_short)

lemma base64_prefix_cong:
  assumes "take 5 a = take 5 b" "5 \<le> length a" "5 \<le> length b"
  shows "take 6 (base64_std a) = take 6 (base64_std b)"
  using assms base64_std_take6 by metis

lemma ToDNSName_long_cong:
  assumes room: "Suc (length prefix) + length (dashed suffix) \<le> 51"
    and a: "63 < Suc (length prefix) + length a + length (dashed suffix)"
    and b: "63 < Suc (length prefix) + length b + length (dashed suffix)"
    and same: "take (name_room prefix suffix - 7) a = take (name_room prefix suffix - 7) b"
  shows "ToDNSName prefix a suffix = ToDNSName prefix b suffix"
proof -
  have "take 5 a = take 5 b"
    using same room by (intro take_eq_takeI [OF same]) (simp add: name_room_def)
  then have "take 6 (base64_std a) = take 6 (base64_std b)"
    using a b room by (intro base64_prefix_cong) simp_all
  then show ?thesis
    using assms by (simp add: ToDNSName_long)
qed

section \<open>Properties\<close>

text \<open>The table of \<open>src/pkg/utils/k8s/name_test.go\<close>.\<close>

lemma ToDNSName_tests:
  "ToDNSName ''kidle'' ''shortname'' ''idle'' = Ret ''kidle-shortname-idle''"
  "ToDNSName ''kidle'' ''shortname'' '''' = Ret ''kidle-shortname''"
  "ToDNSName ''kidle'' ''name-length-is-63-yessssssssssssssssssssssssssssss'' ''wakeup''
     = Ret ''kidle-name-length-is-63-yessssssssssssssssssssssssssssss-wakeup''"
  "ToDNSName ''kidle'' ''very-toooooooooooooooooooooooooooooooooooooooooooooooooo-long'' ''idle''
     = Ret ''kidle-very-tooooooooooooooooooooooooooooooooooooooo-dmvyes-idle''"
  by code_simp+

text \<open>
  C22: Every name kidle makes for an instance with a name of lower-case letters, digits and dashes
  that ends in a letter or digit is a DNS label as Kubernetes wants it, however long the name of
  the instance is.
\<close>

theorem kidle_names_are_labels:
  assumes "list_all dns_char name" "name \<noteq> []" "dns_alnum (last name)" "suffix \<in> set kidle_suffixes"
  shows "\<exists>s. ToDNSName ''kidle'' name suffix = Ret s \<and> dns_label s"
proof -
  obtain s where s: "ToDNSName ''kidle'' name suffix = Ret s"
    using ToDNSName_kidle [OF assms(4)] by blast
  have "list_all dns_char suffix" "dns_alnum (last suffix)"
    using assms(4) by (auto simp: kidle_suffixes_def dns_char_def dns_alnum_def)
  with s assms show ?thesis
    using ToDNSName_label [OF s] by (auto simp: dns_char_def dns_alnum_def)
qed

theorem kidle_names_are_labels_witness:
  "\<exists>s. ToDNSName ''kidle'' ''very-toooooooooooooooooooooooooooooooooooooooooooooooooo-long'' ''sa'' = Ret s \<and>
     dns_label s"
  using kidle_names_are_labels
    [of "''very-toooooooooooooooooooooooooooooooooooooooooooooooooo-long''" "''sa''"]
  by (simp add: dns_char_def dns_alnum_def kidle_suffixes_def)


text \<open>
  C24: Instances with names of at most 50 characters never share the name of an object kidle makes
  for them, and the name of an idle cron job is never that of a wakeup cron job.
\<close>

theorem kidle_names_apart:
  assumes "length a \<le> 50" "length b \<le> 50" "suffix \<in> set kidle_suffixes"
  shows "(ToDNSName ''kidle'' a suffix = ToDNSName ''kidle'' b suffix \<longleftrightarrow> a = b) \<and>
     ToDNSName ''kidle'' a ''idle'' \<noteq> ToDNSName ''kidle'' b ''wakeup''"
proof -
  have "Suc (length ''kidle'') + length (dashed suffix) \<le> 13" by (rule kidle_room [OF assms(3)])
  with assms(1,2) have "Suc (length ''kidle'') + length a + length (dashed suffix) \<le> 63"
    "Suc (length ''kidle'') + length b + length (dashed suffix) \<le> 63" by simp_all
  then have "ToDNSName ''kidle'' a suffix = ToDNSName ''kidle'' b suffix \<longleftrightarrow> a = b"
    using ToDNSName_short_inj by blast
  moreover have "ToDNSName ''kidle'' a ''idle'' \<noteq> ToDNSName ''kidle'' b ''wakeup''"
    using ToDNSName_kidle [of "''wakeup''" b] ToDNSName_idle_wakeup [of a _ b]
    by (metis kidle_suffixes_def list.set_intros)
  ultimately show ?thesis ..
qed

theorem kidle_names_apart_witness:
  "ToDNSName ''kidle'' ''web-idler'' ''idle'' \<noteq> ToDNSName ''kidle'' ''api-idler'' ''idle''"
  using kidle_names_apart [of "''web-idler''" "''api-idler''" "''idle''"] by (simp add: kidle_suffixes_def)

text \<open>
  C25: Longer names do collide: two names that do not fit and agree on their first characters, 45 for
  the idle cron job, get the same name, because the six base64 characters that are to tell them apart
  are those of the first five bytes.
\<close>

theorem long_names_collide:
  assumes "suffix \<in> set kidle_suffixes"
    and "63 < Suc (length ''kidle'') + length a + length (dashed suffix)"
    and "63 < Suc (length ''kidle'') + length b + length (dashed suffix)"
    and "take (name_room ''kidle'' suffix - 7) a = take (name_room ''kidle'' suffix - 7) b"
  shows "ToDNSName ''kidle'' a suffix = ToDNSName ''kidle'' b suffix"
  by (rule ToDNSName_long_cong) (use assms kidle_room [OF assms(1)] in simp_all)

theorem long_names_collide_witness:
  "ToDNSName ''kidle'' ''the-payment-service-of-the-north-american-region-blue'' ''idle''
     = ToDNSName ''kidle'' ''the-payment-service-of-the-north-american-region-green'' ''idle''"
  by (rule long_names_collide) (simp_all add: kidle_suffixes_def dashed_def name_room_def)

end
