(* ===== verification/KubeTypes.thy ===== *)
theory KubeTypes
  imports Names
begin

text \<open>
  The Kubernetes objects kidle reads and writes, with the fields its code uses, and the three
  utility packages that work on them: annotations (\<open>src/pkg/utils/k8s/annotations.go\<close>),
  containers (\<open>src/pkg/utils/k8s/types.go\<close>) and string slices (\<open>src/pkg/utils/array/string.go\<close>).

  A field named \<open>_rest\<close> holds, unread, everything of an object that kidle's code neither reads
  nor writes (labels, selectors, pod templates and so on), so that a frame property can speak of it.
  \<open>om_managed\<close> holds the metadata only the API server writes (uid, generation, managed fields).
\<close>

section \<open>Metadata\<close>

record namespaced_name =
  nn_Namespace :: string
  nn_Name :: string

record type_meta =
  tm_Kind :: string
  tm_APIVersion :: string

record group_version =
  gv_Group :: string
  gv_Version :: string

record owner_reference =
  or_APIVersion :: string
  or_Kind :: string
  or_Name :: string
  or_Controller :: bool

text \<open>
  \<open>om_DeletionTimestamp\<close>: \<open>None\<close> is the nil pointer, \<open>Some 0\<close> a pointer to the zero time; both
  are zero for \<open>IsZero\<close>. \<open>om_Annotations\<close>: \<open>None\<close> is the nil map.
\<close>

record object_meta =
  om_Namespace :: string
  om_Name :: string
  om_ResourceVersion :: string
  om_Annotations :: "(string \<rightharpoonup> string) option"
  om_Finalizers :: "string list"
  om_DeletionTimestamp :: "nat option"
  om_OwnerReferences :: "owner_reference list"
  om_managed :: string
  om_rest :: string

definition ObjectMeta :: "string \<Rightarrow> string \<Rightarrow> object_meta" where
  "ObjectMeta namespace name =
     \<lparr> om_Namespace = namespace, om_Name = name, om_ResourceVersion = '''', om_Annotations = None,
       om_Finalizers = [], om_DeletionTimestamp = None, om_OwnerReferences = [],
       om_managed = '''', om_rest = '''' \<rparr>"

definition meta_key :: "object_meta \<Rightarrow> namespaced_name" where
  "meta_key m = \<lparr> nn_Namespace = om_Namespace m, nn_Name = om_Name m \<rparr>"

text \<open>\<open>!m.DeletionTimestamp.IsZero()\<close>\<close>

definition meta_deleting :: "object_meta \<Rightarrow> bool" where
  "meta_deleting m = (case om_DeletionTimestamp m of None \<Rightarrow> False | Some t \<Rightarrow> t \<noteq> 0)"

section \<open>Annotations\<close>

definition AddAnnotation :: "object_meta \<Rightarrow> string \<Rightarrow> string \<Rightarrow> object_meta" where
  "AddAnnotation obj annotation value =
     (let m = (case om_Annotations obj of None \<Rightarrow> Map.empty | Some m \<Rightarrow> m)
      in obj\<lparr> om_Annotations := Some (m(annotation \<mapsto> value)) \<rparr>)"

definition RemoveAnnotation :: "object_meta \<Rightarrow> string \<Rightarrow> object_meta" where
  "RemoveAnnotation obj annotation =
     obj\<lparr> om_Annotations := map_option (\<lambda>m. m(annotation := None)) (om_Annotations obj) \<rparr>"

text \<open>The pair \<open>(value, found)\<close>.\<close>

definition GetAnnotation :: "object_meta \<Rightarrow> string \<Rightarrow> string \<times> bool" where
  "GetAnnotation obj annotation =
     (case om_Annotations obj of
        None \<Rightarrow> ('''', False)
      | Some m \<Rightarrow> (case m annotation of None \<Rightarrow> ('''', False) | Some v \<Rightarrow> (v, True)))"

definition HasAnnotation :: "object_meta \<Rightarrow> string \<Rightarrow> bool" where
  "HasAnnotation obj annotation =
     (case om_Annotations obj of None \<Rightarrow> False | Some m \<Rightarrow> annotation \<in> dom m)"

text \<open>
  The abstract contents: a missing map and an empty one are the same partial function, which is
  also what \<open>GetAnnotations()[annotation]\<close> reads.
\<close>

definition annotation :: "object_meta \<Rightarrow> string \<Rightarrow> string option" where
  "annotation obj a = (case om_Annotations obj of None \<Rightarrow> None | Some m \<Rightarrow> m a)"

lemma annotation_AddAnnotation [simp]:
  "annotation (AddAnnotation obj a v) b = (if b = a then Some v else annotation obj b)"
  by (simp add: annotation_def AddAnnotation_def Let_def split: option.splits)

lemma annotation_RemoveAnnotation [simp]:
  "annotation (RemoveAnnotation obj a) b = (if b = a then None else annotation obj b)"
  by (simp add: annotation_def RemoveAnnotation_def split: option.splits)

lemma HasAnnotation_iff: "HasAnnotation obj a \<longleftrightarrow> annotation obj a \<noteq> None"
  by (auto simp: annotation_def HasAnnotation_def split: option.splits)

lemma GetAnnotation_eq:
  "GetAnnotation obj a = (case annotation obj a of None \<Rightarrow> ('''', False) | Some v \<Rightarrow> (v, True))"
  by (simp add: annotation_def GetAnnotation_def split: option.splits)

lemma annotation_ObjectMeta [simp]: "annotation (ObjectMeta ns n) a = None"
  by (simp add: annotation_def ObjectMeta_def)

text \<open>Writing annotations changes nothing else of the metadata.\<close>

lemma AddAnnotation_frame [simp]:
  "om_Namespace (AddAnnotation obj a v) = om_Namespace obj"
  "om_Name (AddAnnotation obj a v) = om_Name obj"
  "om_ResourceVersion (AddAnnotation obj a v) = om_ResourceVersion obj"
  "om_Finalizers (AddAnnotation obj a v) = om_Finalizers obj"
  "om_DeletionTimestamp (AddAnnotation obj a v) = om_DeletionTimestamp obj"
  "om_OwnerReferences (AddAnnotation obj a v) = om_OwnerReferences obj"
  "om_rest (AddAnnotation obj a v) = om_rest obj"
  "om_managed (AddAnnotation obj a v) = om_managed obj"
  "meta_key (AddAnnotation obj a v) = meta_key obj"
  "meta_deleting (AddAnnotation obj a v) = meta_deleting obj"
  by (simp_all add: AddAnnotation_def Let_def meta_key_def meta_deleting_def)

lemma RemoveAnnotation_frame [simp]:
  "om_Namespace (RemoveAnnotation obj a) = om_Namespace obj"
  "om_Name (RemoveAnnotation obj a) = om_Name obj"
  "om_ResourceVersion (RemoveAnnotation obj a) = om_ResourceVersion obj"
  "om_Finalizers (RemoveAnnotation obj a) = om_Finalizers obj"
  "om_DeletionTimestamp (RemoveAnnotation obj a) = om_DeletionTimestamp obj"
  "om_OwnerReferences (RemoveAnnotation obj a) = om_OwnerReferences obj"
  "om_rest (RemoveAnnotation obj a) = om_rest obj"
  "om_managed (RemoveAnnotation obj a) = om_managed obj"
  "meta_key (RemoveAnnotation obj a) = meta_key obj"
  "meta_deleting (RemoveAnnotation obj a) = meta_deleting obj"
  by (simp_all add: RemoveAnnotation_def meta_key_def meta_deleting_def)

section \<open>String slices\<close>

fun ContainsString :: "string list \<Rightarrow> string \<Rightarrow> bool" where
  "ContainsString [] s = False"
| "ContainsString (item # items) s = (if item = s then True else ContainsString items s)"

text \<open>The loop of \<open>RemoveString\<close>, with its result items as the accumulator.\<close>

fun RemoveString_loop :: "string list \<Rightarrow> string \<Rightarrow> string list \<Rightarrow> string list" where
  "RemoveString_loop [] s result = result"
| "RemoveString_loop (item # items) s result =
     (if item = s then RemoveString_loop items s result
      else RemoveString_loop items s (result @ [item]))"

definition RemoveString :: "string list \<Rightarrow> string \<Rightarrow> string list" where
  "RemoveString items s = RemoveString_loop items s []"

lemma ContainsString_iff [simp]: "ContainsString items s \<longleftrightarrow> s \<in> set items"
  by (induction items) auto

lemma RemoveString_loop_eq: "RemoveString_loop items s result = result @ filter (\<lambda>x. x \<noteq> s) items"
  by (induction items arbitrary: result) auto

lemma RemoveString_eq: "RemoveString items s = filter (\<lambda>x. x \<noteq> s) items"
  by (simp add: RemoveString_def RemoveString_loop_eq)

section \<open>Workloads\<close>

record deployment =
  d_meta :: object_meta
  d_Replicas :: "int32 option"
  d_rest :: string

record statefulset =
  s_meta :: object_meta
  s_Replicas :: "int32 option"
  s_rest :: string

record container =
  c_Name :: string
  c_Image :: string
  c_Args :: "string list"
  c_rest :: string

text \<open>
  A \<open>batch/v1beta1\<close> cron job: the fields from \<open>cj_ServiceAccountName\<close> to \<open>cj_Containers\<close> are those
  of its pod template.
\<close>

record cronjob =
  cj_TypeMeta :: type_meta
  cj_meta :: object_meta
  cj_Schedule :: string
  cj_Suspend :: "bool option"
  cj_ServiceAccountName :: string
  cj_RestartPolicy :: string
  cj_Containers :: "container list"
  cj_rest :: string

section \<open>Access control\<close>

record service_account =
  sa_meta :: object_meta
  sa_rest :: string

record policy_rule =
  pr_Verbs :: "string list"
  pr_APIGroups :: "string list"
  pr_Resources :: "string list"
  pr_ResourceNames :: "string list"

record role =
  r_meta :: object_meta
  r_Rules :: "policy_rule list"

record subject =
  sub_Kind :: string
  sub_Name :: string

record role_ref =
  rr_APIGroup :: string
  rr_Kind :: string
  rr_Name :: string

record role_binding =
  rb_meta :: object_meta
  rb_Subjects :: "subject list"
  rb_RoleRef :: role_ref

section \<open>Containers\<close>

definition zero_container :: container where
  "zero_container = \<lparr> c_Name = '''', c_Image = '''', c_Args = [], c_rest = '''' \<rparr>"

text \<open>The loop of \<open>ContainersToMap\<close>: a later container overwrites an earlier one of its name.\<close>

fun ContainersToMap_loop :: "container list \<Rightarrow> (string \<rightharpoonup> container) \<Rightarrow> (string \<rightharpoonup> container)" where
  "ContainersToMap_loop [] result = result"
| "ContainersToMap_loop (c # containers) result =
     ContainersToMap_loop containers (result(c_Name c \<mapsto> c))"

definition ContainersToMap :: "container list \<Rightarrow> (string \<rightharpoonup> container)" where
  "ContainersToMap containers =
     (if length containers > 0 then ContainersToMap_loop containers Map.empty else Map.empty)"

text \<open>\<open>m[key]\<close> of a map of containers: the zero value for a missing key.\<close>

definition container_at :: "(string \<rightharpoonup> container) \<Rightarrow> string \<Rightarrow> container" where
  "container_at m key = (case m key of None \<Rightarrow> zero_container | Some c \<Rightarrow> c)"

text \<open>\<open>SetContainer\<close> replaces the first container of the name; with none it does nothing.\<close>

fun SetContainer :: "container list \<Rightarrow> container \<Rightarrow> container list" where
  "SetContainer [] c = []"
| "SetContainer (k # ks) c = (if c_Name k = c_Name c then c # ks else k # SetContainer ks c)"

lemma ContainersToMap_loop_eq:
  "ContainersToMap_loop cs m n =
     (case find (\<lambda>c. c_Name c = n) (rev cs) of None \<Rightarrow> m n | Some c \<Rightarrow> Some c)"
proof (induction cs arbitrary: m)
  case (Cons c cs)
  then show ?case
    by (auto simp: find_append split: option.splits)
qed simp

lemma ContainersToMap_eq: "ContainersToMap cs n = find (\<lambda>c. c_Name c = n) (rev cs)"
  by (auto simp: ContainersToMap_def ContainersToMap_loop_eq split: option.splits)

lemma ContainersToMap_Some: "ContainersToMap cs n = Some c \<Longrightarrow> c \<in> set cs \<and> c_Name c = n"
  by (auto simp: ContainersToMap_eq dest: find_SomeD)

lemma ContainersToMap_None: "ContainersToMap cs n = None \<longleftrightarrow> n \<notin> c_Name ` set cs"
  by (auto simp: ContainersToMap_eq find_None_iff)

lemma SetContainer_absent: "c_Name c \<notin> c_Name ` set cs \<Longrightarrow> SetContainer cs c = cs"
  by (induction cs) auto

lemma SetContainer_names [simp]: "map c_Name (SetContainer cs c) = map c_Name cs"
  by (induction cs) auto

lemma length_SetContainer [simp]: "length (SetContainer cs c) = length cs"
  by (induction cs) auto

text \<open>With distinct names, setting and looking up behave as a map does.\<close>

lemma ContainersToMap_SetContainer:
  assumes "distinct (map c_Name cs)" "c_Name c \<in> c_Name ` set cs"
  shows "ContainersToMap (SetContainer cs c) = (ContainersToMap cs)(c_Name c \<mapsto> c)"
proof -
  have "find (\<lambda>x. c_Name x = n) (rev (SetContainer cs c))
      = (if n = c_Name c then Some c else find (\<lambda>x. c_Name x = n) (rev cs))" for n
    using assms
  proof (induction cs)
    case (Cons k ks)
    have none: "find (\<lambda>x. c_Name x = n) (rev ks) = None" if "n \<notin> c_Name ` set ks" for n
      using that by (auto simp: find_None_iff)
    show ?case
    proof (cases "c_Name k = c_Name c")
      case True
      then have "c_Name c \<notin> c_Name ` set ks" using Cons.prems(1) by simp
      with True none show ?thesis by (auto simp: find_append split: option.splits)
    next
      case False
      with Cons show ?thesis by (auto simp: find_append split: option.splits)
    qed
  qed simp
  then show ?thesis by (simp add: ContainersToMap_eq fun_eq_iff)
qed

end
