(* ===== verification/IdlingResource.thy ===== *)
theory IdlingResource
  imports KubeTypes
begin

text \<open>
  \<open>src/pkg/api/v1beta1/idlingresource_types.go\<close>: the custom resource \<open>IdlingResource\<close>, the names
  of kidle's finalizer and annotations, and the resource's methods.
\<close>

section \<open>Names\<close>

definition IdlingResourceFinalizerName :: string where
  "IdlingResourceFinalizerName = ''idlingresource.finalizers.kidle.kidle.dev''"

definition MetadataIdlingResourceReference :: string where
  "MetadataIdlingResourceReference = ''kidle.kidle.dev/idling-resource-reference''"

definition MetadataPreviousReplicas :: string where
  "MetadataPreviousReplicas = ''kidle.kidle.dev/previous-replicas''"

definition MetadataExpectedState :: string where
  "MetadataExpectedState = ''kidle.kidle.dev/expected-state''"

text \<open>The three annotations are different keys.\<close>

lemma annotation_names_distinct [simp]:
  "MetadataIdlingResourceReference \<noteq> MetadataPreviousReplicas"
  "MetadataPreviousReplicas \<noteq> MetadataIdlingResourceReference"
  "MetadataIdlingResourceReference \<noteq> MetadataExpectedState"
  "MetadataExpectedState \<noteq> MetadataIdlingResourceReference"
  "MetadataPreviousReplicas \<noteq> MetadataExpectedState"
  "MetadataExpectedState \<noteq> MetadataPreviousReplicas"
  by (simp_all add: MetadataIdlingResourceReference_def MetadataPreviousReplicas_def
      MetadataExpectedState_def)

section \<open>The resource\<close>

record CrossVersionObjectReference =
  ref_Kind :: string
  ref_Name :: string
  ref_APIVersion :: string

record CronStrategy =
  cs_Schedule :: string

datatype InactiveStrategy = InactiveStrategy

datatype OnCallStrategy = OnCallStrategy

record IdlingStrategy =
  is_CronStrategy :: "CronStrategy option"
  is_InactiveStrategy :: "InactiveStrategy option"

record WakeupStrategy =
  ws_CronStrategy :: "CronStrategy option"
  ws_OnCallStrategy :: "OnCallStrategy option"

record IdlingResourceSpec =
  spec_IdlingResourceRef :: CrossVersionObjectReference
  spec_Idle :: bool
  spec_IdlingStrategy :: "IdlingStrategy option"
  spec_WakeupStrategy :: "WakeupStrategy option"

datatype IdlingResourceStatus = IdlingResourceStatus

record IdlingResource =
  ir_TypeMeta :: type_meta
  ir_meta :: object_meta
  ir_Spec :: IdlingResourceSpec
  ir_Status :: IdlingResourceStatus

section \<open>Its methods\<close>

definition IsBeingDeleted :: "IdlingResource \<Rightarrow> bool" where
  "IsBeingDeleted ss = meta_deleting (ir_meta ss)"

definition HasFinalizer :: "IdlingResource \<Rightarrow> string \<Rightarrow> bool" where
  "HasFinalizer ss finalizerName = ContainsString (om_Finalizers (ir_meta ss)) finalizerName"

definition AddFinalizer :: "IdlingResource \<Rightarrow> string \<Rightarrow> IdlingResource" where
  "AddFinalizer ss finalizerName =
     ss\<lparr> ir_meta := (ir_meta ss)\<lparr> om_Finalizers := om_Finalizers (ir_meta ss) @ [finalizerName] \<rparr> \<rparr>"

definition RemoveFinalizer :: "IdlingResource \<Rightarrow> string \<Rightarrow> IdlingResource" where
  "RemoveFinalizer ss finalizerName =
     ss\<lparr> ir_meta := (ir_meta ss)\<lparr> om_Finalizers :=
            RemoveString (om_Finalizers (ir_meta ss)) finalizerName \<rparr> \<rparr>"

lemma HasFinalizer_iff [simp]: "HasFinalizer ss f \<longleftrightarrow> f \<in> set (om_Finalizers (ir_meta ss))"
  by (simp add: HasFinalizer_def)

lemma HasFinalizer_AddFinalizer: "HasFinalizer (AddFinalizer ss f) g \<longleftrightarrow> g = f \<or> HasFinalizer ss g"
  by (auto simp: AddFinalizer_def)

lemma HasFinalizer_RemoveFinalizer: "HasFinalizer (RemoveFinalizer ss f) g \<longleftrightarrow> g \<noteq> f \<and> HasFinalizer ss g"
  by (auto simp: RemoveFinalizer_def RemoveString_eq)

lemma RemoveFinalizer_AddFinalizer:
  "\<not> HasFinalizer ss f \<Longrightarrow> RemoveFinalizer (AddFinalizer ss f) f = ss"
  by (cases ss; cases "ir_meta ss") (simp add: AddFinalizer_def RemoveFinalizer_def RemoveString_eq)

end
