(* ===== verification/KubeApi.thy ===== *)
theory KubeApi
  imports IdlingResource
begin

text \<open>
  The services kidle calls and does not contain: the Kubernetes API through controller-runtime's
  client, one \<open>kind_client\<close> per kind of object, and client-go's \<open>retry.RetryOnConflict\<close>. They are
  parameters of the model, over a state \<open>'w\<close> of the world that is left abstract. What their
  documentation promises is stated as predicates (\<open>get_contract\<close>, \<open>update_contract\<close>,
  \<open>create_contract\<close>, \<open>delete_contract\<close>, \<open>retry_contract\<close>) over a view of the world as a
  \<open>cluster\<close>, the objects the API server stores; theorems that rely on one of them name it.

  The base contract allows what the real client does: any call may fail with any error, a read is
  served from a cache and may be stale, and an update is accepted only at the stored resource
  version. It does not cover a call that fails after the server has applied it, nor changes other
  clients make while one call sequence runs; a stale read stands for changes made before it. Theory
  \<open>Interleaving\<close> has a weaker contract that covers both.

  The locale \<open>object_kind\<close> is Go's interface \<open>metav1.Object\<close>, the locale \<open>stored_kind\<close> adds where
  the cluster stores the kind; both are interpreted for each of the seven kinds. Proved in them:
  a \<open>RetryOnConflict\<close> over get, modify, update is atomic (\<open>refetch_update_retry\<close>).
\<close>

section \<open>The metadata interface of objects\<close>

record 'o object_ops =
  getMeta :: "'o \<Rightarrow> object_meta"
  setMeta :: "object_meta \<Rightarrow> 'o \<Rightarrow> 'o"

definition object_key :: "'o object_ops \<Rightarrow> 'o \<Rightarrow> namespaced_name" where
  "object_key ops x = meta_key (getMeta ops x)"

definition resource_version :: "'o object_ops \<Rightarrow> 'o \<Rightarrow> string" where
  "resource_version ops x = om_ResourceVersion (getMeta ops x)"

text \<open>What the server may change of an object it accepts: its version and managed metadata.\<close>

definition stamp :: "'o object_ops \<Rightarrow> string \<Rightarrow> string \<Rightarrow> 'o \<Rightarrow> 'o" where
  "stamp ops v g x = setMeta ops ((getMeta ops x)\<lparr> om_ResourceVersion := v, om_managed := g \<rparr>) x"

text \<open>An object whose deletion was requested is gone once its last finalizer is removed.\<close>

definition persisted :: "'o object_ops \<Rightarrow> 'o \<Rightarrow> 'o option" where
  "persisted ops x =
     (if meta_deleting (getMeta ops x) \<and> om_Finalizers (getMeta ops x) = [] then None else Some x)"

locale object_kind =
  fixes ops :: "'o object_ops"
  assumes get_set: "getMeta ops (setMeta ops m x) = m"
    and set_get: "setMeta ops (getMeta ops x) x = x"
    and set_set: "setMeta ops m (setMeta ops n x) = setMeta ops m x"
begin

lemmas meta_laws [simp] = get_set set_get set_set

lemma getMeta_stamp: "getMeta ops (stamp ops v g x) = (getMeta ops x)\<lparr> om_ResourceVersion := v, om_managed := g \<rparr>"
  by (simp add: stamp_def)

lemma object_key_stamp [simp]: "object_key ops (stamp ops v g x) = object_key ops x"
  by (simp add: object_key_def getMeta_stamp meta_key_def)

lemma resource_version_stamp [simp]: "resource_version ops (stamp ops v g x) = v"
  by (simp add: resource_version_def getMeta_stamp)

lemma annotation_stamp [simp]:
  "annotation (getMeta ops (stamp ops v g x)) a = annotation (getMeta ops x) a"
  by (simp add: getMeta_stamp annotation_def)

lemma stamp_stamp: "stamp ops v g (stamp ops u h x) = stamp ops v g x"
  by (simp add: stamp_def)

lemma persisted_stamp: "persisted ops (stamp ops v g x) = map_option (stamp ops v g) (persisted ops x)"
  by (simp add: persisted_def getMeta_stamp meta_deleting_def)

end

section \<open>The client of a kind\<close>

text \<open>
  \<open>kc_get\<close> fills an object from the cache, \<open>kc_update\<close> and \<open>kc_create\<close> return the object as the
  server answers it, \<open>kc_delete\<close> takes the propagation policy, and \<open>kc_retry\<close> is
  \<open>retry.RetryOnConflict(retry.DefaultRetry, fn)\<close> at the state of a closure that owns one
  object of the kind. On an error the object passed in is left as it was.
\<close>

record ('w, 'o) kind_client =
  kc_get :: "namespaced_name \<Rightarrow> 'w \<Rightarrow> (go_error + 'o) \<times> 'w"
  kc_update :: "'o \<Rightarrow> 'w \<Rightarrow> (go_error + 'o) \<times> 'w"
  kc_create :: "'o \<Rightarrow> 'w \<Rightarrow> (go_error + 'o) \<times> 'w"
  kc_delete :: "'o \<Rightarrow> string \<Rightarrow> 'w \<Rightarrow> go_error option \<times> 'w"
  kc_retry :: "('w \<times> 'o, go_error option) go \<Rightarrow> ('w \<times> 'o, go_error option) go"

text \<open>Calls on the object a function holds in memory.\<close>

definition mem_get :: "('w, 'o) kind_client \<Rightarrow> 'o object_ops \<Rightarrow> ('w \<times> 'o, go_error option) go" where
  "mem_get kc ops = (\<lambda>(w, x).
     case kc_get kc (object_key ops x) w of
       (Inl e, w') \<Rightarrow> (Ret (Some e), (w', x))
     | (Inr y, w') \<Rightarrow> (Ret None, (w', y)))"

definition mem_update :: "('w, 'o) kind_client \<Rightarrow> ('w \<times> 'o, go_error option) go" where
  "mem_update kc = (\<lambda>(w, x).
     case kc_update kc x w of
       (Inl e, w') \<Rightarrow> (Ret (Some e), (w', x))
     | (Inr y, w') \<Rightarrow> (Ret None, (w', y)))"

definition mem_modify :: "('o \<Rightarrow> 'o outcome) \<Rightarrow> ('w \<times> 'o, unit) go" where
  "mem_modify f = (\<lambda>(w, x). case f x of Ret y \<Rightarrow> (Ret (), (w, y)) | Panic p \<Rightarrow> (Panic p, (w, x)))"

text \<open>
  The shape of every closure kidle passes to \<open>RetryOnConflict\<close>: read the object again, change it,
  update it, and return the error of the call that failed.
\<close>

definition refetch_update ::
  "('w, 'o) kind_client \<Rightarrow> 'o object_ops \<Rightarrow> ('o \<Rightarrow> 'o outcome) \<Rightarrow> ('w \<times> 'o, go_error option) go"
  where
  "refetch_update kc ops f =
     go_check (mem_get kc ops)
       (\<lambda>err. go_return (Some err))
       (go_bind (mem_modify f) (\<lambda>_. mem_update kc))"

section \<open>The cluster\<close>

record cluster =
  cl_Deployments :: "namespaced_name \<rightharpoonup> deployment"
  cl_StatefulSets :: "namespaced_name \<rightharpoonup> statefulset"
  cl_CronJobs :: "namespaced_name \<rightharpoonup> cronjob"
  cl_IdlingResources :: "namespaced_name \<rightharpoonup> IdlingResource"
  cl_ServiceAccounts :: "namespaced_name \<rightharpoonup> service_account"
  cl_Roles :: "namespaced_name \<rightharpoonup> role"
  cl_RoleBindings :: "namespaced_name \<rightharpoonup> role_binding"

record 'o kind_store =
  ks_get :: "cluster \<Rightarrow> namespaced_name \<rightharpoonup> 'o"
  ks_map :: "((namespaced_name \<rightharpoonup> 'o) \<Rightarrow> (namespaced_name \<rightharpoonup> 'o)) \<Rightarrow> cluster \<Rightarrow> cluster"

section \<open>What the services promise\<close>

text \<open>
  Reading changes nothing. The object read is some version of the object asked for, one the server
  kept (not a deleted one without finalizers); versions are never reused, so when its version is
  the stored one it is the stored object.
\<close>

definition get_contract ::
  "('w \<Rightarrow> cluster) \<Rightarrow> 'o object_ops \<Rightarrow> 'o kind_store \<Rightarrow> ('w, 'o) kind_client \<Rightarrow> bool"
  where
  "get_contract view ops ks kc \<longleftrightarrow>
     (\<forall>key w r w'. kc_get kc key w = (r, w') \<longrightarrow> view w' = view w \<and>
        (\<forall>x. r = Inr x \<longrightarrow> object_key ops x = key \<and> resource_version ops x \<noteq> '''' \<and>
           persisted ops x = Some x \<and>
           (\<forall>cur. ks_get ks (view w) key = Some cur \<longrightarrow>
                  resource_version ops cur = resource_version ops x \<longrightarrow> cur = x)))"

text \<open>
  A failed update changes nothing. An accepted one is at the stored version (when the object
  carries a version), and stores the object with a new version.
\<close>

definition update_contract ::
  "('w \<Rightarrow> cluster) \<Rightarrow> 'o object_ops \<Rightarrow> 'o kind_store \<Rightarrow> ('w, 'o) kind_client \<Rightarrow> bool"
  where
  "update_contract view ops ks kc \<longleftrightarrow>
     (\<forall>x w r w'. kc_update kc x w = (r, w') \<longrightarrow>
        (\<forall>e. r = Inl e \<longrightarrow> view w' = view w) \<and>
        (\<forall>y. r = Inr y \<longrightarrow>
           (\<exists>v g. y = stamp ops v g x \<and> v \<noteq> '''') \<and>
           (\<exists>cur. ks_get ks (view w) (object_key ops x) = Some cur \<and>
              (resource_version ops x \<noteq> '''' \<longrightarrow> resource_version ops cur = resource_version ops x)) \<and>
           view w' = ks_map ks (\<lambda>m. m(object_key ops x := persisted ops y)) (view w)))"

definition create_contract ::
  "('w \<Rightarrow> cluster) \<Rightarrow> 'o object_ops \<Rightarrow> 'o kind_store \<Rightarrow> ('w, 'o) kind_client \<Rightarrow> bool"
  where
  "create_contract view ops ks kc \<longleftrightarrow>
     (\<forall>x w r w'. kc_create kc x w = (r, w') \<longrightarrow>
        (\<forall>e. r = Inl e \<longrightarrow> view w' = view w) \<and>
        (\<forall>y. r = Inr y \<longrightarrow>
           (\<exists>v g. y = stamp ops v g x \<and> v \<noteq> '''') \<and>
           ks_get ks (view w) (object_key ops x) = None \<and>
           view w' = ks_map ks (\<lambda>m. m(object_key ops x \<mapsto> y)) (view w)))"

text \<open>A deleted object is gone, or terminating while it has finalizers.\<close>

definition terminating :: "'o object_ops \<Rightarrow> nat \<Rightarrow> 'o \<Rightarrow> 'o" where
  "terminating ops t x = setMeta ops ((getMeta ops x)\<lparr> om_DeletionTimestamp := Some (Suc t) \<rparr>) x"

definition delete_contract ::
  "('w \<Rightarrow> cluster) \<Rightarrow> 'o object_ops \<Rightarrow> 'o kind_store \<Rightarrow> ('w, 'o) kind_client \<Rightarrow> bool"
  where
  "delete_contract view ops ks kc \<longleftrightarrow>
     (\<forall>x policy w r w'. kc_delete kc x policy w = (r, w') \<longrightarrow>
        (\<forall>e. r = Some e \<longrightarrow> view w' = view w \<and>
           (IsNotFound e \<longrightarrow> ks_get ks (view w) (object_key ops x) = None)) \<and>
        (r = None \<longrightarrow> (\<exists>cur t v g. ks_get ks (view w) (object_key ops x) = Some cur \<and>
           view w' = ks_map ks (\<lambda>m. m(object_key ops x :=
              (if om_Finalizers (getMeta ops cur) = [] then None
               else Some (stamp ops v g (terminating ops t cur))))) (view w))))"

text \<open>
  \<open>RetryOnConflict\<close> calls the closure; it returns what the closure returns, except that after a
  conflict it may call the closure again, from the state the last call left. After which number
  of conflicts it gives up is not fixed here.
\<close>

inductive retry_run :: "('s, go_error option) go \<Rightarrow> 's \<Rightarrow> go_error option outcome \<Rightarrow> 's \<Rightarrow> bool"
  for fn where
  success: "fn s = (Ret None, t) \<Longrightarrow> retry_run fn s (Ret None) t"
| panicked: "fn s = (Panic p, t) \<Longrightarrow> retry_run fn s (Panic p) t"
| gave_up: "fn s = (Ret (Some e), t) \<Longrightarrow> retry_run fn s (Ret (Some e)) t"
| again: "fn s = (Ret (Some e), t) \<Longrightarrow> IsConflict e \<Longrightarrow> retry_run fn t r u \<Longrightarrow> retry_run fn s r u"

inductive_cases retry_runE: "retry_run fn s r t"

definition retry_contract :: "('w, 'o) kind_client \<Rightarrow> bool" where
  "retry_contract kc \<longleftrightarrow> (\<forall>fn s r t. kc_retry kc fn s = (r, t) \<longrightarrow> retry_run fn s r t)"

definition kind_contract ::
  "('w \<Rightarrow> cluster) \<Rightarrow> 'o object_ops \<Rightarrow> 'o kind_store \<Rightarrow> ('w, 'o) kind_client \<Rightarrow> bool"
  where
  "kind_contract view ops ks kc \<longleftrightarrow>
     get_contract view ops ks kc \<and> update_contract view ops ks kc \<and>
     create_contract view ops ks kc \<and> delete_contract view ops ks kc \<and> retry_contract kc"

text \<open>Reads that are not stale.\<close>

definition coherent ::
  "('w \<Rightarrow> cluster) \<Rightarrow> 'o kind_store \<Rightarrow> ('w, 'o) kind_client \<Rightarrow> bool"
  where
  "coherent view ks kc \<longleftrightarrow>
     (\<forall>key w r w'. kc_get kc key w = (r, w') \<longrightarrow>
        (\<forall>x. r = Inr x \<longrightarrow> ks_get ks (view w) key = Some x) \<and>
        (r = Inl (ApiError NotFound) \<longrightarrow> ks_get ks (view w) key = None))"

text \<open>Calls that fail only for a reason the stored state gives.\<close>

definition available ::
  "('w \<Rightarrow> cluster) \<Rightarrow> 'o object_ops \<Rightarrow> 'o kind_store \<Rightarrow> ('w, 'o) kind_client \<Rightarrow> bool"
  where
  "available view ops ks kc \<longleftrightarrow>
     (\<forall>key w. case ks_get ks (view w) key of
          None \<Rightarrow> fst (kc_get kc key w) = Inl (ApiError NotFound)
        | Some x \<Rightarrow> fst (kc_get kc key w) = Inr x) \<and>
     (\<forall>x w cur. ks_get ks (view w) (object_key ops x) = Some cur \<longrightarrow>
          resource_version ops cur = resource_version ops x \<longrightarrow>
          (\<exists>y. fst (kc_update kc x w) = Inr y)) \<and>
     (\<forall>x w. ks_get ks (view w) (object_key ops x) = None \<longrightarrow> \<not> meta_deleting (getMeta ops x) \<longrightarrow>
          (\<exists>y. fst (kc_create kc x w) = Inr y)) \<and>
     (\<forall>x p w. ks_get ks (view w) (object_key ops x) \<noteq> None \<longrightarrow> fst (kc_delete kc x p w) = None)"

lemma available_getD:
  assumes "available view ops ks kc" "kc_get kc key w = (r, w')"
  shows "r = (case ks_get ks (view w) key of None \<Rightarrow> Inl (ApiError NotFound) | Some x \<Rightarrow> Inr x)"
proof -
  have "case ks_get ks (view w) key of None \<Rightarrow> r = Inl (ApiError NotFound) | Some x \<Rightarrow> r = Inr x"
    using assms unfolding available_def by (metis fst_conv)
  then show ?thesis by (auto split: option.splits)
qed

lemma available_coherent: "available view ops ks kc \<Longrightarrow> coherent view ks kc"
  unfolding coherent_def by (auto dest: available_getD split: option.splits)

lemma available_reads:
  "available view ops ks kc \<Longrightarrow> kc_get kc key w = (Inl e, w') \<Longrightarrow> IsNotFound e"
  by (auto dest!: available_getD split: option.splits)

text \<open>A call that cannot fail.\<close>

lemma available_update:
  assumes "available view ops ks kc" "ks_get ks (view w) (object_key ops x) = Some cur"
    and "resource_version ops cur = resource_version ops x"
  obtains y w' where "kc_update kc x w = (Inr y, w')"
  using assms unfolding available_def by (metis prod.collapse)

lemma available_create:
  assumes "available view ops ks kc" "ks_get ks (view w) (object_key ops x) = None"
    and "\<not> meta_deleting (getMeta ops x)"
  obtains y w' where "kc_create kc x w = (Inr y, w')"
  using assms unfolding available_def by (metis prod.collapse)

lemma available_delete:
  assumes "available view ops ks kc" "ks_get ks (view w) (object_key ops x) \<noteq> None"
  obtains w' where "kc_delete kc x policy w = (None, w')"
  using assms unfolding available_def by (metis prod.collapse)

end
