(* ===== verification/Kinds.thy ===== *)
theory Kinds
  imports KubeApi
begin

text \<open>
  The seven kinds of object: their metadata accessors, where the cluster stores them, and the
  locale \<open>stored_kind\<close> with what the contracts of \<open>KubeApi\<close> give for any of them. Its main lemma,
  \<open>refetch_update_retry\<close>, says that a \<open>RetryOnConflict\<close> around get, modify, update that returns
  nil has applied the modification once, to the object the server stored, however stale the reads
  were; and that it has changed nothing when it returns an error.
\<close>

section \<open>A kind with its store\<close>

locale stored_kind = object_kind ops for ops :: "'o object_ops" +
  fixes ks :: "'o kind_store"
  assumes ks_get_map: "ks_get ks (ks_map ks f c) = f (ks_get ks c)"
    and ks_map_id: "ks_map ks (\<lambda>m. m) c = c"
    and ks_map_map: "ks_map ks f (ks_map ks g c) = ks_map ks (\<lambda>m. f (g m)) c"
begin

lemmas store_laws [simp] = ks_get_map ks_map_id ks_map_map

lemma get_contractD:
  assumes "get_contract view ops ks kc" "kc_get kc key w = (r, w')"
  shows "view w' = view w"
    and "r = Inr x \<Longrightarrow> object_key ops x = key"
    and "r = Inr x \<Longrightarrow> resource_version ops x \<noteq> ''''"
    and "r = Inr x \<Longrightarrow> persisted ops x = Some x"
    and "r = Inr x \<Longrightarrow> ks_get ks (view w) key = Some cur \<Longrightarrow>
           resource_version ops cur = resource_version ops x \<Longrightarrow> cur = x"
  using assms unfolding get_contract_def by blast+

lemma update_contractD:
  assumes "update_contract view ops ks kc" "kc_update kc x w = (r, w')"
  shows "r = Inl e \<Longrightarrow> view w' = view w"
    and "r = Inr y \<Longrightarrow> \<exists>v g. y = stamp ops v g x \<and> v \<noteq> ''''"
    and "r = Inr y \<Longrightarrow> \<exists>cur. ks_get ks (view w) (object_key ops x) = Some cur \<and>
           (resource_version ops x \<noteq> '''' \<longrightarrow> resource_version ops cur = resource_version ops x)"
    and "r = Inr y \<Longrightarrow> view w' = ks_map ks (\<lambda>m. m(object_key ops x := persisted ops y)) (view w)"
  using assms unfolding update_contract_def by blast+

lemma create_contractD:
  assumes "create_contract view ops ks kc" "kc_create kc x w = (Inr y, w')"
  shows "\<exists>v g. y = stamp ops v g x" "ks_get ks (view w) (object_key ops x) = None"
    and "view w' = ks_map ks (\<lambda>m. m(object_key ops x \<mapsto> y)) (view w)"
  using assms unfolding create_contract_def by blast+

lemma delete_contractD:
  assumes "delete_contract view ops ks kc" "kc_delete kc x policy w = (r, w')"
  shows "r = Some e \<Longrightarrow> view w' = view w"
    and "r = Some e \<Longrightarrow> IsNotFound e \<Longrightarrow> ks_get ks (view w) (object_key ops x) = None"
    and "r = None \<Longrightarrow> \<exists>cur t v g. ks_get ks (view w) (object_key ops x) = Some cur \<and>
           view w' = ks_map ks (\<lambda>m. m(object_key ops x :=
              (if om_Finalizers (getMeta ops cur) = [] then None
               else Some (stamp ops v g (terminating ops t cur))))) (view w)"
  using assms unfolding delete_contract_def by blast+

lemma coherentD:
  assumes "coherent view ks kc" "kc_get kc key w = (r, w')"
  shows "r = Inr x \<Longrightarrow> ks_get ks (view w) key = Some x"
    and "r = Inl (ApiError NotFound) \<Longrightarrow> ks_get ks (view w) key = None"
  using assms unfolding coherent_def by blast+

text \<open>One call of the closure: every way it can end.\<close>

lemma refetch_update_cases:
  assumes contract: "get_contract view ops ks kc" "update_contract view ops ks kc"
    and keeps: "\<And>cur y. f cur = Ret y \<Longrightarrow>
           object_key ops y = object_key ops cur \<and> resource_version ops y = resource_version ops cur"
    and run: "refetch_update kc ops f (w, x) = (r, (w', x'))"
  shows "object_key ops x' = object_key ops x \<and>
     (if r = Ret None
      then \<exists>cur y v g. ks_get ks (view w) (object_key ops x) = Some cur \<and> f cur = Ret y \<and>
             x' = stamp ops v g y \<and> v \<noteq> '''' \<and>
             view w' = ks_map ks (\<lambda>m. m(object_key ops x := persisted ops x')) (view w)
      else view w' = view w)"
proof -
  obtain g1 w1 where get: "kc_get kc (object_key ops x) w = (g1, w1)" by fastforce
  note g = get_contractD [OF contract(1) get]
  show ?thesis
  proof (cases g1)
    case (Inl e)
    with run get g(1) show ?thesis by (auto simp: refetch_update_def mem_get_def go_check_def go_bind_def)
  next
    case (Inr cur)
    have key: "object_key ops cur = object_key ops x" using g(2) Inr .
    show ?thesis
    proof (cases "f cur")
      case (Panic p)
      with run get Inr g(1) key show ?thesis
        by (auto simp: refetch_update_def mem_get_def mem_modify_def go_check_def go_bind_def)
    next
      case (Ret y)
      note y = keeps [OF Ret]
      obtain u1 w2 where upd: "kc_update kc y w1 = (u1, w2)" by fastforce
      note u = update_contractD [OF contract(2) upd]
      show ?thesis
      proof (cases u1)
        case (Inl e)
        with run get Inr Ret upd g(1) u(1) y key show ?thesis
          by (auto simp: refetch_update_def mem_get_def mem_modify_def mem_update_def go_check_def go_bind_def)
      next
        case (Inr z)
        obtain v h where z: "z = stamp ops v h y" "v \<noteq> ''''" using u(2) [OF Inr] by blast
        obtain old where old: "ks_get ks (view w) (object_key ops x) = Some old"
            "resource_version ops old = resource_version ops cur"
          using u(3) [OF Inr] y key g(1,3) \<open>g1 = Inr cur\<close> by auto
        then have "old = cur" using g(5) \<open>g1 = Inr cur\<close> by blast
        moreover have "r = Ret None" "w' = w2" "x' = z"
          using run get \<open>g1 = Inr cur\<close> Ret upd Inr
          by (auto simp: refetch_update_def mem_get_def mem_modify_def mem_update_def go_check_def go_bind_def)
        ultimately show ?thesis
          using z old Ret u(4) [OF Inr] y key g(1) by auto
      qed
    qed
  qed
qed

text \<open>Any number of calls.\<close>

lemma refetch_update_run:
  assumes "retry_run (refetch_update kc ops f) s r t"
    and contract: "get_contract view ops ks kc" "update_contract view ops ks kc"
    and keeps: "\<And>cur y. f cur = Ret y \<Longrightarrow>
           object_key ops y = object_key ops cur \<and> resource_version ops y = resource_version ops cur"
  shows "object_key ops (snd t) = object_key ops (snd s) \<and>
     (if r = Ret None
      then \<exists>cur y v g. ks_get ks (view (fst s)) (object_key ops (snd s)) = Some cur \<and> f cur = Ret y \<and>
             snd t = stamp ops v g y \<and> v \<noteq> '''' \<and>
             view (fst t) = ks_map ks (\<lambda>m. m(object_key ops (snd s) := persisted ops (snd t))) (view (fst s))
      else view (fst t) = view (fst s))"
  using assms(1)
proof (induction rule: retry_run.induct)
  case (success s t)
  then show ?case
    using refetch_update_cases [OF contract keeps, of f "fst s" "snd s" "Ret None" "fst t" "snd t"] by simp
next
  case (panicked s p t)
  then show ?case
    using refetch_update_cases [OF contract keeps, of f "fst s" "snd s" "Panic p" "fst t" "snd t"] by simp
next
  case (gave_up s e t)
  then show ?case
    using refetch_update_cases [OF contract keeps, of f "fst s" "snd s" "Ret (Some e)" "fst t" "snd t"] by simp
next
  case (again s e t r u)
  then have same: "object_key ops (snd t) = object_key ops (snd s)" "view (fst t) = view (fst s)"
    using refetch_update_cases [OF contract keeps, of f "fst s" "snd s" "Ret (Some e)" "fst t" "snd t"]
    by simp_all
  show ?case using again.IH unfolding same .
qed

lemma refetch_update_retry:
  assumes "kind_contract view ops ks kc"
    and "\<And>cur y. f cur = Ret y \<Longrightarrow>
           object_key ops y = object_key ops cur \<and> resource_version ops y = resource_version ops cur"
    and "kc_retry kc (refetch_update kc ops f) (w, x) = (r, (w', x'))"
  shows "object_key ops x' = object_key ops x \<and>
     (if r = Ret None
      then \<exists>cur y v g. ks_get ks (view w) (object_key ops x) = Some cur \<and> f cur = Ret y \<and>
             x' = stamp ops v g y \<and> v \<noteq> '''' \<and>
             view w' = ks_map ks (\<lambda>m. m(object_key ops x := persisted ops x')) (view w)
      else view w' = view w)"
proof -
  have "retry_run (refetch_update kc ops f) (w, x) r (w', x')"
    using assms(1,3) unfolding kind_contract_def retry_contract_def by blast
  from refetch_update_run [OF this _ _ assms(2)] assms(1) show ?thesis
    unfolding kind_contract_def by auto
qed

text \<open>
  With fresh reads and an available server the first call succeeds, when the modification does.
\<close>

lemma refetch_update_available:
  assumes contract: "kind_contract view ops ks kc" and av: "available view ops ks kc"
    and keeps: "\<And>cur y. f cur = Ret y \<Longrightarrow>
           object_key ops y = object_key ops cur \<and> resource_version ops y = resource_version ops cur"
    and cur: "ks_get ks (view w) (object_key ops x) = Some cur" and f: "f cur = Ret y"
  obtains w' x' where "kc_retry kc (refetch_update kc ops f) (w, x) = (Ret None, (w', x'))"
proof -
  obtain w1 where get: "kc_get kc (object_key ops x) w = (Inr cur, w1)"
    using av cur unfolding available_def by (metis (mono_tags, lifting) option.simps(5) prod.collapse)
  have gc: "get_contract view ops ks kc" using contract by (simp add: kind_contract_def)
  have v1: "view w1 = view w" and key: "object_key ops cur = object_key ops x"
    using get_contractD(1,2) [OF gc get] by auto
  have "ks_get ks (view w1) (object_key ops y) = Some cur" "resource_version ops cur = resource_version ops y"
    using keeps [OF f] key cur v1 by simp_all
  then obtain z where "fst (kc_update kc y w1) = Inr z" using av unfolding available_def by blast
  then obtain w2 where upd: "kc_update kc y w1 = (Inr z, w2)" by (metis prod.collapse)
  have one: "refetch_update kc ops f (w, x) = (Ret None, (w2, z))"
    using get f upd
    by (simp add: refetch_update_def mem_get_def mem_modify_def mem_update_def go_check_def go_bind_def)
  obtain r t where run: "kc_retry kc (refetch_update kc ops f) (w, x) = (r, t)"
    by (metis prod.collapse)
  then have "retry_run (refetch_update kc ops f) (w, x) r t"
    using contract unfolding kind_contract_def retry_contract_def by blast
  then have "r = Ret None \<and> t = (w2, z)"
    using one by (auto elim: retry_runE)
  with run that show ?thesis by blast
qed

end

section \<open>The seven kinds\<close>

definition Deployments :: "deployment object_ops" where
  "Deployments = \<lparr> getMeta = d_meta, setMeta = \<lambda>m x. x\<lparr> d_meta := m \<rparr> \<rparr>"

definition StatefulSets :: "statefulset object_ops" where
  "StatefulSets = \<lparr> getMeta = s_meta, setMeta = \<lambda>m x. x\<lparr> s_meta := m \<rparr> \<rparr>"

definition CronJobs :: "cronjob object_ops" where
  "CronJobs = \<lparr> getMeta = cj_meta, setMeta = \<lambda>m x. x\<lparr> cj_meta := m \<rparr> \<rparr>"

definition IdlingResources :: "IdlingResource object_ops" where
  "IdlingResources = \<lparr> getMeta = ir_meta, setMeta = \<lambda>m x. x\<lparr> ir_meta := m \<rparr> \<rparr>"

definition ServiceAccounts :: "service_account object_ops" where
  "ServiceAccounts = \<lparr> getMeta = sa_meta, setMeta = \<lambda>m x. x\<lparr> sa_meta := m \<rparr> \<rparr>"

definition Roles :: "role object_ops" where
  "Roles = \<lparr> getMeta = r_meta, setMeta = \<lambda>m x. x\<lparr> r_meta := m \<rparr> \<rparr>"

definition RoleBindings :: "role_binding object_ops" where
  "RoleBindings = \<lparr> getMeta = rb_meta, setMeta = \<lambda>m x. x\<lparr> rb_meta := m \<rparr> \<rparr>"

definition DeploymentStore :: "deployment kind_store" where
  "DeploymentStore = \<lparr> ks_get = cl_Deployments, ks_map = cl_Deployments_update \<rparr>"

definition StatefulSetStore :: "statefulset kind_store" where
  "StatefulSetStore = \<lparr> ks_get = cl_StatefulSets, ks_map = cl_StatefulSets_update \<rparr>"

definition CronJobStore :: "cronjob kind_store" where
  "CronJobStore = \<lparr> ks_get = cl_CronJobs, ks_map = cl_CronJobs_update \<rparr>"

definition IdlingResourceStore :: "IdlingResource kind_store" where
  "IdlingResourceStore = \<lparr> ks_get = cl_IdlingResources, ks_map = cl_IdlingResources_update \<rparr>"

definition ServiceAccountStore :: "service_account kind_store" where
  "ServiceAccountStore = \<lparr> ks_get = cl_ServiceAccounts, ks_map = cl_ServiceAccounts_update \<rparr>"

definition RoleStore :: "role kind_store" where
  "RoleStore = \<lparr> ks_get = cl_Roles, ks_map = cl_Roles_update \<rparr>"

definition RoleBindingStore :: "role_binding kind_store" where
  "RoleBindingStore = \<lparr> ks_get = cl_RoleBindings, ks_map = cl_RoleBindings_update \<rparr>"

lemmas ops_defs = Deployments_def StatefulSets_def CronJobs_def IdlingResources_def
  ServiceAccounts_def Roles_def RoleBindings_def

lemmas store_defs = DeploymentStore_def StatefulSetStore_def CronJobStore_def IdlingResourceStore_def
  ServiceAccountStore_def RoleStore_def RoleBindingStore_def

interpretation dk: stored_kind Deployments DeploymentStore
  by unfold_locales (simp_all add: ops_defs store_defs comp_def)

interpretation sk: stored_kind StatefulSets StatefulSetStore
  by unfold_locales (simp_all add: ops_defs store_defs comp_def)

interpretation ck: stored_kind CronJobs CronJobStore
  by unfold_locales (simp_all add: ops_defs store_defs comp_def)

interpretation ik: stored_kind IdlingResources IdlingResourceStore
  by unfold_locales (simp_all add: ops_defs store_defs comp_def)

interpretation ak: stored_kind ServiceAccounts ServiceAccountStore
  by unfold_locales (simp_all add: ops_defs store_defs comp_def)

interpretation rk: stored_kind Roles RoleStore
  by unfold_locales (simp_all add: ops_defs store_defs comp_def)

interpretation bk: stored_kind RoleBindings RoleBindingStore
  by unfold_locales (simp_all add: ops_defs store_defs comp_def)

end
