(* ===== verification/Idler.thy ===== *)
theory Idler
  imports Kinds
begin

text \<open>
  \<open>src/pkg/controllers/idler/idler.go\<close>: the interface \<open>Idler\<close> that the reconciler calls, and
  \<open>ObjectIdler\<close>, the part its three implementations share, which keeps kidle's annotations on the
  workload. The workload the idler points to is the object in memory; \<open>Object\<close> and
  \<open>RuntimeObject\<close> are two views of that one object, so a re-read through one is seen by the other.

  The locale \<open>idler_contract\<close> is the contract of the interface. Its abstraction is the \<open>level\<close> of a
  workload, the number of replicas of a Deployment or a StatefulSet, and 0 or 1 for a CronJob that
  is suspended or not: \<open>Idle\<close> takes the level to 0 and \<open>Wakeup\<close> to the \<open>prior_level\<close> that
  \<open>Idle\<close> recorded. The three implementations interpret it in their own theories.
\<close>

section \<open>The interface\<close>

record ('w, 'o) idler =
  SetReference :: "string \<Rightarrow> ('w \<times> 'o, go_error option) go"
  RemoveAnnotations :: "('w \<times> 'o, go_error option) go"
  NeedIdle :: "IdlingResource \<Rightarrow> 'o \<Rightarrow> bool outcome"
  NeedWakeup :: "IdlingResource \<Rightarrow> 'o \<Rightarrow> bool outcome"
  Idle :: "('w \<times> 'o, go_error option) go"
  Wakeup :: "('w \<times> 'o, go_error + int32 option) go"

section \<open>ObjectIdler\<close>

text \<open>
  The struct: the client and how the object in memory is read as a \<open>metav1.Object\<close>. The object itself
  is part of the state, as the idler that embeds the struct points to the same one; the two type
  assertions of \<open>NewObjectIdler\<close> hold for each of the three kinds.
\<close>

record ('w, 'o) ObjectIdler =
  oi_Client :: "('w, 'o) kind_client"
  oi_Object :: "'o object_ops"

definition NewObjectIdler :: "('w, 'o) kind_client \<Rightarrow> 'o object_ops \<Rightarrow> ('w, 'o) ObjectIdler" where
  "NewObjectIdler k8sClient obj = \<lparr> oi_Client = k8sClient, oi_Object = obj \<rparr>"

lemma NewObjectIdler_simps [simp]:
  "oi_Client (NewObjectIdler k8sClient obj) = k8sClient" "oi_Object (NewObjectIdler k8sClient obj) = obj"
  by (simp_all add: NewObjectIdler_def)

text \<open>The changes the two closures make to the object.\<close>

definition with_reference :: "'o object_ops \<Rightarrow> string \<Rightarrow> 'o \<Rightarrow> 'o" where
  "with_reference ops instanceName x =
     setMeta ops (AddAnnotation (getMeta ops x) MetadataIdlingResourceReference instanceName) x"

definition without_annotations :: "'o object_ops \<Rightarrow> 'o \<Rightarrow> 'o" where
  "without_annotations ops x =
     (let m1 = RemoveAnnotation (getMeta ops x) MetadataIdlingResourceReference;
          m2 = RemoveAnnotation m1 MetadataPreviousReplicas;
          m3 = RemoveAnnotation m2 MetadataExpectedState
      in setMeta ops m3 x)"

definition ObjectIdler_SetReference ::
  "('w, 'o) ObjectIdler \<Rightarrow> string \<Rightarrow> ('w \<times> 'o, go_error option) go"
  where
  "ObjectIdler_SetReference oi instanceName = (\<lambda>(w, x).
     if \<not> HasAnnotation (getMeta (oi_Object oi) x) MetadataIdlingResourceReference
     then go_check (kc_retry (oi_Client oi)
              (refetch_update (oi_Client oi) (oi_Object oi) (\<lambda>obj. Ret (with_reference (oi_Object oi) instanceName obj))))
            (\<lambda>err. go_return (Some err))
            (go_return None) (w, x)
     else go_return None (w, x))"

definition ObjectIdler_RemoveAnnotations ::
  "('w, 'o) ObjectIdler \<Rightarrow> ('w \<times> 'o, go_error option) go"
  where
  "ObjectIdler_RemoveAnnotations oi = (\<lambda>(w, x).
     if HasAnnotation (getMeta (oi_Object oi) x) MetadataIdlingResourceReference \<or>
        HasAnnotation (getMeta (oi_Object oi) x) MetadataPreviousReplicas
     then go_check (kc_retry (oi_Client oi)
              (refetch_update (oi_Client oi) (oi_Object oi) (\<lambda>obj. Ret (without_annotations (oi_Object oi) obj))))
            (\<lambda>err. go_return (Some err))
            (go_return None) (w, x)
     else go_return None (w, x))"

lemma go_check_return_error [simp]:
  "go_check m (\<lambda>err. go_return (Some err)) (go_return None) = m"
  by (rule ext) (auto simp: go_check_def go_bind_def go_return_def split: prod.splits outcome.splits option.splits)

text \<open>
  A call of an idler that leaves the world and the object in memory alone, or as one
  \<open>RetryOnConflict\<close> around get, modify, update leaves them; \<open>F x\<close> are the modifications it may make
  when \<open>x\<close> is the object in memory before.
\<close>

definition retries ::
  "('w, 'o) kind_client \<Rightarrow> 'o object_ops \<Rightarrow> ('o \<Rightarrow> ('o \<Rightarrow> 'o outcome) set) \<Rightarrow> ('w \<times> 'o, 'a) go \<Rightarrow> bool"
  where
  "retries kc ops F m \<longleftrightarrow> (\<forall>w x. snd (m (w, x)) = (w, x) \<or>
     (\<exists>f \<in> F x. snd (m (w, x)) = snd (kc_retry kc (refetch_update kc ops f) (w, x))))"

lemma go_check_state: "snd (go_check c (\<lambda>e. go_return (h e)) (go_return j) s) = snd (c s)"
  by (auto simp: go_check_def go_bind_def split: prod.splits outcome.splits option.splits)

lemma retriesI:
  assumes "\<And>w x. snd (m (w, x)) = (w, x) \<or>
      (\<exists>f \<in> F x. snd (m (w, x)) = snd (kc_retry kc (refetch_update kc ops f) (w, x)))"
  shows "retries kc ops F m"
  unfolding retries_def using assms by blast

lemma ObjectIdler_SetReference_retries:
  "retries kc ops (\<lambda>_. {\<lambda>obj. Ret (with_reference ops i obj)}) (ObjectIdler_SetReference (NewObjectIdler kc ops) i)"
  by (auto simp: retries_def ObjectIdler_SetReference_def)

lemma ObjectIdler_RemoveAnnotations_retries:
  "retries kc ops (\<lambda>_. {\<lambda>obj. Ret (without_annotations ops obj)}) (ObjectIdler_RemoveAnnotations (NewObjectIdler kc ops))"
  by (auto simp: retries_def ObjectIdler_RemoveAnnotations_def)

text \<open>kidle's three annotations, read through the metadata interface.\<close>

abbreviation reference_of :: "'o object_ops \<Rightarrow> 'o \<Rightarrow> string option" where
  "reference_of ops x \<equiv> annotation (getMeta ops x) MetadataIdlingResourceReference"

abbreviation previous_of :: "'o object_ops \<Rightarrow> 'o \<Rightarrow> string option" where
  "previous_of ops x \<equiv> annotation (getMeta ops x) MetadataPreviousReplicas"

abbreviation expected_of :: "'o object_ops \<Rightarrow> 'o \<Rightarrow> string option" where
  "expected_of ops x \<equiv> annotation (getMeta ops x) MetadataExpectedState"

context object_kind
begin

lemma with_reference_simps [simp]:
  "object_key ops (with_reference ops i x) = object_key ops x"
  "resource_version ops (with_reference ops i x) = resource_version ops x"
  "reference_of ops (with_reference ops i x) = Some i"
  "previous_of ops (with_reference ops i x) = previous_of ops x"
  "expected_of ops (with_reference ops i x) = expected_of ops x"
  by (simp_all add: with_reference_def object_key_def resource_version_def)

lemma without_annotations_simps [simp]:
  "object_key ops (without_annotations ops x) = object_key ops x"
  "resource_version ops (without_annotations ops x) = resource_version ops x"
  "reference_of ops (without_annotations ops x) = None"
  "previous_of ops (without_annotations ops x) = None"
  "expected_of ops (without_annotations ops x) = None"
  by (simp_all add: without_annotations_def object_key_def resource_version_def Let_def)

end

text \<open>A step that leaves the object's identity alone, the premise of \<open>refetch_update_retry\<close>.\<close>

definition keeps_identity :: "'o object_ops \<Rightarrow> ('o \<Rightarrow> 'o outcome) \<Rightarrow> bool" where
  "keeps_identity ops f \<longleftrightarrow> (\<forall>x y. f x = Ret y \<longrightarrow>
     object_key ops y = object_key ops x \<and> resource_version ops y = resource_version ops x)"

text \<open>
  What a call sequence that owns one workload may have done when it returns: nothing, or one
  accepted write of the workload. \<open>wrote\<close> is the second, in terms of the stored object it replaced.
\<close>

definition wrote ::
  "('w \<Rightarrow> cluster) \<Rightarrow> 'o object_ops \<Rightarrow> 'o kind_store \<Rightarrow> ('o \<Rightarrow> 'o) \<Rightarrow> 'w \<times> 'o \<Rightarrow> 'w \<times> 'o \<Rightarrow> bool"
  where
  "wrote view ops ks f s t \<longleftrightarrow>
     (\<exists>cur v g. ks_get ks (view (fst s)) (object_key ops (snd s)) = Some cur \<and>
        snd t = stamp ops v g (f cur) \<and> v \<noteq> '''' \<and>
        object_key ops (snd t) = object_key ops (snd s) \<and>
        view (fst t) = ks_map ks (\<lambda>m. m(object_key ops (snd s) := persisted ops (snd t))) (view (fst s)))"

definition untouched :: "('w \<Rightarrow> cluster) \<Rightarrow> 'o object_ops \<Rightarrow> 'w \<times> 'o \<Rightarrow> 'w \<times> 'o \<Rightarrow> bool" where
  "untouched view ops s t \<longleftrightarrow>
     view (fst t) = view (fst s) \<and> object_key ops (snd t) = object_key ops (snd s)"

context stored_kind
begin

lemma retry_wrote:
  assumes "kind_contract view ops ks kc" "keeps_identity ops f"
    and "kc_retry kc (refetch_update kc ops f) s = (r, t)"
    and "\<And>x y. f x = Ret y \<Longrightarrow> y = h x"
  shows "if r = Ret None then wrote view ops ks h s t else untouched view ops s t"
proof -
  obtain w x w' x' where st: "s = (w, x)" "t = (w', x')" by (metis prod.collapse)
  have "object_key ops x' = object_key ops x \<and>
     (if r = Ret None
      then \<exists>cur y v g. ks_get ks (view w) (object_key ops x) = Some cur \<and> f cur = Ret y \<and>
             x' = stamp ops v g y \<and> v \<noteq> '''' \<and>
             view w' = ks_map ks (\<lambda>m. m(object_key ops x := persisted ops x')) (view w)
      else view w' = view w)"
    using assms(1) assms(2)[unfolded keeps_identity_def, rule_format] assms(3)[unfolded st]
    by (rule refetch_update_retry)
  then show ?thesis
    using assms(4) unfolding st wrote_def untouched_def by (auto split: if_splits) (metis)
qed

lemma retry_wrote_Ret:
  assumes "kind_contract view ops ks kc" "keeps_identity ops (\<lambda>obj. Ret (h obj))"
    and "kc_retry kc (refetch_update kc ops (\<lambda>obj. Ret (h obj))) s = (r, t)"
  shows "if r = Ret None then wrote view ops ks h s t else untouched view ops s t"
  using assms by (rule retry_wrote) simp

text \<open>\<open>SetReference\<close> writes at most once, the first reference wins, and an error wrote nothing.\<close>

lemma ObjectIdler_SetReference_run:
  assumes "kind_contract view ops ks kc"
    and "ObjectIdler_SetReference (NewObjectIdler kc ops) i s = (r, t)"
  shows "if reference_of ops (snd s) \<noteq> None then r = Ret None \<and> t = s
         else if r = Ret None then wrote view ops ks (with_reference ops i) s t
         else untouched view ops s t"
proof (cases "reference_of ops (snd s)")
  case None
  then have "kc_retry kc (refetch_update kc ops (\<lambda>obj. Ret (with_reference ops i obj))) s = (r, t)"
    using assms(2) by (cases s) (simp add: ObjectIdler_SetReference_def HasAnnotation_iff)
  from retry_wrote_Ret [OF assms(1) _ this] None show ?thesis
    by (simp add: keeps_identity_def)
next
  case (Some a)
  then show ?thesis
    using assms(2) by (cases s) (auto simp: ObjectIdler_SetReference_def HasAnnotation_iff)
qed

lemma ObjectIdler_RemoveAnnotations_run:
  assumes "kind_contract view ops ks kc"
    and "ObjectIdler_RemoveAnnotations (NewObjectIdler kc ops) s = (r, t)"
  shows "if reference_of ops (snd s) = None \<and> previous_of ops (snd s) = None then r = Ret None \<and> t = s
         else if r = Ret None then wrote view ops ks (without_annotations ops) s t
         else untouched view ops s t"
proof (cases "reference_of ops (snd s) = None \<and> previous_of ops (snd s) = None")
  case False
  then have "kc_retry kc (refetch_update kc ops (\<lambda>obj. Ret (without_annotations ops obj))) s = (r, t)"
    using assms(2) by (cases s) (auto simp: ObjectIdler_RemoveAnnotations_def HasAnnotation_iff)
  from retry_wrote_Ret [OF assms(1) _ this] False show ?thesis
    by (auto simp: keeps_identity_def)
next
  case True
  then show ?thesis
    using assms(2) by (cases s) (auto simp: ObjectIdler_RemoveAnnotations_def HasAnnotation_iff)
qed

end

section \<open>The contract of an idler\<close>

text \<open>The metadata without its annotations: what every step of an idler keeps.\<close>

definition unannotated :: "object_meta \<Rightarrow> object_meta" where
  "unannotated m = m\<lparr> om_Annotations := None \<rparr>"

lemma unannotated_AddAnnotation [simp]: "unannotated (AddAnnotation m a v) = unannotated m"
  by (simp add: unannotated_def AddAnnotation_def Let_def)

lemma unannotated_RemoveAnnotation [simp]: "unannotated (RemoveAnnotation m a) = unannotated m"
  by (simp add: unannotated_def RemoveAnnotation_def)

lemma unannotated_eqD:
  assumes "unannotated m = unannotated n"
  shows "meta_key m = meta_key n" "om_ResourceVersion m = om_ResourceVersion n"
    "om_Finalizers m = om_Finalizers n" "om_DeletionTimestamp m = om_DeletionTimestamp n"
    "meta_deleting m = meta_deleting n" "om_rest m = om_rest n"
proof -
  have eqs: "om_Namespace m = om_Namespace n" "om_Name m = om_Name n"
    "om_ResourceVersion m = om_ResourceVersion n" "om_Finalizers m = om_Finalizers n"
    "om_DeletionTimestamp m = om_DeletionTimestamp n" "om_rest m = om_rest n"
    using assms by (cases m; cases n; simp add: unannotated_def)+
  then show "meta_key m = meta_key n" "om_ResourceVersion m = om_ResourceVersion n"
    "om_Finalizers m = om_Finalizers n" "om_DeletionTimestamp m = om_DeletionTimestamp n"
    "meta_deleting m = meta_deleting n" "om_rest m = om_rest n"
    by (simp_all add: meta_key_def meta_deleting_def)
qed

text \<open>
  \<open>valid\<close>: the pointers the idler reads are not nil and the level is not negative, as the API
  server guarantees. \<open>sleep_step\<close> and \<open>wake\<close> are what the two closures make of the object they
  read, \<open>wake\<close> with the annotations of the object in memory before. \<open>skips\<close>: \<open>Wakeup\<close> sees there
  is nothing to do. \<open>report\<close> is the number \<open>Wakeup\<close> returns, \<open>state_text\<close> the text the watch
  predicate compares with the expected state, and \<open>rest\<close> all of the object but its metadata and
  level.
\<close>

locale idler_contract = stored_kind ops ks
  for ops :: "'o object_ops" and ks :: "'o kind_store" +
  fixes New :: "('w, 'o) kind_client \<Rightarrow> ('w, 'o) idler"
    and valid :: "'o \<Rightarrow> bool"
    and level :: "'o \<Rightarrow> int"
    and prior_level :: "'o \<Rightarrow> int"
    and wake_error :: "'o \<Rightarrow> go_error option"
    and sleep_step :: "'o \<Rightarrow> 'o outcome"
    and wake :: "'o \<Rightarrow> 'o \<Rightarrow> 'o"
    and skips :: "'o \<Rightarrow> bool"
    and report :: "'o \<Rightarrow> int32 option"
    and state_text :: "'o \<Rightarrow> string"
    and rest :: "'o \<Rightarrow> 'r"
  assumes New_SetReference: "SetReference (New kc) = ObjectIdler_SetReference (NewObjectIdler kc ops)"
    and New_RemoveAnnotations: "RemoveAnnotations (New kc) = ObjectIdler_RemoveAnnotations (NewObjectIdler kc ops)"
    and New_NeedIdle: "valid x \<Longrightarrow> NeedIdle (New kc) ir x = Ret (spec_Idle (ir_Spec ir) \<and> 0 < level x)"
    and New_NeedWakeup: "valid x \<Longrightarrow> NeedWakeup (New kc) ir x = Ret (\<not> spec_Idle (ir_Spec ir) \<and> level x = 0)"
    and New_Idle: "valid x \<Longrightarrow> 0 < level x \<Longrightarrow>
          Idle (New kc) (w, x) = kc_retry kc (refetch_update kc ops sleep_step) (w, x)"
    and New_Wakeup: "valid x \<Longrightarrow> Wakeup (New kc) (w, x) =
          (case wake_error x of
             Some e \<Rightarrow> (Ret (Inl e), (w, x))
           | None \<Rightarrow>
               if skips x then (Ret (Inr (report x)), (w, x))
               else go_check (kc_retry kc (refetch_update kc ops (\<lambda>obj. Ret (wake x obj))))
                      (\<lambda>err. go_return (Inl err)) (go_return (Inr (report x))) (w, x))"
    and valid_level: "valid x \<Longrightarrow> 0 \<le> level x"
    and set_level: "level (setMeta ops m x) = level x"
    and set_valid: "valid (setMeta ops m x) = valid x"
    and set_rest: "rest (setMeta ops m x) = rest x"
    and set_text: "state_text (setMeta ops m x) = state_text x"
    and by_previous: "previous_of ops x = previous_of ops y \<Longrightarrow>
          prior_level x = prior_level y \<and> wake_error x = wake_error y"
    and no_previous: "previous_of ops x = None \<Longrightarrow> prior_level x = 1 \<and> wake_error x = None"
    and skips_level: "valid x \<Longrightarrow> skips x \<Longrightarrow> level x = prior_level x"
    and sleep_defined: "valid x \<Longrightarrow> \<exists>y. sleep_step x = Ret y"
    and sleep_level: "sleep_step x = Ret y \<Longrightarrow> level y = 0 \<and> valid y \<and> rest y = rest x"
    and sleep_meta: "sleep_step x = Ret y \<Longrightarrow>
          unannotated (getMeta ops y) = unannotated (getMeta ops x) \<and>
          reference_of ops y = reference_of ops x \<and> expected_of ops y = Some (state_text y)"
    and sleep_records: "sleep_step x = Ret y \<Longrightarrow> valid x \<Longrightarrow> 0 < level x \<Longrightarrow>
          prior_level y = level x \<and> wake_error y = None"
    and wake_level: "wake_error x = None \<Longrightarrow> level (wake x y) = prior_level x \<and> rest (wake x y) = rest y"
    and wake_valid: "wake_error x = None \<Longrightarrow> 0 \<le> prior_level x \<Longrightarrow> valid (wake x y)"
    and wake_meta: "wake_error x = None \<Longrightarrow>
          unannotated (getMeta ops (wake x y)) = unannotated (getMeta ops y) \<and>
          reference_of ops (wake x y) = reference_of ops y \<and>
          previous_of ops (wake x y) = previous_of ops y \<and>
          expected_of ops (wake x y) = Some (state_text (wake x y))"
begin

lemmas set_laws [simp] = set_level set_valid set_rest set_text

lemma stamp_laws [simp]:
  "level (stamp ops v g x) = level x" "valid (stamp ops v g x) = valid x"
  "rest (stamp ops v g x) = rest x" "state_text (stamp ops v g x) = state_text x"
  "prior_level (stamp ops v g x) = prior_level x" "wake_error (stamp ops v g x) = wake_error x"
  using by_previous [of "stamp ops v g x" x] by (simp_all, simp_all add: stamp_def)

lemma annotation_step_laws [simp]:
  "level (with_reference ops i x) = level x" "valid (with_reference ops i x) = valid x"
  "rest (with_reference ops i x) = rest x"
  "prior_level (with_reference ops i x) = prior_level x"
  "wake_error (with_reference ops i x) = wake_error x"
  "level (without_annotations ops x) = level x" "valid (without_annotations ops x) = valid x"
  "rest (without_annotations ops x) = rest x"
  using by_previous [of "with_reference ops i x" x]
  by (simp_all, simp_all add: with_reference_def without_annotations_def Let_def)

lemma keeps_identity_sleep: "keeps_identity ops sleep_step"
  using sleep_meta unannotated_eqD(1,2)
  unfolding keeps_identity_def object_key_def resource_version_def by blast

lemma keeps_identity_wake: "wake_error x = None \<Longrightarrow> keeps_identity ops (\<lambda>obj. Ret (wake x obj))"
  using wake_meta unannotated_eqD(1,2)
  unfolding keeps_identity_def object_key_def resource_version_def by blast

end

end
