(* ===== verification/Deployment_Idler.thy ===== *)
theory Deployment_Idler
  imports Idler
begin

text \<open>
  \<open>src/pkg/controllers/idler/deployment.go\<close>: the idler of Deployments. \<open>DeploymentIdler_Idle\<close> and
  \<open>DeploymentIdler_Wakeup\<close> are the two methods, \<open>deployment_idle\<close> and \<open>deployment_wake\<close> what their
  retry closures do to the object read again. The comparisons of \<open>Spec.Replicas\<close> with a new
  pointer compare addresses, so they always hold. The theory ends with the interpretation of
  \<open>idler_contract\<close>.
\<close>

section \<open>The methods\<close>

definition DeploymentIdler_NeedIdle :: "IdlingResource \<Rightarrow> deployment \<Rightarrow> bool outcome" where
  "DeploymentIdler_NeedIdle instance d =
     (if spec_Idle (ir_Spec instance)
      then bind_outcome (deref (d_Replicas d)) (\<lambda>r. Ret (sint r > 0))
      else Ret False)"

definition DeploymentIdler_NeedWakeup :: "IdlingResource \<Rightarrow> deployment \<Rightarrow> bool outcome" where
  "DeploymentIdler_NeedWakeup instance d =
     (if \<not> spec_Idle (ir_Spec instance)
      then bind_outcome (deref (d_Replicas d)) (\<lambda>r. Ret (r = 0))
      else Ret False)"

definition deployment_idle :: "deployment \<Rightarrow> deployment outcome" where
  "deployment_idle d =
     bind_outcome (deref (d_Replicas d)) (\<lambda>r.
       let m1 = AddAnnotation (d_meta d) MetadataPreviousReplicas (Itoa (sint r));
           m2 = AddAnnotation m1 MetadataExpectedState ''0''
       in Ret (d\<lparr> d_meta := m2, d_Replicas := Some 0 \<rparr>))"

definition DeploymentIdler_Idle ::
  "('w, deployment) kind_client \<Rightarrow> ('w \<times> deployment, go_error option) go"
  where
  "DeploymentIdler_Idle kc = (\<lambda>(w, d).
     if ptr_differs_from_new (d_Replicas d) 0
     then go_check (kc_retry kc (refetch_update kc Deployments deployment_idle))
            (\<lambda>err. go_return (Some err))
            (go_return None) (w, d)
     else go_return None (w, d))"

text \<open>The previous replicas, 1 when the annotation is missing, cut to 32 bits by \<open>int32(v)\<close>.\<close>

definition deployment_previous :: "deployment \<Rightarrow> go_error + int32" where
  "deployment_previous d =
     (let (metadataPreviousReplicas, found) = GetAnnotation (d_meta d) MetadataPreviousReplicas
      in if found
         then (case Atoi metadataPreviousReplicas of
                 Inl err \<Rightarrow> Inl (NumError err)
               | Inr v \<Rightarrow> Inr (int32_of_int v))
         else Inr 1)"

definition deployment_wake :: "int32 \<Rightarrow> deployment \<Rightarrow> deployment" where
  "deployment_wake previousReplicas d =
     (let m1 = AddAnnotation (d_meta d) MetadataExpectedState (Itoa (sint previousReplicas))
      in d\<lparr> d_meta := m1, d_Replicas := Some previousReplicas \<rparr>)"

definition DeploymentIdler_Wakeup ::
  "('w, deployment) kind_client \<Rightarrow> ('w \<times> deployment, go_error + int32 option) go"
  where
  "DeploymentIdler_Wakeup kc = (\<lambda>(w, d).
     case deployment_previous d of
       Inl err \<Rightarrow> go_return (Inl err) (w, d)
     | Inr previousReplicas \<Rightarrow>
         if ptr_differs_from_new (d_Replicas d) previousReplicas
         then go_check
                (kc_retry kc (refetch_update kc Deployments (\<lambda>obj. Ret (deployment_wake previousReplicas obj))))
                (\<lambda>err. go_return (Inl err))
                (go_return (Inr (Some previousReplicas))) (w, d)
         else go_return (Inr (Some previousReplicas)) (w, d))"

definition NewDeploymentIdler :: "('w, deployment) kind_client \<Rightarrow> ('w, deployment) idler" where
  "NewDeploymentIdler kc =
     \<lparr> SetReference = ObjectIdler_SetReference (NewObjectIdler kc Deployments),
       RemoveAnnotations = ObjectIdler_RemoveAnnotations (NewObjectIdler kc Deployments),
       NeedIdle = DeploymentIdler_NeedIdle,
       NeedWakeup = DeploymentIdler_NeedWakeup,
       Idle = DeploymentIdler_Idle kc,
       Wakeup = DeploymentIdler_Wakeup kc \<rparr>"

section \<open>It is an idler\<close>

definition deployment_valid :: "deployment \<Rightarrow> bool" where
  "deployment_valid d = (case d_Replicas d of None \<Rightarrow> False | Some r \<Rightarrow> 0 \<le> sint r)"

definition deployment_level :: "deployment \<Rightarrow> int" where
  "deployment_level d = (case d_Replicas d of None \<Rightarrow> 0 | Some r \<Rightarrow> sint r)"

definition deployment_prior :: "deployment \<Rightarrow> int32" where
  "deployment_prior d = (case deployment_previous d of Inl _ \<Rightarrow> 0 | Inr r \<Rightarrow> r)"

definition deployment_wake_error :: "deployment \<Rightarrow> go_error option" where
  "deployment_wake_error d = (case deployment_previous d of Inl e \<Rightarrow> Some e | Inr _ \<Rightarrow> None)"

definition deployment_text :: "deployment \<Rightarrow> string" where
  "deployment_text d = Itoa (deployment_level d)"

lemma deployment_previous_cases:
  "deployment_previous d =
     (case annotation (d_meta d) MetadataPreviousReplicas of
        None \<Rightarrow> Inr 1
      | Some s \<Rightarrow> (case Atoi s of Inl err \<Rightarrow> Inl (NumError err) | Inr v \<Rightarrow> Inr (int32_of_int v)))"
  by (simp add: deployment_previous_def GetAnnotation_eq split: option.splits)

lemma getMeta_Deployments [simp]: "getMeta Deployments d = d_meta d"
  and setMeta_Deployments [simp]: "setMeta Deployments m d = d\<lparr> d_meta := m \<rparr>"
  by (simp_all add: Deployments_def)

lemma deployment_idle_eq:
  "deployment_idle d = Ret e \<longleftrightarrow> (\<exists>r. d_Replicas d = Some r \<and>
     e = d\<lparr> d_meta := AddAnnotation (AddAnnotation (d_meta d) MetadataPreviousReplicas (Itoa (sint r)))
                       MetadataExpectedState ''0'',
            d_Replicas := Some 0 \<rparr>)"
  by (cases "d_Replicas d") (auto simp: deployment_idle_def Let_def)

interpretation dep: idler_contract Deployments DeploymentStore NewDeploymentIdler
  deployment_valid deployment_level "\<lambda>d. sint (deployment_prior d)" deployment_wake_error
  deployment_idle "\<lambda>d. deployment_wake (deployment_prior d)" "\<lambda>_. False"
  "\<lambda>d. Some (deployment_prior d)" deployment_text d_rest
proof unfold_locales
  fix kc :: "('w, deployment) kind_client" and ir and w :: 'w and x y :: deployment
    and m :: object_meta
  show "SetReference (NewDeploymentIdler kc) = ObjectIdler_SetReference (NewObjectIdler kc Deployments)"
    "RemoveAnnotations (NewDeploymentIdler kc) = ObjectIdler_RemoveAnnotations (NewObjectIdler kc Deployments)"
    by (simp_all add: NewDeploymentIdler_def)
  show "deployment_valid x \<Longrightarrow>
      NeedIdle (NewDeploymentIdler kc) ir x = Ret (spec_Idle (ir_Spec ir) \<and> 0 < deployment_level x)"
    "deployment_valid x \<Longrightarrow>
      NeedWakeup (NewDeploymentIdler kc) ir x = Ret (\<not> spec_Idle (ir_Spec ir) \<and> deployment_level x = 0)"
    by (auto simp: NewDeploymentIdler_def DeploymentIdler_NeedIdle_def DeploymentIdler_NeedWakeup_def
        deployment_valid_def deployment_level_def sint_int32_eq_0 split: option.splits)
  show "deployment_valid x \<Longrightarrow> 0 < deployment_level x \<Longrightarrow>
      Idle (NewDeploymentIdler kc) (w, x) = kc_retry kc (refetch_update kc Deployments deployment_idle) (w, x)"
    by (simp add: NewDeploymentIdler_def DeploymentIdler_Idle_def)
  show "deployment_valid x \<Longrightarrow> Wakeup (NewDeploymentIdler kc) (w, x) =
      (case deployment_wake_error x of
         Some e \<Rightarrow> (Ret (Inl e), (w, x))
       | None \<Rightarrow> if False then (Ret (Inr (Some (deployment_prior x))), (w, x))
           else go_check (kc_retry kc (refetch_update kc Deployments
                            (\<lambda>obj. Ret (deployment_wake (deployment_prior x) obj))))
                  (\<lambda>err. go_return (Inl err)) (go_return (Inr (Some (deployment_prior x)))) (w, x))"
    by (simp add: NewDeploymentIdler_def DeploymentIdler_Wakeup_def deployment_wake_error_def
        deployment_prior_def split: sum.splits)
  show "deployment_valid x \<Longrightarrow> 0 \<le> deployment_level x"
    by (simp add: deployment_valid_def deployment_level_def split: option.splits)
  show "deployment_level (setMeta Deployments m x) = deployment_level x"
    "deployment_valid (setMeta Deployments m x) = deployment_valid x"
    "d_rest (setMeta Deployments m x) = d_rest x"
    "deployment_text (setMeta Deployments m x) = deployment_text x"
    by (simp_all add: deployment_level_def deployment_valid_def deployment_text_def)
  show "previous_of Deployments x = previous_of Deployments y \<Longrightarrow>
      sint (deployment_prior x) = sint (deployment_prior y) \<and> deployment_wake_error x = deployment_wake_error y"
    by (simp add: deployment_prior_def deployment_wake_error_def deployment_previous_cases)
  show "previous_of Deployments x = None \<Longrightarrow>
      sint (deployment_prior x) = 1 \<and> deployment_wake_error x = None"
    by (simp add: deployment_prior_def deployment_wake_error_def deployment_previous_cases)
  show "deployment_valid x \<Longrightarrow> \<exists>y. deployment_idle x = Ret y"
    by (simp add: deployment_valid_def deployment_idle_eq split: option.splits)
  assume slept: "deployment_idle x = Ret y"
  then show "deployment_level y = 0 \<and> deployment_valid y \<and> d_rest y = d_rest x"
    "unannotated (getMeta Deployments y) = unannotated (getMeta Deployments x) \<and>
       reference_of Deployments y = reference_of Deployments x \<and>
       expected_of Deployments y = Some (deployment_text y)"
    by (auto simp: deployment_idle_eq deployment_level_def deployment_valid_def deployment_text_def)
  show "deployment_valid x \<Longrightarrow> 0 < deployment_level x \<Longrightarrow>
      sint (deployment_prior y) = deployment_level x \<and> deployment_wake_error y = None"
    using slept
    by (auto simp: deployment_idle_eq deployment_level_def deployment_prior_def
        deployment_wake_error_def deployment_previous_cases)
qed (auto simp: deployment_wake_def deployment_level_def deployment_valid_def deployment_text_def Let_def)

end
