(* ===== verification/StatefulSet_Idler.thy ===== *)
theory StatefulSet_Idler
  imports Idler
begin

text \<open>
  \<open>src/pkg/controllers/idler/statefulset.go\<close>: the idler of StatefulSets. \<open>StatefulSetIdler_Idle\<close> and
  \<open>StatefulSetIdler_Wakeup\<close> are the two methods, \<open>statefulset_idle\<close> and \<open>statefulset_wake\<close> what their
  retry closures do to the object read again. The comparisons of \<open>Spec.Replicas\<close> with a new
  pointer compare addresses, so they always hold. The theory ends with the interpretation of
  \<open>idler_contract\<close>.
\<close>

section \<open>The methods\<close>

definition StatefulSetIdler_NeedIdle :: "IdlingResource \<Rightarrow> statefulset \<Rightarrow> bool outcome" where
  "StatefulSetIdler_NeedIdle instance s =
     (if spec_Idle (ir_Spec instance)
      then bind_outcome (deref (s_Replicas s)) (\<lambda>r. Ret (sint r > 0))
      else Ret False)"

definition StatefulSetIdler_NeedWakeup :: "IdlingResource \<Rightarrow> statefulset \<Rightarrow> bool outcome" where
  "StatefulSetIdler_NeedWakeup instance s =
     (if \<not> spec_Idle (ir_Spec instance)
      then bind_outcome (deref (s_Replicas s)) (\<lambda>r. Ret (r = 0))
      else Ret False)"

definition statefulset_idle :: "statefulset \<Rightarrow> statefulset outcome" where
  "statefulset_idle s =
     bind_outcome (deref (s_Replicas s)) (\<lambda>r.
       let m1 = AddAnnotation (s_meta s) MetadataPreviousReplicas (Itoa (sint r));
           m2 = AddAnnotation m1 MetadataExpectedState ''0''
       in Ret (s\<lparr> s_meta := m2, s_Replicas := Some 0 \<rparr>))"

definition StatefulSetIdler_Idle ::
  "('w, statefulset) kind_client \<Rightarrow> ('w \<times> statefulset, go_error option) go"
  where
  "StatefulSetIdler_Idle kc = (\<lambda>(w, s).
     if ptr_differs_from_new (s_Replicas s) 0
     then go_check (kc_retry kc (refetch_update kc StatefulSets statefulset_idle))
            (\<lambda>err. go_return (Some err))
            (go_return None) (w, s)
     else go_return None (w, s))"

text \<open>The previous replicas, 1 when the annotation is missing, cut to 32 bits by \<open>int32(v)\<close>.\<close>

definition statefulset_previous :: "statefulset \<Rightarrow> go_error + int32" where
  "statefulset_previous s =
     (let (metadataPreviousReplicas, found) = GetAnnotation (s_meta s) MetadataPreviousReplicas
      in if found
         then (case Atoi metadataPreviousReplicas of
                 Inl err \<Rightarrow> Inl (NumError err)
               | Inr v \<Rightarrow> Inr (int32_of_int v))
         else Inr 1)"

definition statefulset_wake :: "int32 \<Rightarrow> statefulset \<Rightarrow> statefulset" where
  "statefulset_wake previousReplicas s =
     (let m1 = AddAnnotation (s_meta s) MetadataExpectedState (Itoa (sint previousReplicas))
      in s\<lparr> s_meta := m1, s_Replicas := Some previousReplicas \<rparr>)"

definition StatefulSetIdler_Wakeup ::
  "('w, statefulset) kind_client \<Rightarrow> ('w \<times> statefulset, go_error + int32 option) go"
  where
  "StatefulSetIdler_Wakeup kc = (\<lambda>(w, s).
     case statefulset_previous s of
       Inl err \<Rightarrow> go_return (Inl err) (w, s)
     | Inr previousReplicas \<Rightarrow>
         if ptr_differs_from_new (s_Replicas s) previousReplicas
         then go_check
                (kc_retry kc (refetch_update kc StatefulSets (\<lambda>obj. Ret (statefulset_wake previousReplicas obj))))
                (\<lambda>err. go_return (Inl err))
                (go_return (Inr (Some previousReplicas))) (w, s)
         else go_return (Inr (Some previousReplicas)) (w, s))"

definition NewStatefulSetIdler :: "('w, statefulset) kind_client \<Rightarrow> ('w, statefulset) idler" where
  "NewStatefulSetIdler kc =
     \<lparr> SetReference = ObjectIdler_SetReference (NewObjectIdler kc StatefulSets),
       RemoveAnnotations = ObjectIdler_RemoveAnnotations (NewObjectIdler kc StatefulSets),
       NeedIdle = StatefulSetIdler_NeedIdle,
       NeedWakeup = StatefulSetIdler_NeedWakeup,
       Idle = StatefulSetIdler_Idle kc,
       Wakeup = StatefulSetIdler_Wakeup kc \<rparr>"

section \<open>It is an idler\<close>

definition statefulset_valid :: "statefulset \<Rightarrow> bool" where
  "statefulset_valid s = (case s_Replicas s of None \<Rightarrow> False | Some r \<Rightarrow> 0 \<le> sint r)"

definition statefulset_level :: "statefulset \<Rightarrow> int" where
  "statefulset_level s = (case s_Replicas s of None \<Rightarrow> 0 | Some r \<Rightarrow> sint r)"

definition statefulset_prior :: "statefulset \<Rightarrow> int32" where
  "statefulset_prior s = (case statefulset_previous s of Inl _ \<Rightarrow> 0 | Inr r \<Rightarrow> r)"

definition statefulset_wake_error :: "statefulset \<Rightarrow> go_error option" where
  "statefulset_wake_error s = (case statefulset_previous s of Inl e \<Rightarrow> Some e | Inr _ \<Rightarrow> None)"

definition statefulset_text :: "statefulset \<Rightarrow> string" where
  "statefulset_text s = Itoa (statefulset_level s)"

lemma statefulset_previous_cases:
  "statefulset_previous s =
     (case annotation (s_meta s) MetadataPreviousReplicas of
        None \<Rightarrow> Inr 1
      | Some t \<Rightarrow> (case Atoi t of Inl err \<Rightarrow> Inl (NumError err) | Inr v \<Rightarrow> Inr (int32_of_int v)))"
  by (simp add: statefulset_previous_def GetAnnotation_eq split: option.splits)

lemma getMeta_StatefulSets [simp]: "getMeta StatefulSets s = s_meta s"
  and setMeta_StatefulSets [simp]: "setMeta StatefulSets m s = s\<lparr> s_meta := m \<rparr>"
  by (simp_all add: StatefulSets_def)

lemma statefulset_idle_eq:
  "statefulset_idle s = Ret e \<longleftrightarrow> (\<exists>r. s_Replicas s = Some r \<and>
     e = s\<lparr> s_meta := AddAnnotation (AddAnnotation (s_meta s) MetadataPreviousReplicas (Itoa (sint r)))
                       MetadataExpectedState ''0'',
            s_Replicas := Some 0 \<rparr>)"
  by (cases "s_Replicas s") (auto simp: statefulset_idle_def Let_def)

interpretation sts: idler_contract StatefulSets StatefulSetStore NewStatefulSetIdler
  statefulset_valid statefulset_level "\<lambda>s. sint (statefulset_prior s)" statefulset_wake_error
  statefulset_idle "\<lambda>s. statefulset_wake (statefulset_prior s)" "\<lambda>_. False"
  "\<lambda>s. Some (statefulset_prior s)" statefulset_text s_rest
proof unfold_locales
  fix kc :: "('w, statefulset) kind_client" and ir and w :: 'w and x y :: statefulset
    and m :: object_meta
  show "SetReference (NewStatefulSetIdler kc) = ObjectIdler_SetReference (NewObjectIdler kc StatefulSets)"
    "RemoveAnnotations (NewStatefulSetIdler kc) = ObjectIdler_RemoveAnnotations (NewObjectIdler kc StatefulSets)"
    by (simp_all add: NewStatefulSetIdler_def)
  show "statefulset_valid x \<Longrightarrow>
      NeedIdle (NewStatefulSetIdler kc) ir x = Ret (spec_Idle (ir_Spec ir) \<and> 0 < statefulset_level x)"
    "statefulset_valid x \<Longrightarrow>
      NeedWakeup (NewStatefulSetIdler kc) ir x = Ret (\<not> spec_Idle (ir_Spec ir) \<and> statefulset_level x = 0)"
    by (auto simp: NewStatefulSetIdler_def StatefulSetIdler_NeedIdle_def StatefulSetIdler_NeedWakeup_def
        statefulset_valid_def statefulset_level_def sint_int32_eq_0 split: option.splits)
  show "statefulset_valid x \<Longrightarrow> 0 < statefulset_level x \<Longrightarrow>
      Idle (NewStatefulSetIdler kc) (w, x) = kc_retry kc (refetch_update kc StatefulSets statefulset_idle) (w, x)"
    by (simp add: NewStatefulSetIdler_def StatefulSetIdler_Idle_def)
  show "statefulset_valid x \<Longrightarrow> Wakeup (NewStatefulSetIdler kc) (w, x) =
      (case statefulset_wake_error x of
         Some e \<Rightarrow> (Ret (Inl e), (w, x))
       | None \<Rightarrow> if False then (Ret (Inr (Some (statefulset_prior x))), (w, x))
           else go_check (kc_retry kc (refetch_update kc StatefulSets
                            (\<lambda>obj. Ret (statefulset_wake (statefulset_prior x) obj))))
                  (\<lambda>err. go_return (Inl err)) (go_return (Inr (Some (statefulset_prior x)))) (w, x))"
    by (simp add: NewStatefulSetIdler_def StatefulSetIdler_Wakeup_def statefulset_wake_error_def
        statefulset_prior_def split: sum.splits)
  show "statefulset_valid x \<Longrightarrow> 0 \<le> statefulset_level x"
    by (simp add: statefulset_valid_def statefulset_level_def split: option.splits)
  show "statefulset_level (setMeta StatefulSets m x) = statefulset_level x"
    "statefulset_valid (setMeta StatefulSets m x) = statefulset_valid x"
    "s_rest (setMeta StatefulSets m x) = s_rest x"
    "statefulset_text (setMeta StatefulSets m x) = statefulset_text x"
    by (simp_all add: statefulset_level_def statefulset_valid_def statefulset_text_def)
  show "previous_of StatefulSets x = previous_of StatefulSets y \<Longrightarrow>
      sint (statefulset_prior x) = sint (statefulset_prior y) \<and> statefulset_wake_error x = statefulset_wake_error y"
    by (simp add: statefulset_prior_def statefulset_wake_error_def statefulset_previous_cases)
  show "previous_of StatefulSets x = None \<Longrightarrow>
      sint (statefulset_prior x) = 1 \<and> statefulset_wake_error x = None"
    by (simp add: statefulset_prior_def statefulset_wake_error_def statefulset_previous_cases)
  show "statefulset_valid x \<Longrightarrow> \<exists>y. statefulset_idle x = Ret y"
    by (simp add: statefulset_valid_def statefulset_idle_eq split: option.splits)
  assume slept: "statefulset_idle x = Ret y"
  then show "statefulset_level y = 0 \<and> statefulset_valid y \<and> s_rest y = s_rest x"
    "unannotated (getMeta StatefulSets y) = unannotated (getMeta StatefulSets x) \<and>
       reference_of StatefulSets y = reference_of StatefulSets x \<and>
       expected_of StatefulSets y = Some (statefulset_text y)"
    by (auto simp: statefulset_idle_eq statefulset_level_def statefulset_valid_def statefulset_text_def)
  show "statefulset_valid x \<Longrightarrow> 0 < statefulset_level x \<Longrightarrow>
      sint (statefulset_prior y) = statefulset_level x \<and> statefulset_wake_error y = None"
    using slept
    by (auto simp: statefulset_idle_eq statefulset_level_def statefulset_prior_def
        statefulset_wake_error_def statefulset_previous_cases)
qed (auto simp: statefulset_wake_def statefulset_level_def statefulset_valid_def statefulset_text_def Let_def)

end
