(* ===== verification/CronJob_Idler.thy ===== *)
theory CronJob_Idler
  imports Idler
begin

text \<open>
  \<open>src/pkg/controllers/idler/cronjob.go\<close>: the idler of CronJobs, which suspends and resumes them.
  A CronJob has level 0 when it is suspended and 1 when it is not, and needs no record of the
  level it had. Unlike the other two idlers it does nothing when the object in memory is already
  in the wanted state, and its \<open>Wakeup\<close> returns no number.
\<close>

section \<open>The methods\<close>

definition CronJobIdler_NeedIdle :: "IdlingResource \<Rightarrow> cronjob \<Rightarrow> bool outcome" where
  "CronJobIdler_NeedIdle instance cj =
     (if spec_Idle (ir_Spec instance)
      then bind_outcome (deref (cj_Suspend cj)) (\<lambda>b. Ret (\<not> b))
      else Ret False)"

definition CronJobIdler_NeedWakeup :: "IdlingResource \<Rightarrow> cronjob \<Rightarrow> bool outcome" where
  "CronJobIdler_NeedWakeup instance cj =
     (if \<not> spec_Idle (ir_Spec instance)
      then bind_outcome (deref (cj_Suspend cj)) (\<lambda>b. Ret b)
      else Ret False)"

definition cronjob_suspend :: "cronjob \<Rightarrow> cronjob" where
  "cronjob_suspend cj =
     cj\<lparr> cj_meta := AddAnnotation (cj_meta cj) MetadataExpectedState ''true'', cj_Suspend := Some True \<rparr>"

definition cronjob_resume :: "cronjob \<Rightarrow> cronjob" where
  "cronjob_resume cj =
     cj\<lparr> cj_meta := AddAnnotation (cj_meta cj) MetadataExpectedState ''false'', cj_Suspend := Some False \<rparr>"

definition CronJobIdler_Idle :: "('w, cronjob) kind_client \<Rightarrow> ('w \<times> cronjob, go_error option) go" where
  "CronJobIdler_Idle kc = (\<lambda>(w, cj).
     go_bind (go_pure (deref (cj_Suspend cj))) (\<lambda>suspended.
       if \<not> suspended
       then go_check (kc_retry kc (refetch_update kc CronJobs (\<lambda>obj. Ret (cronjob_suspend obj))))
              (\<lambda>err. go_return (Some err))
              (go_return None)
       else go_return None) (w, cj))"

definition CronJobIdler_Wakeup ::
  "('w, cronjob) kind_client \<Rightarrow> ('w \<times> cronjob, go_error + int32 option) go"
  where
  "CronJobIdler_Wakeup kc = (\<lambda>(w, cj).
     go_bind (go_pure (deref (cj_Suspend cj))) (\<lambda>suspended.
       if suspended
       then go_check (kc_retry kc (refetch_update kc CronJobs (\<lambda>obj. Ret (cronjob_resume obj))))
              (\<lambda>err. go_return (Inl err))
              (go_return (Inr None))
       else go_return (Inr None)) (w, cj))"

definition NewCronJobIdler :: "('w, cronjob) kind_client \<Rightarrow> ('w, cronjob) idler" where
  "NewCronJobIdler kc =
     \<lparr> SetReference = ObjectIdler_SetReference (NewObjectIdler kc CronJobs),
       RemoveAnnotations = ObjectIdler_RemoveAnnotations (NewObjectIdler kc CronJobs),
       NeedIdle = CronJobIdler_NeedIdle,
       NeedWakeup = CronJobIdler_NeedWakeup,
       Idle = CronJobIdler_Idle kc,
       Wakeup = CronJobIdler_Wakeup kc \<rparr>"

section \<open>It is an idler\<close>

definition cronjob_valid :: "cronjob \<Rightarrow> bool" where
  "cronjob_valid cj = (cj_Suspend cj \<noteq> None)"

definition cronjob_level :: "cronjob \<Rightarrow> int" where
  "cronjob_level cj = (if cj_Suspend cj = Some True then 0 else 1)"

text \<open>The level a CronJob wakes up to, and the error of reading it: it needs no record.\<close>

definition cronjob_prior :: "cronjob \<Rightarrow> int" where
  "cronjob_prior cj = 1"

definition cronjob_wake_error :: "cronjob \<Rightarrow> go_error option" where
  "cronjob_wake_error cj = None"

definition cronjob_text :: "cronjob \<Rightarrow> string" where
  "cronjob_text cj = FormatBool (cj_Suspend cj = Some True)"

text \<open>What an idler of CronJobs never changes: all but the metadata and the suspend flag.\<close>

definition cronjob_rest :: "cronjob \<Rightarrow> cronjob" where
  "cronjob_rest cj = cj\<lparr> cj_meta := ObjectMeta '''' '''', cj_Suspend := None \<rparr>"

lemma getMeta_CronJobs [simp]: "getMeta CronJobs cj = cj_meta cj"
  and setMeta_CronJobs [simp]: "setMeta CronJobs m cj = cj\<lparr> cj_meta := m \<rparr>"
  by (simp_all add: CronJobs_def)

lemmas cronjob_defs = cronjob_prior_def cronjob_wake_error_def cronjob_valid_def cronjob_level_def cronjob_text_def cronjob_rest_def
  cronjob_suspend_def cronjob_resume_def

interpretation cron: idler_contract CronJobs CronJobStore NewCronJobIdler
  cronjob_valid cronjob_level cronjob_prior cronjob_wake_error
  "\<lambda>cj. Ret (cronjob_suspend cj)" "\<lambda>_. cronjob_resume" "\<lambda>cj. cj_Suspend cj = Some False"
  "\<lambda>_. None" cronjob_text cronjob_rest
proof unfold_locales
  fix kc :: "('w, cronjob) kind_client" and ir and w :: 'w and x :: cronjob
  show "SetReference (NewCronJobIdler kc) = ObjectIdler_SetReference (NewObjectIdler kc CronJobs)"
    "RemoveAnnotations (NewCronJobIdler kc) = ObjectIdler_RemoveAnnotations (NewObjectIdler kc CronJobs)"
    by (simp_all add: NewCronJobIdler_def)
  show "cronjob_valid x \<Longrightarrow>
      NeedIdle (NewCronJobIdler kc) ir x = Ret (spec_Idle (ir_Spec ir) \<and> 0 < cronjob_level x)"
    "cronjob_valid x \<Longrightarrow>
      NeedWakeup (NewCronJobIdler kc) ir x = Ret (\<not> spec_Idle (ir_Spec ir) \<and> cronjob_level x = 0)"
    by (auto simp: NewCronJobIdler_def CronJobIdler_NeedIdle_def CronJobIdler_NeedWakeup_def cronjob_defs)
  show "cronjob_valid x \<Longrightarrow> 0 < cronjob_level x \<Longrightarrow> Idle (NewCronJobIdler kc) (w, x) =
      kc_retry kc (refetch_update kc CronJobs (\<lambda>cj. Ret (cronjob_suspend cj))) (w, x)"
    by (auto simp: NewCronJobIdler_def CronJobIdler_Idle_def cronjob_valid_def cronjob_level_def
        go_bind_def split: if_splits)
  show "cronjob_valid x \<Longrightarrow> Wakeup (NewCronJobIdler kc) (w, x) =
      (case cronjob_wake_error x of
         Some e \<Rightarrow> (Ret (Inl e), (w, x))
       | None \<Rightarrow> if cj_Suspend x = Some False then (Ret (Inr None), (w, x))
           else go_check (kc_retry kc (refetch_update kc CronJobs (\<lambda>obj. Ret (cronjob_resume obj))))
                  (\<lambda>err. go_return (Inl err)) (go_return (Inr None)) (w, x))"
    by (auto simp: NewCronJobIdler_def CronJobIdler_Wakeup_def cronjob_valid_def cronjob_wake_error_def
        go_bind_def)
qed (auto simp: cronjob_defs FormatBool_def)

end
