(* ===== verification/Reconciler.thy ===== *)
theory Reconciler
  imports Kinds
begin

text \<open>
  The struct \<open>IdlingResourceReconciler\<close> of \<open>src/pkg/controllers/idlingresource_controller.go\<close>: the
  clients, the event recorder, the scheme (through \<open>SetControllerReference\<close>) and the image of
  kidlectl; the events it records and the results it returns. \<open>controllerutil\<close> is not part of the
  source: its three functions are fields of the struct, and \<open>reconciler_contract\<close> states what
  they and the clients promise. The lemmas say what each call keeps of the cluster.
\<close>

section \<open>The struct\<close>

text \<open>
  An event: the object it is about, its type and reason, the text of its message, and the error
  whose text ends the message.
\<close>

record event =
  ev_Object :: namespaced_name
  ev_Type :: string
  ev_Reason :: string
  ev_Message :: string
  ev_Error :: "go_error option"

text \<open>\<open>rc_RoleGroup\<close> is what \<open>role.GroupVersionKind().Group\<close> answers for a role in memory.\<close>

record 'w reconciler =
  rc_Deployments :: "('w, deployment) kind_client"
  rc_StatefulSets :: "('w, statefulset) kind_client"
  rc_CronJobs :: "('w, cronjob) kind_client"
  rc_IdlingResources :: "('w, IdlingResource) kind_client"
  rc_ServiceAccounts :: "('w, service_account) kind_client"
  rc_Roles :: "('w, role) kind_client"
  rc_RoleBindings :: "('w, role_binding) kind_client"
  rc_Event :: "event \<Rightarrow> 'w \<Rightarrow> 'w"
  rc_SetControllerReference :: "IdlingResource \<Rightarrow> object_meta \<Rightarrow> go_error + object_meta"
  rc_AddFinalizer :: "string list \<Rightarrow> string \<Rightarrow> string list"
  rc_RemoveFinalizer :: "string list \<Rightarrow> string \<Rightarrow> string list"
  rc_RoleGroup :: "role \<Rightarrow> string"
  rc_KidlectlImage :: string

text \<open>\<open>reconcile.Result\<close>, its delay a signed number of nanoseconds.\<close>

record reconcile_result =
  res_Requeue :: bool
  res_RequeueAfter :: int

definition no_requeue :: reconcile_result where
  "no_requeue = \<lparr> res_Requeue = False, res_RequeueAfter = 0 \<rparr>"

definition second :: int where
  "second = 1000000000"

section \<open>Calls\<close>

definition r_get :: "('w, 'o) kind_client \<Rightarrow> namespaced_name \<Rightarrow> ('w, go_error + 'o) go" where
  "r_get kc key = go_call (kc_get kc key)"

definition r_update :: "('w, 'o) kind_client \<Rightarrow> 'o \<Rightarrow> ('w, go_error + 'o) go" where
  "r_update kc x = go_call (kc_update kc x)"

definition r_create :: "('w, 'o) kind_client \<Rightarrow> 'o \<Rightarrow> ('w, go_error + 'o) go" where
  "r_create kc x = go_call (kc_create kc x)"

definition r_delete :: "('w, 'o) kind_client \<Rightarrow> 'o \<Rightarrow> string \<Rightarrow> ('w, go_error option) go" where
  "r_delete kc x policy = go_call (kc_delete kc x policy)"

definition r_event ::
  "'w reconciler \<Rightarrow> IdlingResource \<Rightarrow> string \<Rightarrow> string \<Rightarrow> string \<Rightarrow> go_error option \<Rightarrow> ('w, unit) go"
  where
  "r_event R instance type reason message err = (\<lambda>w. (Ret (),
     rc_Event R \<lparr> ev_Object = meta_key (ir_meta instance), ev_Type = type, ev_Reason = reason,
                  ev_Message = message, ev_Error = err \<rparr> w))"

definition EventTypeNormal :: string where
  "EventTypeNormal = ''Normal''"

definition EventTypeWarning :: string where
  "EventTypeWarning = ''Warning''"

section \<open>Contracts\<close>

definition controllerutil_contract :: "'w reconciler \<Rightarrow> bool" where
  "controllerutil_contract R \<longleftrightarrow>
     (\<forall>fs f. set (rc_AddFinalizer R fs f) = insert f (set fs)) \<and>
     (\<forall>fs f. set (rc_RemoveFinalizer R fs f) = set fs - {f}) \<and>
     (\<forall>i m m'. rc_SetControllerReference R i m = Inr m' \<longrightarrow>
        (\<exists>os. m' = m\<lparr> om_OwnerReferences := os \<rparr> \<and>
           (\<exists>ref \<in> set os. or_Name ref = om_Name (ir_meta i) \<and> or_Controller ref)))"

definition reconciler_contract :: "('w \<Rightarrow> cluster) \<Rightarrow> 'w reconciler \<Rightarrow> bool" where
  "reconciler_contract view R \<longleftrightarrow>
     kind_contract view Deployments DeploymentStore (rc_Deployments R) \<and>
     kind_contract view StatefulSets StatefulSetStore (rc_StatefulSets R) \<and>
     kind_contract view CronJobs CronJobStore (rc_CronJobs R) \<and>
     kind_contract view IdlingResources IdlingResourceStore (rc_IdlingResources R) \<and>
     kind_contract view ServiceAccounts ServiceAccountStore (rc_ServiceAccounts R) \<and>
     kind_contract view Roles RoleStore (rc_Roles R) \<and>
     kind_contract view RoleBindings RoleBindingStore (rc_RoleBindings R) \<and>
     (\<forall>ev w. view (rc_Event R ev w) = view w) \<and>
     controllerutil_contract R"

text \<open>No stale read of any kind.\<close>

definition fresh_reads :: "('w \<Rightarrow> cluster) \<Rightarrow> 'w reconciler \<Rightarrow> bool" where
  "fresh_reads view R \<longleftrightarrow>
     coherent view DeploymentStore (rc_Deployments R) \<and>
     coherent view StatefulSetStore (rc_StatefulSets R) \<and>
     coherent view CronJobStore (rc_CronJobs R) \<and>
     coherent view IdlingResourceStore (rc_IdlingResources R) \<and>
     coherent view ServiceAccountStore (rc_ServiceAccounts R) \<and>
     coherent view RoleStore (rc_Roles R) \<and>
     coherent view RoleBindingStore (rc_RoleBindings R)"

text \<open>
  Calls of all kinds that fail only for a reason the stored state gives, on objects that can be
  owned: \<open>SetControllerReference\<close> fails only on an object another controller owns.
\<close>

definition reconciler_available :: "('w \<Rightarrow> cluster) \<Rightarrow> 'w reconciler \<Rightarrow> bool" where
  "reconciler_available view R \<longleftrightarrow>
     available view Deployments DeploymentStore (rc_Deployments R) \<and>
     available view StatefulSets StatefulSetStore (rc_StatefulSets R) \<and>
     available view CronJobs CronJobStore (rc_CronJobs R) \<and>
     available view IdlingResources IdlingResourceStore (rc_IdlingResources R) \<and>
     available view ServiceAccounts ServiceAccountStore (rc_ServiceAccounts R) \<and>
     available view Roles RoleStore (rc_Roles R) \<and>
     available view RoleBindings RoleBindingStore (rc_RoleBindings R) \<and>
     (\<forall>i m. om_OwnerReferences m = [] \<longrightarrow> (\<exists>m'. rc_SetControllerReference R i m = Inr m'))"

lemma reconciler_available_fresh: "reconciler_available view R \<Longrightarrow> fresh_reads view R"
  unfolding reconciler_available_def fresh_reads_def by (blast intro: available_coherent)

lemma r_event_eq_Ret:
  "reconciler_contract view R \<Longrightarrow> r_event R i ty re msg err w = (r, w') \<Longrightarrow>
     r = Ret () \<and> view w' = view w"
  by (auto simp: r_event_def reconciler_contract_def)

lemma view_r_event: "reconciler_contract view R \<Longrightarrow> view (snd (r_event R i ty re msg err w)) = view w"
  by (simp add: r_event_def reconciler_contract_def)

section \<open>What a call keeps\<close>

text \<open>
  A part \<open>p\<close> of the cluster is kept by a program when it is the same before and after, whatever
  the program ends with.
\<close>

definition keeps_part :: "('w \<Rightarrow> cluster) \<Rightarrow> (cluster \<Rightarrow> 'b) \<Rightarrow> ('w, 'a) go \<Rightarrow> bool" where
  "keeps_part view p m \<longleftrightarrow> go_keeps (\<lambda>s t. p (view t) = p (view s)) m"

lemma keeps_partD: "keeps_part view p m \<Longrightarrow> m w = (r, w') \<Longrightarrow> p (view w') = p (view w)"
  unfolding keeps_part_def by (drule (1) go_keepsD)

lemma keeps_part_snd: "keeps_part view p m \<Longrightarrow> p (view (snd (m w))) = p (view w)"
  by (metis keeps_partD prod.collapse)

lemma keeps_partI: "(\<And>w r w'. m w = (r, w') \<Longrightarrow> p (view w') = p (view w)) \<Longrightarrow> keeps_part view p m"
  unfolding keeps_part_def by (rule go_keepsI)

lemma keeps_part_return [go_frame]: "keeps_part view p (go_return x)"
  by (rule keeps_partI) simp

lemma keeps_part_pure [go_frame]: "keeps_part view p (go_pure x)"
  by (rule keeps_partI) simp

lemma keeps_part_bind [go_frame]:
  "keeps_part view p m \<Longrightarrow> (\<And>x. keeps_part view p (f x)) \<Longrightarrow> keeps_part view p (go_bind m f)"
  unfolding keeps_part_def by (rule go_keeps_bind) (auto simp: transp_def)

lemma keeps_part_check [go_frame]:
  "keeps_part view p m \<Longrightarrow> (\<And>e. keeps_part view p (h e)) \<Longrightarrow> keeps_part view p k \<Longrightarrow>
     keeps_part view p (go_check m h k)"
  unfolding keeps_part_def by (rule go_keeps_check) (auto simp: transp_def)

lemma keeps_part_try [go_frame]:
  "keeps_part view p m \<Longrightarrow> (\<And>e. keeps_part view p (h e)) \<Longrightarrow> (\<And>x. keeps_part view p (k x)) \<Longrightarrow>
     keeps_part view p (go_try m h k)"
  unfolding keeps_part_def by (rule go_keeps_try) (auto simp: transp_def)

lemma keeps_part_if [go_frame]:
  "keeps_part view p m \<Longrightarrow> keeps_part view p n \<Longrightarrow> keeps_part view p (if b then m else n)"
  by simp

lemma keeps_part_sum [go_frame]:
  "(\<And>e. keeps_part view p (f e)) \<Longrightarrow> (\<And>x. keeps_part view p (g x)) \<Longrightarrow>
     keeps_part view p (case r of Inl e \<Rightarrow> f e | Inr x \<Rightarrow> g x)"
  by (simp split: sum.splits)

lemma keeps_part_event [go_frame]:
  "reconciler_contract view R \<Longrightarrow> keeps_part view p (r_event R i ty re msg err)"
  by (rule keeps_partI) (auto dest: r_event_eq_Ret)

context stored_kind
begin

lemma keeps_part_get:
  "get_contract view ops ks kc \<Longrightarrow> keeps_part view p (r_get kc key)"
  by (rule keeps_partI) (metis get_contractD(1) prod.collapse r_get_def go_call_apply snd_conv)

text \<open>A part that does not depend on this kind, or on this object of the kind.\<close>

lemma keeps_part_update:
  assumes "update_contract view ops ks kc"
    and "\<And>c v. p (ks_map ks (\<lambda>m. m(object_key ops x := v)) c) = p c"
  shows "keeps_part view p (r_update kc x)"
proof (rule keeps_partI)
  fix w r w' assume run: "r_update kc x w = (r, w')"
  obtain u where u: "kc_update kc x w = (u, w')" using run by (auto simp: r_update_def prod_eq_iff)
  show "p (view w') = p (view w)"
    using update_contractD(1,4) [OF assms(1) u] assms(2) by (cases u) auto
qed

lemma keeps_part_create:
  assumes "create_contract view ops ks kc"
    and "\<And>c v. p (ks_map ks (\<lambda>m. m(object_key ops x := v)) c) = p c"
  shows "keeps_part view p (r_create kc x)"
proof (rule keeps_partI)
  fix w r w' assume run: "r_create kc x w = (r, w')"
  obtain u where u: "kc_create kc x w = (u, w')" using run by (auto simp: r_create_def prod_eq_iff)
  show "p (view w') = p (view w)"
    using assms u unfolding create_contract_def by (cases u) (metis, metis)
qed

end

end
