(* ===== verification/Cron_Strategies.thy ===== *)
theory Cron_Strategies
  imports Reconciler
begin

text \<open>
  \<open>src/pkg/controllers/cron_strategies.go\<close>: the cron jobs that run kidlectl at the scheduled times,
  and the service account, role and role binding they run with. One definition per function of the
  file; the two halves of \<open>ReconcileCronStrategies\<close>, which differ in the command only, are
  \<open>reconcileCron\<close>, and the three thirds of \<open>createRBAC\<close> are definitions of their own.
\<close>

section \<open>Names and values\<close>

definition CronJobContainerName :: string where
  "CronJobContainerName = ''kidlectl''"

definition CommandIdle :: string where
  "CommandIdle = ''idle''"

definition CommandWakeup :: string where
  "CommandWakeup = ''wakeup''"

record CronJobValues =
  cv_key :: namespaced_name
  cv_instanceName :: string
  cv_strategy :: CronStrategy
  cv_command :: string

definition getSaName :: "string \<Rightarrow> string outcome" where
  "getSaName instanceName = ToDNSName ''kidle'' instanceName ''sa''"

section \<open>The cron job object\<close>

definition NewCronJob :: "namespaced_name \<Rightarrow> cronjob" where
  "NewCronJob key =
     \<lparr> cj_TypeMeta = \<lparr> tm_Kind = ''CronJob'', tm_APIVersion = ''batch/v1beta1'' \<rparr>,
       cj_meta = ObjectMeta (nn_Namespace key) (nn_Name key),
       cj_Schedule = '''', cj_Suspend = None, cj_ServiceAccountName = '''',
       cj_RestartPolicy = ''OnFailure'',
       cj_Containers = [zero_container\<lparr> c_Name := CronJobContainerName \<rparr>],
       cj_rest = '''' \<rparr>"

definition cronJobNeedChanges :: "'w reconciler \<Rightarrow> cronjob \<Rightarrow> CronJobValues \<Rightarrow> bool outcome" where
  "cronJobNeedChanges R cronJob cjValues =
     bind_outcome (getSaName (cv_instanceName cjValues)) (\<lambda>sa.
       if cj_ServiceAccountName cronJob \<noteq> sa then Ret True
       else if ptr_differs_from_new (cj_Suspend cronJob) False then Ret True
       else if cj_Schedule cronJob \<noteq> cs_Schedule (cv_strategy cjValues) then Ret True
       else
         let container = container_at (ContainersToMap (cj_Containers cronJob)) CronJobContainerName
         in if c_Image container \<noteq> rc_KidlectlImage R then Ret True
            else if length (c_Args container) \<noteq> 2 \<or>
                    c_Args container ! 0 \<noteq> cv_command cjValues \<or>
                    c_Args container ! 1 \<noteq> nn_Name (cv_key cjValues) then Ret True
            else Ret False)"

definition setCronjobValues :: "'w reconciler \<Rightarrow> cronjob \<Rightarrow> CronJobValues \<Rightarrow> cronjob outcome" where
  "setCronjobValues R cronJob cjValues =
     bind_outcome (getSaName (cv_instanceName cjValues)) (\<lambda>sa.
       let container0 = container_at (ContainersToMap (cj_Containers cronJob)) CronJobContainerName;
           container = container0\<lparr> c_Image := rc_KidlectlImage R,
                                   c_Args := [cv_command cjValues, cv_instanceName cjValues] \<rparr>
       in Ret (cronJob\<lparr> cj_ServiceAccountName := sa,
                        cj_Suspend := Some False,
                        cj_Schedule := cs_Schedule (cv_strategy cjValues),
                        cj_Containers := SetContainer (cj_Containers cronJob) container \<rparr>))"

definition createOrUpdateCronJob ::
  "'w reconciler \<Rightarrow> IdlingResource \<Rightarrow> CronJobValues \<Rightarrow> ('w, go_error option) go"
  where
  "createOrUpdateCronJob R instance cjValues =
     go_bind (r_get (rc_CronJobs R) (cv_key cjValues)) (\<lambda>got. case got of
       Inl err \<Rightarrow>
         if IsNotFound err then
           go_bind (go_pure (setCronjobValues R (NewCronJob (cv_key cjValues)) cjValues)) (\<lambda>cj.
             case rc_SetControllerReference R instance (cj_meta cj) of
               Inl err \<Rightarrow> go_return (Some (Errorf ''unable to set controller reference for cronJob'' err))
             | Inr m \<Rightarrow>
                 go_try (r_create (rc_CronJobs R) (cj\<lparr> cj_meta := m \<rparr>))
                   (\<lambda>err. go_return (Some (Errorf ''unable to create cronJob'' err)))
                   (\<lambda>_. go_return None))
         else go_return (Some (Errorf ''unable to get cronJob'' err))
     | Inr cronJob \<Rightarrow>
         go_bind (go_pure (cronJobNeedChanges R cronJob cjValues)) (\<lambda>changes.
           if changes then
             go_bind (go_pure (setCronjobValues R cronJob cjValues)) (\<lambda>cj.
               go_try (r_update (rc_CronJobs R) cj)
                 (\<lambda>err. go_return (Some (Errorf ''unable to update cronJob'' err)))
                 (\<lambda>_. go_return None))
           else go_return None))"

section \<open>Access control\<close>

definition createRBAC_serviceAccount ::
  "'w reconciler \<Rightarrow> IdlingResource \<Rightarrow> ('w, go_error + service_account) go"
  where
  "createRBAC_serviceAccount R instance =
     go_bind (go_pure (getSaName (om_Name (ir_meta instance)))) (\<lambda>saName.
     go_bind (r_get (rc_ServiceAccounts R)
                \<lparr> nn_Namespace = om_Namespace (ir_meta instance), nn_Name = saName \<rparr>) (\<lambda>got. case got of
       Inr sa \<Rightarrow> go_return (Inr sa)
     | Inl err \<Rightarrow>
         if IsNotFound err then
           (let sa = \<lparr> sa_meta = ObjectMeta (om_Namespace (ir_meta instance)) saName, sa_rest = '''' \<rparr>
            in case rc_SetControllerReference R instance (sa_meta sa) of
                 Inl err \<Rightarrow> go_return (Inl (Errorf ''unable to set controller reference for sa'' err))
               | Inr m \<Rightarrow>
                   go_try (r_create (rc_ServiceAccounts R) (sa\<lparr> sa_meta := m \<rparr>))
                     (\<lambda>err. go_return (Inl (Errorf ''unable to create sa'' err)))
                     (\<lambda>sa. go_return (Inr sa)))
         else go_return (Inl (Errorf ''unable to get sa'' err))))"

definition policyRule :: "IdlingResource \<Rightarrow> policy_rule" where
  "policyRule instance =
     \<lparr> pr_Verbs = [''get'', ''patch'', ''update''],
       pr_APIGroups = [''kidle.kidle.dev''],
       pr_Resources = [''idlingresources''],
       pr_ResourceNames = [om_Name (ir_meta instance)] \<rparr>"

text \<open>\<open>role.Rules[0] = policyRule\<close>\<close>

definition set_first_rule :: "role \<Rightarrow> policy_rule \<Rightarrow> role outcome" where
  "set_first_rule r rule =
     (case r_Rules r of [] \<Rightarrow> Panic IndexOutOfRange | _ # rules \<Rightarrow> Ret (r\<lparr> r_Rules := rule # rules \<rparr>))"

definition createRBAC_role :: "'w reconciler \<Rightarrow> IdlingResource \<Rightarrow> ('w, go_error + role) go" where
  "createRBAC_role R instance =
     go_bind (go_pure (ToDNSName ''kidle'' (om_Name (ir_meta instance)) ''role'')) (\<lambda>roleName.
     go_bind (r_get (rc_Roles R)
                \<lparr> nn_Namespace = om_Namespace (ir_meta instance), nn_Name = roleName \<rparr>) (\<lambda>got. case got of
       Inl err \<Rightarrow>
         if IsNotFound err then
           (let role = \<lparr> r_meta = ObjectMeta (om_Namespace (ir_meta instance)) roleName,
                         r_Rules = [policyRule instance] \<rparr>
            in case rc_SetControllerReference R instance (r_meta role) of
                 Inl err \<Rightarrow> go_return (Inl (Errorf ''unable to set controller reference for role'' err))
               | Inr m \<Rightarrow>
                   go_try (r_create (rc_Roles R) (role\<lparr> r_meta := m \<rparr>))
                     (\<lambda>err. go_return (Inl (Errorf ''unable to create role'' err)))
                     (\<lambda>role. go_return (Inr role)))
         else go_return (Inl (Errorf ''unable to get role'' err))
     | Inr role \<Rightarrow>
         go_bind (go_pure (set_first_rule role (policyRule instance))) (\<lambda>role.
           go_try (r_update (rc_Roles R) role)
             (\<lambda>err. go_return (Inl (Errorf ''unable to update role'' err)))
             (\<lambda>role. go_return (Inr role)))))"

definition createRBAC_roleBinding ::
  "'w reconciler \<Rightarrow> IdlingResource \<Rightarrow> service_account \<Rightarrow> role \<Rightarrow> ('w, go_error option) go"
  where
  "createRBAC_roleBinding R instance sa role =
     go_bind (go_pure (ToDNSName ''kidle'' (om_Name (ir_meta instance)) ''rb'')) (\<lambda>rbName.
     go_bind (r_get (rc_RoleBindings R)
                \<lparr> nn_Namespace = om_Namespace (ir_meta instance), nn_Name = rbName \<rparr>) (\<lambda>got. case got of
       Inl err \<Rightarrow>
         if IsNotFound err then
           (let rb = \<lparr> rb_meta = ObjectMeta (om_Namespace (ir_meta instance)) rbName,
                       rb_Subjects = [\<lparr> sub_Kind = ''ServiceAccount'', sub_Name = om_Name (sa_meta sa) \<rparr>],
                       rb_RoleRef = \<lparr> rr_APIGroup = rc_RoleGroup R role, rr_Kind = ''Role'',
                                      rr_Name = om_Name (r_meta role) \<rparr> \<rparr>
            in case rc_SetControllerReference R instance (rb_meta rb) of
                 Inl err \<Rightarrow> go_return (Some (Errorf ''unable to set controller reference for rolebinding'' err))
               | Inr m \<Rightarrow>
                   go_try (r_create (rc_RoleBindings R) (rb\<lparr> rb_meta := m \<rparr>))
                     (\<lambda>err. go_return (Some (Errorf ''unable to create rolebinding'' err)))
                     (\<lambda>_. go_return None))
         else go_return (Some (Errorf ''unable to get rolebinding'' err))
     | Inr _ \<Rightarrow> go_return None))"

definition createRBAC :: "'w reconciler \<Rightarrow> IdlingResource \<Rightarrow> ('w, go_error option) go" where
  "createRBAC R instance =
     go_try (createRBAC_serviceAccount R instance) (\<lambda>err. go_return (Some err)) (\<lambda>sa.
     go_try (createRBAC_role R instance) (\<lambda>err. go_return (Some err)) (\<lambda>role.
     createRBAC_roleBinding R instance sa role))"

section \<open>ReconcileCronStrategies\<close>

definition IgnoreNotFound :: "go_error option \<Rightarrow> go_error option" where
  "IgnoreNotFound err = (case err of None \<Rightarrow> None | Some e \<Rightarrow> if IsNotFound e then None else Some e)"

definition DeletePropagationBackground :: string where
  "DeletePropagationBackground = ''Background''"

definition reconcileCron ::
  "'w reconciler \<Rightarrow> IdlingResource \<Rightarrow> string \<Rightarrow> CronStrategy option \<Rightarrow> ('w, go_error option) go"
  where
  "reconcileCron R instance command cronStrategy =
     go_bind (go_pure (ToDNSName ''kidle'' (om_Name (ir_meta instance)) command)) (\<lambda>name.
       let key = \<lparr> nn_Namespace = om_Namespace (ir_meta instance), nn_Name = name \<rparr>
       in case cronStrategy of
            Some strategy \<Rightarrow>
              go_check (createOrUpdateCronJob R instance
                          \<lparr> cv_key = key, cv_instanceName = om_Name (ir_meta instance),
                            cv_strategy = strategy, cv_command = command \<rparr>)
                (\<lambda>err. go_bind (r_event R instance EventTypeWarning (''Creating '' @ command @ '' CronJob'')
                                  ''Failed to create CronJob: '' (Some err)) (\<lambda>_.
                        go_return (Some (Errorf (''error when creating '' @ command @ '' CronJob'') err))))
                (go_bind (r_event R instance EventTypeNormal (''Creating '' @ command @ '' CronJob'')
                            ''Created'' None) (\<lambda>_. go_return None))
          | None \<Rightarrow>
              go_try (r_get (rc_CronJobs R) key)
                (\<lambda>_. go_return None)
                (\<lambda>cronJob.
                  go_bind (r_delete (rc_CronJobs R) cronJob DeletePropagationBackground) (\<lambda>err.
                    case IgnoreNotFound err of
                      Some e \<Rightarrow>
                        go_bind (r_event R instance EventTypeWarning (''Deleting '' @ command @ '' CronJob'')
                                   ''Failed to delete CronJob: '' (Some e)) (\<lambda>_.
                          go_return (Some (Errorf (''error when deleting '' @ command @ '' CronJob'') e)))
                    | None \<Rightarrow>
                        go_bind (r_event R instance EventTypeNormal (''Deleting '' @ command @ '' CronJob'')
                                   ''Deleted'' None) (\<lambda>_. go_return None))))"

definition idle_cron :: "IdlingResource \<Rightarrow> CronStrategy option" where
  "idle_cron instance =
     (case spec_IdlingStrategy (ir_Spec instance) of None \<Rightarrow> None | Some s \<Rightarrow> is_CronStrategy s)"

definition wakeup_cron :: "IdlingResource \<Rightarrow> CronStrategy option" where
  "wakeup_cron instance =
     (case spec_WakeupStrategy (ir_Spec instance) of None \<Rightarrow> None | Some s \<Rightarrow> ws_CronStrategy s)"

definition ReconcileCronStrategies ::
  "'w reconciler \<Rightarrow> IdlingResource \<Rightarrow> ('w, reconcile_result \<times> go_error option) go"
  where
  "ReconcileCronStrategies R instance =
     go_check (createRBAC R instance)
       (\<lambda>err. go_bind (r_event R instance EventTypeWarning ''Adding RBAC'' ''Failed to add RBAC: '' (Some err))
                (\<lambda>_. go_return (no_requeue, Some (Errorf ''error when adding RBAC'' err))))
       (go_check (reconcileCron R instance CommandIdle (idle_cron instance))
         (\<lambda>err. go_return (no_requeue, Some err))
         (go_check (reconcileCron R instance CommandWakeup (wakeup_cron instance))
           (\<lambda>err. go_return (no_requeue, Some err))
           (go_return (no_requeue, None))))"

end
