(* ===== verification/Controller.thy ===== *)
theory Controller
  imports Deployment_Idler StatefulSet_Idler CronJob_Idler Cron_Strategies
begin

text \<open>
  \<open>src/pkg/controllers/idlingresource_controller.go\<close>: the reconcile loop. \<open>Reconcile\<close> is one run of
  it for the instance of a request, \<open>ReconcileWithIdler\<close> the part that drives the workload through
  the interface \<open>Idler\<close>, \<open>addFinalizer\<close> and \<open>removeFinalizer\<close> the updates of the instance. The
  instance in memory is passed on and returned where the code changes it through its pointer.
\<close>

section \<open>The finalizer\<close>

definition set_finalizers :: "IdlingResource \<Rightarrow> string list \<Rightarrow> IdlingResource" where
  "set_finalizers instance fs = instance\<lparr> ir_meta := (ir_meta instance)\<lparr> om_Finalizers := fs \<rparr> \<rparr>"

text \<open>The instance in memory after the call, and the error.\<close>

definition addFinalizer ::
  "'w reconciler \<Rightarrow> IdlingResource \<Rightarrow> ('w, IdlingResource \<times> go_error option) go"
  where
  "addFinalizer R instance0 =
     (let instance = set_finalizers instance0
            (rc_AddFinalizer R (om_Finalizers (ir_meta instance0)) IdlingResourceFinalizerName)
      in go_try (r_update (rc_IdlingResources R) instance)
           (\<lambda>err. go_return (instance, Some (Errorf ''failed to update idling resource finalizer'' err)))
           (\<lambda>instance. go_return (instance, None)))"

definition removeFinalizer :: "'w reconciler \<Rightarrow> IdlingResource \<Rightarrow> ('w, go_error option) go" where
  "removeFinalizer R instance0 =
     (if ContainsString (om_Finalizers (ir_meta instance0)) IdlingResourceFinalizerName
      then
        (let instance = set_finalizers instance0
               (rc_RemoveFinalizer R (om_Finalizers (ir_meta instance0)) IdlingResourceFinalizerName)
         in go_try (r_update (rc_IdlingResources R) instance)
              (\<lambda>err. go_return (Some (Errorf ''error when removing idling resource finalizer'' err)))
              (\<lambda>_. go_return None))
      else go_return None)"

section \<open>Driving the workload\<close>

definition ref_of :: "IdlingResource \<Rightarrow> CrossVersionObjectReference" where
  "ref_of instance = spec_IdlingResourceRef (ir_Spec instance)"

text \<open>The event after a wakeup: a number of replicas, or none for a CronJob.\<close>

definition wakeup_event ::
  "'w reconciler \<Rightarrow> IdlingResource \<Rightarrow> int32 option \<Rightarrow> ('w, unit) go"
  where
  "wakeup_event R instance replicas =
     (case replicas of
        Some n \<Rightarrow> r_event R instance EventTypeNormal (''Scaling'' @ ref_Kind (ref_of instance))
                    (''Scaled to '' @ Itoa (sint n)) None
      | None \<Rightarrow> r_event R instance EventTypeNormal (''Scaling'' @ ref_Kind (ref_of instance))
                    ''WakedUp'' None)"

definition reconcileDeletion ::
  "'w reconciler \<Rightarrow> IdlingResource \<Rightarrow> ('w, 'o) idler \<Rightarrow> ('w \<times> 'o, reconcile_result \<times> go_error option) go"
  where
  "reconcileDeletion R instance idler =
     (let kind = ref_Kind (ref_of instance); name = ref_Name (ref_of instance) in
      go_try (Wakeup idler)
        (\<lambda>err. go_bind (go_outer (r_event R instance EventTypeWarning (''Restoring'' @ kind)
                   (''Failed to restore '' @ kind @ '' '' @ name @ '': '') (Some err)))
           (\<lambda>_. go_return (no_requeue, Some (Errorf ''error during restoring'' err))))
        (\<lambda>replicas. go_bind (go_outer (wakeup_event R instance replicas)) (\<lambda>_.
          go_check (RemoveAnnotations idler)
            (\<lambda>err. go_bind (go_outer (r_event R instance EventTypeWarning ''removing annotations''
                       ''Failed to remove annotations: '' (Some err)))
               (\<lambda>_. go_return (no_requeue, Some (Errorf ''error when removing annotations'' err))))
            (go_bind (go_outer (r_event R instance EventTypeNormal ''Deleted''
                        (''Kidle annotations on '' @ kind @ '' are deleted'') None)) (\<lambda>_.
              go_check (go_outer (removeFinalizer R instance))
                (\<lambda>err. go_bind (go_outer (r_event R instance EventTypeWarning ''deleting finalizer''
                           ''Failed to delete finalizer: '' (Some err)))
                   (\<lambda>_. go_return (no_requeue, Some (Errorf ''error when deleting finalizer'' err))))
                (go_bind (go_outer (r_event R instance EventTypeNormal ''Deleted''
                            ''Object finalizer is deleted'' None))
                   (\<lambda>_. go_return (no_requeue, None))))))))"

definition reconcileWakeup ::
  "'w reconciler \<Rightarrow> IdlingResource \<Rightarrow> ('w, 'o) idler \<Rightarrow> ('w \<times> 'o, reconcile_result \<times> go_error option) go"
  where
  "reconcileWakeup R instance idler =
     (let kind = ref_Kind (ref_of instance); name = ref_Name (ref_of instance) in
      go_try (Wakeup idler)
        (\<lambda>err. go_bind (go_outer (r_event R instance EventTypeWarning (''Scaling'' @ kind)
                   (''Failed to wake up '' @ kind @ '' '' @ name @ '': '') (Some err)))
           (\<lambda>_. go_return (no_requeue, Some (Errorf ''error during waking up'' err))))
        (\<lambda>replicas. go_bind (go_outer (wakeup_event R instance replicas)) (\<lambda>_.
           go_return (no_requeue, None))))"

definition reconcileIdle ::
  "'w reconciler \<Rightarrow> IdlingResource \<Rightarrow> ('w, 'o) idler \<Rightarrow> ('w \<times> 'o, reconcile_result \<times> go_error option) go"
  where
  "reconcileIdle R instance idler =
     (let kind = ref_Kind (ref_of instance); name = ref_Name (ref_of instance) in
      go_check (Idle idler)
        (\<lambda>err. go_bind (go_outer (r_event R instance EventTypeWarning (''Scaling'' @ kind)
                   (''Failed to idle '' @ kind @ '' '' @ name @ '': '') (Some err)))
           (\<lambda>_. go_return (no_requeue, Some (Errorf ''error during idling'' err))))
        (go_bind (go_outer (r_event R instance EventTypeNormal (''Scaling'' @ kind) ''Scaled to 0'' None))
           (\<lambda>_. go_return (no_requeue, None))))"

text \<open>The object the idler points to, read where the guards need it.\<close>

definition on_object :: "('o \<Rightarrow> 'b outcome) \<Rightarrow> ('w \<times> 'o, 'b) go" where
  "on_object f = (\<lambda>(w, x). (f x, (w, x)))"

definition ReconcileWithIdler ::
  "'w reconciler \<Rightarrow> IdlingResource \<Rightarrow> ('w, 'o) idler \<Rightarrow> ('w \<times> 'o, reconcile_result \<times> go_error option) go"
  where
  "ReconcileWithIdler R instance idler =
     go_check (SetReference idler (om_Name (ir_meta instance)))
       (\<lambda>err. go_return (no_requeue, Some (Errorf ''error during adding annotation'' err)))
       (if IsBeingDeleted instance then reconcileDeletion R instance idler
        else go_bind (on_object (NeedWakeup idler instance)) (\<lambda>needWakeup.
             if needWakeup then reconcileWakeup R instance idler
             else go_bind (on_object (NeedIdle idler instance)) (\<lambda>needIdle.
                  if needIdle then reconcileIdle R instance idler
                  else go_return (no_requeue, None))))"

definition reconcileResourceNotFound ::
  "'w reconciler \<Rightarrow> IdlingResource \<Rightarrow> go_error \<Rightarrow> ('w, reconcile_result \<times> go_error option) go"
  where
  "reconcileResourceNotFound R instance err =
     (if IsNotFound err then
        (if IsBeingDeleted instance then
           go_check (removeFinalizer R instance)
             (\<lambda>err. go_return (no_requeue, Some (Errorf ''error when deleting finalizer'' err)))
             (go_return (no_requeue, None))
         else go_return (no_requeue\<lparr> res_RequeueAfter := 2 * second \<rparr>, None))
      else go_return (no_requeue, Some (Errorf (''unable to read '' @ ref_Kind (ref_of instance)) err)))"

section \<open>Reconcile\<close>

definition reconcileFinalizer ::
  "'w reconciler \<Rightarrow> IdlingResource \<Rightarrow> ('w, go_error + IdlingResource) go"
  where
  "reconcileFinalizer R instance =
     (if \<not> HasFinalizer instance IdlingResourceFinalizerName
      then go_bind (addFinalizer R instance) (\<lambda>(instance, err). case err of
             Some err \<Rightarrow>
               go_bind (r_event R instance EventTypeWarning ''Adding finalizer''
                          ''Failed to add finalizer: '' (Some err))
                 (\<lambda>_. go_return (Inl (Errorf ''error when adding finalizer'' err)))
           | None \<Rightarrow>
               go_bind (r_event R instance EventTypeNormal ''Added'' ''Object finalizer is added'' None)
                 (\<lambda>_. go_return (Inr instance)))
      else go_return (Inr instance))"

text \<open>One case of the switch on the kind: read the workload, then drive it.\<close>

definition reconcileKind ::
  "'w reconciler \<Rightarrow> IdlingResource \<Rightarrow> ('w, 'o) kind_client \<Rightarrow> (('w, 'o) kind_client \<Rightarrow> ('w, 'o) idler)
     \<Rightarrow> ('w, reconcile_result \<times> go_error option) go"
  where
  "reconcileKind R instance kc New =
     (let key = \<lparr> nn_Namespace = om_Namespace (ir_meta instance), nn_Name = ref_Name (ref_of instance) \<rparr>
      in go_try (r_get kc key)
           (\<lambda>err. reconcileResourceNotFound R instance err)
           (\<lambda>x. go_local x (ReconcileWithIdler R instance (New kc))))"

definition reconcileWorkload ::
  "'w reconciler \<Rightarrow> IdlingResource \<Rightarrow> ('w, reconcile_result \<times> go_error option) go"
  where
  "reconcileWorkload R instance =
     (if ref_Kind (ref_of instance) = ''Deployment''
      then reconcileKind R instance (rc_Deployments R) NewDeploymentIdler
      else if ref_Kind (ref_of instance) = ''StatefulSet''
      then reconcileKind R instance (rc_StatefulSets R) NewStatefulSetIdler
      else if ref_Kind (ref_of instance) = ''CronJob''
      then reconcileKind R instance (rc_CronJobs R) NewCronJobIdler
      else go_return (no_requeue, None))"

definition Reconcile ::
  "'w reconciler \<Rightarrow> namespaced_name \<Rightarrow> ('w, reconcile_result \<times> go_error option) go"
  where
  "Reconcile R req =
     go_try (r_get (rc_IdlingResources R) req)
       (\<lambda>err. if IsNotFound err then go_return (no_requeue, None)
               else go_return (no_requeue, Some err))
       (\<lambda>instance.
         go_try (reconcileFinalizer R instance)
           (\<lambda>err. go_return (no_requeue, Some err))
           (\<lambda>instance.
             go_bind (ReconcileCronStrategies R instance) (\<lambda>(result, err). case err of
               Some err \<Rightarrow> go_return (result, Some err)
             | None \<Rightarrow> reconcileWorkload R instance)))"

end
