(* ===== verification/Frame.thy ===== *)
theory Frame
  imports Reconciler
begin

text \<open>
  Which objects a program may write, without saying what a world is. A relation \<open>rel\<close> between worlds,
  reflexive and transitive, is kept by a program when it holds between the worlds before and after;
  \<open>calls_keep rel ops K kc\<close> says that the calls of a client keep it as long as they write only objects
  with a key in \<open>K\<close>. So what a program keeps is proved once, for the worlds of \<open>KubeApi\<close>, in which
  nobody else acts during a run, and for the histories of \<open>Interleaving\<close>, in which everybody does.
\<close>

section \<open>The objects of the cluster\<close>

datatype slot =
    DeploymentSlot namespaced_name
  | StatefulSetSlot namespaced_name
  | CronJobSlot namespaced_name
  | IdlingResourceSlot namespaced_name
  | ServiceAccountSlot namespaced_name
  | RoleSlot namespaced_name
  | RoleBindingSlot namespaced_name

section \<open>Clients\<close>

definition calls_keep ::
  "('w \<Rightarrow> 'w \<Rightarrow> bool) \<Rightarrow> 'o object_ops \<Rightarrow> namespaced_name set \<Rightarrow> ('w, 'o) kind_client \<Rightarrow> bool"
  where
  "calls_keep rel ops K kc \<longleftrightarrow>
     (\<forall>key w r w'. kc_get kc key w = (r, w') \<longrightarrow> rel w w' \<and> (\<forall>x. r = Inr x \<longrightarrow> object_key ops x = key)) \<and>
     (\<forall>x w r w'. object_key ops x \<in> K \<longrightarrow> kc_update kc x w = (r, w') \<longrightarrow>
        rel w w' \<and> (\<forall>y. r = Inr y \<longrightarrow> (\<exists>v g. y = stamp ops v g x))) \<and>
     (\<forall>x w r w'. object_key ops x \<in> K \<longrightarrow> kc_create kc x w = (r, w') \<longrightarrow> rel w w') \<and>
     (\<forall>x policy w r w'. object_key ops x \<in> K \<longrightarrow> kc_delete kc x policy w = (r, w') \<longrightarrow> rel w w') \<and>
     retry_contract kc"

lemma calls_keepI:
  assumes "\<And>key w r w'. kc_get kc key w = (r, w') \<Longrightarrow> rel w w'"
    and "\<And>key w x w'. kc_get kc key w = (Inr x, w') \<Longrightarrow> object_key ops x = key"
    and "\<And>x w r w'. object_key ops x \<in> K \<Longrightarrow> kc_update kc x w = (r, w') \<Longrightarrow> rel w w'"
    and "\<And>x w y w'. object_key ops x \<in> K \<Longrightarrow> kc_update kc x w = (Inr y, w') \<Longrightarrow> \<exists>v g. y = stamp ops v g x"
    and "\<And>x w r w'. object_key ops x \<in> K \<Longrightarrow> kc_create kc x w = (r, w') \<Longrightarrow> rel w w'"
    and "\<And>x policy w r w'. object_key ops x \<in> K \<Longrightarrow> kc_delete kc x policy w = (r, w') \<Longrightarrow> rel w w'"
    and "retry_contract kc"
  shows "calls_keep rel ops K kc"
  unfolding calls_keep_def using assms by blast

lemma calls_keep_get: "calls_keep rel ops K kc \<Longrightarrow> go_keeps rel (r_get kc key)"
  by (rule go_keepsI) (auto simp: calls_keep_def r_get_def go_call_def split: prod.splits)

lemma calls_keep_update:
  "calls_keep rel ops K kc \<Longrightarrow> object_key ops x \<in> K \<Longrightarrow> go_keeps rel (r_update kc x)"
  by (rule go_keepsI) (auto simp: calls_keep_def r_update_def go_call_def split: prod.splits)

lemma calls_keep_create:
  "calls_keep rel ops K kc \<Longrightarrow> object_key ops x \<in> K \<Longrightarrow> go_keeps rel (r_create kc x)"
  by (rule go_keepsI) (auto simp: calls_keep_def r_create_def go_call_def split: prod.splits)

lemma calls_keep_delete:
  "calls_keep rel ops K kc \<Longrightarrow> object_key ops x \<in> K \<Longrightarrow> go_keeps rel (r_delete kc x policy)"
  by (rule go_keepsI) (auto simp: calls_keep_def r_delete_def go_call_def split: prod.splits)

text \<open>A read knows the key of what it returns, an update what it returns.\<close>

lemma calls_keep_get_bind:
  assumes c: "calls_keep rel ops K kc" and rel: "transp rel"
    and f: "\<And>e. go_keeps rel (f (Inl e))" "\<And>x. object_key ops x = key \<Longrightarrow> go_keeps rel (f (Inr x))"
  shows "go_keeps rel (go_bind (r_get kc key) f)"
proof (rule go_keepsI)
  fix w r w' assume run: "go_bind (r_get kc key) f w = (r, w')"
  obtain g u where get: "kc_get kc key w = (g, u)" by fastforce
  then have g: "rel w u" "\<And>x. g = Inr x \<Longrightarrow> object_key ops x = key"
    using c unfolding calls_keep_def by blast+
  have "go_keeps rel (f g)" using f g(2) by (cases g) auto
  moreover have "f g u = (r, w')" using run get by (simp add: r_get_def go_bind_def)
  ultimately have "rel u w'" by (rule go_keepsD)
  with g(1) rel show "rel w w'" by (blast dest: transpD)
qed

lemma calls_keep_get_try:
  assumes "calls_keep rel ops K kc" "transp rel"
    and "\<And>e. go_keeps rel (h e)" "\<And>x. object_key ops x = key \<Longrightarrow> go_keeps rel (f x)"
  shows "go_keeps rel (go_try (r_get kc key) h f)"
  unfolding go_try_def by (rule calls_keep_get_bind [OF assms(1,2)]) (simp_all add: assms(3,4))

lemma go_keeps_pure_bind:
  "reflp rel \<Longrightarrow> (\<And>x. m = Ret x \<Longrightarrow> go_keeps rel (f x)) \<Longrightarrow> go_keeps rel (go_bind (go_pure m) f)"
  by (cases m) (auto intro: go_keeps_pure)

section \<open>The reconciler\<close>

definition reconciler_keeps :: "('w \<Rightarrow> 'w \<Rightarrow> bool) \<Rightarrow> slot set \<Rightarrow> 'w reconciler \<Rightarrow> bool" where
  "reconciler_keeps rel S R \<longleftrightarrow>
     reflp rel \<and> transp rel \<and>
     calls_keep rel Deployments {k. DeploymentSlot k \<in> S} (rc_Deployments R) \<and>
     calls_keep rel StatefulSets {k. StatefulSetSlot k \<in> S} (rc_StatefulSets R) \<and>
     calls_keep rel CronJobs {k. CronJobSlot k \<in> S} (rc_CronJobs R) \<and>
     calls_keep rel IdlingResources {k. IdlingResourceSlot k \<in> S} (rc_IdlingResources R) \<and>
     calls_keep rel ServiceAccounts {k. ServiceAccountSlot k \<in> S} (rc_ServiceAccounts R) \<and>
     calls_keep rel Roles {k. RoleSlot k \<in> S} (rc_Roles R) \<and>
     calls_keep rel RoleBindings {k. RoleBindingSlot k \<in> S} (rc_RoleBindings R) \<and>
     (\<forall>ev w. rel w (rc_Event R ev w)) \<and>
     controllerutil_contract R"

lemma reconciler_keepsD:
  assumes "reconciler_keeps rel S R"
  shows "reflp rel" "transp rel" "controllerutil_contract R"
    "calls_keep rel Deployments {k. DeploymentSlot k \<in> S} (rc_Deployments R)"
    "calls_keep rel StatefulSets {k. StatefulSetSlot k \<in> S} (rc_StatefulSets R)"
    "calls_keep rel CronJobs {k. CronJobSlot k \<in> S} (rc_CronJobs R)"
    "calls_keep rel IdlingResources {k. IdlingResourceSlot k \<in> S} (rc_IdlingResources R)"
    "calls_keep rel ServiceAccounts {k. ServiceAccountSlot k \<in> S} (rc_ServiceAccounts R)"
    "calls_keep rel Roles {k. RoleSlot k \<in> S} (rc_Roles R)"
    "calls_keep rel RoleBindings {k. RoleBindingSlot k \<in> S} (rc_RoleBindings R)"
  using assms by (simp_all add: reconciler_keeps_def)

text \<open>The rules for the programs of a reconciler, with the two laws of the relation discharged.\<close>

lemma frame_rules:
  assumes "reconciler_keeps rel S R"
  shows "go_keeps rel (go_return x)" "go_keeps rel (go_pure q)"
    and "go_keeps rel m \<Longrightarrow> (\<And>x. go_keeps rel (f x)) \<Longrightarrow> go_keeps rel (go_bind m f)"
    and "go_keeps rel c \<Longrightarrow> (\<And>e. go_keeps rel (h e)) \<Longrightarrow> go_keeps rel k \<Longrightarrow> go_keeps rel (go_check c h k)"
    and "go_keeps rel t \<Longrightarrow> (\<And>e. go_keeps rel (h e)) \<Longrightarrow> (\<And>x. go_keeps rel (n x)) \<Longrightarrow> go_keeps rel (go_try t h n)"
    and "go_keeps rel a \<Longrightarrow> go_keeps rel b \<Longrightarrow> go_keeps rel (if p then a else b)"
    and "go_keeps rel (r_event R i type reason message err)"
  using reconciler_keepsD(1,2) [OF assms]
  by (auto intro: go_keeps_return go_keeps_pure go_keeps_bind go_keeps_check go_keeps_try)
    (use assms in \<open>auto simp: reconciler_keeps_def r_event_def intro!: go_keepsI\<close>)

section \<open>Worlds in which nobody else acts\<close>

text \<open>The objects that a part of the cluster does not depend on.\<close>

fun independent :: "(cluster \<Rightarrow> 'b) \<Rightarrow> slot \<Rightarrow> bool" where
  "independent p (DeploymentSlot k) \<longleftrightarrow> (\<forall>c v. p (cl_Deployments_update (\<lambda>m. m(k := v)) c) = p c)"
| "independent p (StatefulSetSlot k) \<longleftrightarrow> (\<forall>c v. p (cl_StatefulSets_update (\<lambda>m. m(k := v)) c) = p c)"
| "independent p (CronJobSlot k) \<longleftrightarrow> (\<forall>c v. p (cl_CronJobs_update (\<lambda>m. m(k := v)) c) = p c)"
| "independent p (IdlingResourceSlot k) \<longleftrightarrow> (\<forall>c v. p (cl_IdlingResources_update (\<lambda>m. m(k := v)) c) = p c)"
| "independent p (ServiceAccountSlot k) \<longleftrightarrow> (\<forall>c v. p (cl_ServiceAccounts_update (\<lambda>m. m(k := v)) c) = p c)"
| "independent p (RoleSlot k) \<longleftrightarrow> (\<forall>c v. p (cl_Roles_update (\<lambda>m. m(k := v)) c) = p c)"
| "independent p (RoleBindingSlot k) \<longleftrightarrow> (\<forall>c v. p (cl_RoleBindings_update (\<lambda>m. m(k := v)) c) = p c)"

context stored_kind
begin

lemma calls_keep_part:
  assumes contract: "kind_contract view ops ks kc"
    and p: "\<And>k c v. k \<in> K \<Longrightarrow> p (ks_map ks (\<lambda>m. m(k := v)) c) = p c"
  shows "calls_keep (\<lambda>s t. p (view t) = p (view s)) ops K kc"
proof (rule calls_keepI)
  have gc: "get_contract view ops ks kc" and uc: "update_contract view ops ks kc"
    and cc: "create_contract view ops ks kc" and dc: "delete_contract view ops ks kc"
    using contract by (simp_all add: kind_contract_def)
  show "retry_contract kc" using contract by (simp add: kind_contract_def)
  show "p (view w') = p (view w)" if "kc_get kc key w = (r, w')" for key w r w'
    using get_contractD(1) [OF gc that] by simp
  show "object_key ops x = key" if "kc_get kc key w = (Inr x, w')" for key w x w'
    using get_contractD(2) [OF gc that] by simp
  show "p (view w') = p (view w)" if "object_key ops x \<in> K" "kc_update kc x w = (r, w')" for x w r w'
    using update_contractD(1,4) [OF uc that(2)] p [OF that(1)] by (cases r) auto
  show "\<exists>v g. y = stamp ops v g x" if "kc_update kc x w = (Inr y, w')" for x w y w'
    using update_contractD(2) [OF uc that] by blast
  show "p (view w') = p (view w)" if "object_key ops x \<in> K" "kc_create kc x w = (r, w')" for x w r w'
    using cc that p [OF that(1)] unfolding create_contract_def by (cases r) (metis, metis)
  show "p (view w') = p (view w)" if "object_key ops x \<in> K" "kc_delete kc x pol w = (r, w')" for x pol w r w'
    using delete_contractD(1,3) [OF dc that(2)] p [OF that(1)] by (cases r) auto
qed

end

lemma reconciler_keeps_part:
  assumes "reconciler_contract view R"
  shows "reconciler_keeps (\<lambda>s t. p (view t) = p (view s)) (Collect (independent p)) R"
  using assms unfolding reconciler_contract_def reconciler_keeps_def mem_Collect_eq
  by (auto simp: reflp_def transp_def store_defs intro!: dk.calls_keep_part sk.calls_keep_part ck.calls_keep_part
      ik.calls_keep_part ak.calls_keep_part rk.calls_keep_part bk.calls_keep_part)

lemma keeps_part_frame:
  "go_keeps (\<lambda>s t. p (view t) = p (view s)) m \<Longrightarrow> keeps_part view p m"
  by (simp add: keeps_part_def)

end
