(* ===== verification/Cron_Facts.thy ===== *)
theory Cron_Facts
  imports Cron_Strategies Frame
begin

text \<open>
  What \<open>ReconcileCronStrategies\<close> does to the cluster: it touches the service account, the role, the
  role binding and the two cron jobs of the instance and nothing else, whatever it ends with; and
  when it returns without an error, the objects the cron jobs run with exist and each cron job is
  there exactly when its strategy is set, with the values the strategy asks for.
\<close>

section \<open>Keys\<close>

definition instance_key :: "IdlingResource \<Rightarrow> string \<Rightarrow> namespaced_name" where
  "instance_key instance name = \<lparr> nn_Namespace = om_Namespace (ir_meta instance), nn_Name = name \<rparr>"

text \<open>The key of the object kidle makes for an instance with a suffix.\<close>

definition owned_key :: "IdlingResource \<Rightarrow> string \<Rightarrow> namespaced_name" where
  "owned_key instance suffix =
     (case ToDNSName ''kidle'' (om_Name (ir_meta instance)) suffix of
        Ret name \<Rightarrow> instance_key instance name | Panic _ \<Rightarrow> instance_key instance '''')"

lemma namespaced_name_eta [simp]: "\<lparr> nn_Namespace = nn_Namespace k, nn_Name = nn_Name k \<rparr> = k"
  by simp

lemma owned_name:
  assumes "suffix \<in> set kidle_suffixes"
  shows "ToDNSName ''kidle'' (om_Name (ir_meta instance)) suffix = Ret (nn_Name (owned_key instance suffix))"
proof -
  obtain s where "ToDNSName ''kidle'' (om_Name (ir_meta instance)) suffix = Ret s"
    using assms by (rule ToDNSName_kidle)
  then show ?thesis by (simp add: owned_key_def instance_key_def)
qed

lemma owned_namespace [simp]: "nn_Namespace (owned_key instance suffix) = om_Namespace (ir_meta instance)"
  by (simp add: owned_key_def instance_key_def split: outcome.splits)

lemma owned_key_eq [simp]:
  "\<lparr> nn_Namespace = om_Namespace (ir_meta instance), nn_Name = nn_Name (owned_key instance suffix) \<rparr>
     = owned_key instance suffix"
  by (rule namespaced_name.equality) simp_all

lemma kidle_suffix_members [simp]:
  "CommandIdle \<in> set kidle_suffixes" "CommandWakeup \<in> set kidle_suffixes"
  "''sa'' \<in> set kidle_suffixes" "''role'' \<in> set kidle_suffixes" "''rb'' \<in> set kidle_suffixes"
  by (simp_all add: kidle_suffixes_def CommandIdle_def CommandWakeup_def)

lemma idle_key_neq_wakeup_key: "owned_key instance CommandIdle \<noteq> owned_key instance CommandWakeup"
proof
  assume "owned_key instance CommandIdle = owned_key instance CommandWakeup"
  then show False
    using owned_name [of CommandIdle "instance"] owned_name [of CommandWakeup "instance"]
      ToDNSName_idle_wakeup by (metis CommandIdle_def CommandWakeup_def kidle_suffix_members(1,2))
qed

lemma getSaName_owned: "getSaName (om_Name (ir_meta instance)) = Ret (nn_Name (owned_key instance ''sa''))"
  by (simp add: getSaName_def owned_name)

section \<open>The metadata of the new objects\<close>

lemma getMeta_ops [simp]:
  "getMeta ServiceAccounts = sa_meta" "setMeta ServiceAccounts m a = a\<lparr> sa_meta := m \<rparr>"
  "getMeta Roles = r_meta" "setMeta Roles m r = r\<lparr> r_meta := m \<rparr>"
  "getMeta RoleBindings = rb_meta" "setMeta RoleBindings m b = b\<lparr> rb_meta := m \<rparr>"
  "getMeta CronJobs = cj_meta" "setMeta CronJobs m c = c\<lparr> cj_meta := m \<rparr>"
  "getMeta IdlingResources = ir_meta" "setMeta IdlingResources m i = i\<lparr> ir_meta := m \<rparr>"
  by (simp_all add: ops_defs)

lemma owner_reference:
  assumes "controllerutil_contract R" "rc_SetControllerReference R i m = Inr m'"
  shows "\<exists>os. m' = m\<lparr> om_OwnerReferences := os \<rparr>"
    and "\<exists>ref \<in> set (om_OwnerReferences m'). or_Name ref = om_Name (ir_meta i) \<and> or_Controller ref"
  using assms unfolding controllerutil_contract_def by fastforce+

lemma owner_reference_key:
  "controllerutil_contract R \<Longrightarrow> rc_SetControllerReference R i m = Inr m' \<Longrightarrow> meta_key m' = meta_key m"
  using owner_reference(1) by (fastforce simp: meta_key_def)

lemma SetControllerReference_frame:
  assumes "reconciler_contract view R" "rc_SetControllerReference R i m = Inr m'"
  shows "\<exists>os. m' = m\<lparr> om_OwnerReferences := os \<rparr>"
    and "\<exists>ref \<in> set (om_OwnerReferences m'). or_Name ref = om_Name (ir_meta i) \<and> or_Controller ref"
  using assms owner_reference unfolding reconciler_contract_def by blast+

lemma SetControllerReference_meta:
  assumes "reconciler_contract view R" "rc_SetControllerReference R i m = Inr m'"
  shows "meta_key m' = meta_key m" "om_ResourceVersion m' = om_ResourceVersion m"
    "meta_deleting m' = meta_deleting m"
  using SetControllerReference_frame(1) [OF assms] by (auto simp: meta_key_def meta_deleting_def)

lemma meta_key_ObjectMeta [simp]:
  "meta_key (ObjectMeta ns n) = \<lparr> nn_Namespace = ns, nn_Name = n \<rparr>" "\<not> meta_deleting (ObjectMeta ns n)"
  by (simp_all add: ObjectMeta_def meta_key_def meta_deleting_def)

lemma setCronjobValues_meta: "setCronjobValues R cj v = Ret cj' \<Longrightarrow> cj_meta cj' = cj_meta cj"
  by (cases "getSaName (cv_instanceName v)") (auto simp: setCronjobValues_def Let_def)

section \<open>What the cron strategies leave alone\<close>

text \<open>
  A part of the cluster that does not depend on the objects kidle makes for the instance.
\<close>

definition apart_from_owned :: "IdlingResource \<Rightarrow> (cluster \<Rightarrow> 'b) \<Rightarrow> bool" where
  "apart_from_owned instance p \<longleftrightarrow>
     (\<forall>c v. p (cl_ServiceAccounts_update (\<lambda>m. m(owned_key instance ''sa'' := v)) c) = p c) \<and>
     (\<forall>c v. p (cl_Roles_update (\<lambda>m. m(owned_key instance ''role'' := v)) c) = p c) \<and>
     (\<forall>c v. p (cl_RoleBindings_update (\<lambda>m. m(owned_key instance ''rb'' := v)) c) = p c) \<and>
     (\<forall>command \<in> {CommandIdle, CommandWakeup}. \<forall>c v.
        p (cl_CronJobs_update (\<lambda>m. m(owned_key instance command := v)) c) = p c)"

lemma apart_from_owned_kinds:
  "apart_from_owned instance cl_Deployments" "apart_from_owned instance cl_StatefulSets"
  "apart_from_owned instance cl_IdlingResources"
  by (simp_all add: apart_from_owned_def)

lemma apart_from_owned_cronjob:
  "key \<noteq> owned_key instance CommandIdle \<Longrightarrow> key \<noteq> owned_key instance CommandWakeup \<Longrightarrow>
     apart_from_owned instance (\<lambda>c. cl_CronJobs c key)"
  by (auto simp: apart_from_owned_def)

lemma object_key_ops [simp]:
  "object_key ServiceAccounts a = meta_key (sa_meta a)" "object_key Roles r = meta_key (r_meta r)"
  "object_key RoleBindings b = meta_key (rb_meta b)" "object_key CronJobs c = meta_key (cj_meta c)"
  "object_key IdlingResources i = meta_key (ir_meta i)"
  by (simp_all add: object_key_def)

lemma createOrUpdateCronJob_frame:
  assumes F: "reconciler_keeps rel S R" and mine: "CronJobSlot (cv_key cv) \<in> S"
  shows "go_keeps rel (createOrUpdateCronJob R instance cv)"
proof -
  note frame = frame_rules [OF F] and kc = reconciler_keepsD(6) [OF F] and trans = reconciler_keepsD(2) [OF F]
  have create: "go_keeps rel (r_create (rc_CronJobs R) x)" if "meta_key (cj_meta x) = cv_key cv" for x
    using that mine by (intro calls_keep_create [OF kc]) simp
  have update: "go_keeps rel (r_update (rc_CronJobs R) x)" if "meta_key (cj_meta x) = cv_key cv" for x
    using that mine by (intro calls_keep_update [OF kc]) simp
  show ?thesis
    unfolding createOrUpdateCronJob_def
  proof (rule calls_keep_get_bind [OF kc trans], goal_cases)
    case (1 e)
    show ?case
    proof (cases "setCronjobValues R (NewCronJob (cv_key cv)) cv")
      case (Ret cj)
      have "meta_key m' = cv_key cv" if "rc_SetControllerReference R instance (cj_meta cj) = Inr m'" for m'
        using owner_reference_key [OF reconciler_keepsD(3) [OF F] that] setCronjobValues_meta [OF Ret]
        by (simp add: NewCronJob_def)
      with Ret show ?thesis by (auto split: sum.splits intro!: frame create)
    qed (auto intro!: frame)
  next
    case (2 x)
    then have "meta_key (cj_meta cj) = cv_key cv" if "setCronjobValues R x cv = Ret cj" for cj
      using setCronjobValues_meta [OF that] by simp
    then show ?case
      by (auto intro!: go_keeps_pure_bind [OF reconciler_keepsD(1) [OF F]] frame update)
  qed
qed

lemma reconcileCron_frame:
  assumes F: "reconciler_keeps rel S R" and command: "command \<in> set kidle_suffixes"
    and mine: "CronJobSlot (owned_key instance command) \<in> S"
  shows "go_keeps rel (reconcileCron R instance command strategy)"
proof -
  note frame = frame_rules [OF F] and kc = reconciler_keepsD(6) [OF F] and trans = reconciler_keepsD(2) [OF F]
  have delete: "go_keeps rel (r_delete (rc_CronJobs R) x pol)"
    if "meta_key (cj_meta x) = owned_key instance command" for x pol
    using that mine by (intro calls_keep_delete [OF kc]) simp
  show ?thesis
    unfolding reconcileCron_def owned_name [OF command] Let_def owned_key_eq go_bind_pure
    by (auto simp: mine split: option.splits
        intro!: calls_keep_get_try [OF kc trans] delete createOrUpdateCronJob_frame [OF F] frame)
qed

lemma createRBAC_serviceAccount_frame:
  assumes F: "reconciler_keeps rel S R" and mine: "ServiceAccountSlot (owned_key instance ''sa'') \<in> S"
  shows "go_keeps rel (createRBAC_serviceAccount R instance)"
proof -
  note frame = frame_rules [OF F] and kc = reconciler_keepsD(8) [OF F] and trans = reconciler_keepsD(2) [OF F]
  have create: "go_keeps rel (r_create (rc_ServiceAccounts R) x)"
    if "meta_key (sa_meta x) = owned_key instance ''sa''" for x
    using that mine by (intro calls_keep_create [OF kc]) simp
  show ?thesis
    unfolding createRBAC_serviceAccount_def getSaName_owned Let_def owned_key_eq go_bind_pure
    by (auto simp: owner_reference_key [OF reconciler_keepsD(3) [OF F]] split: sum.splits
        intro!: calls_keep_get_bind [OF kc trans] create frame(1,5,6))
qed

lemma createRBAC_role_frame:
  assumes F: "reconciler_keeps rel S R" and mine: "RoleSlot (owned_key instance ''role'') \<in> S"
  shows "go_keeps rel (createRBAC_role R instance)"
proof -
  note frame = frame_rules [OF F] and kc = reconciler_keepsD(9) [OF F] and trans = reconciler_keepsD(2) [OF F]
  have create: "go_keeps rel (r_create (rc_Roles R) x)"
    if "meta_key (r_meta x) = owned_key instance ''role''" for x
    using that mine by (intro calls_keep_create [OF kc]) simp
  have update: "go_keeps rel (r_update (rc_Roles R) x)"
    if "meta_key (r_meta x) = owned_key instance ''role''" for x
    using that mine by (intro calls_keep_update [OF kc]) simp
  have rule: "r_meta y = r_meta x" if "set_first_rule x rule = Ret y" for x y rule
    using that by (auto simp: set_first_rule_def split: list.splits)
  have name: "ToDNSName ''kidle'' (om_Name (ir_meta instance)) ''role''
      = Ret (nn_Name (owned_key instance ''role''))" by (simp add: owned_name)
  show ?thesis
    unfolding createRBAC_role_def name Let_def owned_key_eq go_bind_pure
    by (auto simp: owner_reference_key [OF reconciler_keepsD(3) [OF F]] rule split: sum.splits
        intro!: calls_keep_get_bind [OF kc trans] create update
          go_keeps_pure_bind [OF reconciler_keepsD(1) [OF F]] frame(1,5,6))
qed

lemma createRBAC_roleBinding_frame:
  assumes F: "reconciler_keeps rel S R" and mine: "RoleBindingSlot (owned_key instance ''rb'') \<in> S"
  shows "go_keeps rel (createRBAC_roleBinding R instance sa role)"
proof -
  note frame = frame_rules [OF F] and kc = reconciler_keepsD(10) [OF F] and trans = reconciler_keepsD(2) [OF F]
  have create: "go_keeps rel (r_create (rc_RoleBindings R) x)"
    if "meta_key (rb_meta x) = owned_key instance ''rb''" for x
    using that mine by (intro calls_keep_create [OF kc]) simp
  have name: "ToDNSName ''kidle'' (om_Name (ir_meta instance)) ''rb''
      = Ret (nn_Name (owned_key instance ''rb''))" by (simp add: owned_name)
  show ?thesis
    unfolding createRBAC_roleBinding_def name Let_def owned_key_eq go_bind_pure
    by (auto simp: owner_reference_key [OF reconciler_keepsD(3) [OF F]] split: sum.splits
        intro!: calls_keep_get_bind [OF kc trans] create frame(1,5,6))
qed

text \<open>The objects kidle makes for an instance.\<close>

definition owned_slots :: "IdlingResource \<Rightarrow> slot set" where
  "owned_slots instance =
     {ServiceAccountSlot (owned_key instance ''sa''), RoleSlot (owned_key instance ''role''),
      RoleBindingSlot (owned_key instance ''rb''), CronJobSlot (owned_key instance CommandIdle),
      CronJobSlot (owned_key instance CommandWakeup)}"

lemma ReconcileCronStrategies_frame:
  assumes F: "reconciler_keeps rel S R" and mine: "owned_slots instance \<subseteq> S"
  shows "go_keeps rel (ReconcileCronStrategies R instance)"
  using mine unfolding ReconcileCronStrategies_def createRBAC_def owned_slots_def
  by (intro frame_rules [OF F] createRBAC_serviceAccount_frame [OF F] createRBAC_role_frame [OF F]
      createRBAC_roleBinding_frame [OF F] reconcileCron_frame [OF F]) auto

text \<open>In a world of which \<open>view\<close> is the cluster.\<close>

lemma createOrUpdateCronJob_keeps:
  assumes R: "reconciler_contract view R"
    and p: "\<And>c v. p (cl_CronJobs_update (\<lambda>m. m(cv_key cv := v)) c) = p c"
  shows "keeps_part view p (createOrUpdateCronJob R instance cv)"
  using p by (intro keeps_part_frame createOrUpdateCronJob_frame [OF reconciler_keeps_part [OF R]]) simp

lemma reconcileCron_keeps:
  assumes R: "reconciler_contract view R" and command: "command \<in> set kidle_suffixes"
    and p: "\<And>c v. p (cl_CronJobs_update (\<lambda>m. m(owned_key instance command := v)) c) = p c"
  shows "keeps_part view p (reconcileCron R instance command strategy)"
  using p by (intro keeps_part_frame reconcileCron_frame [OF reconciler_keeps_part [OF R] command]) simp

lemma createRBAC_serviceAccount_keeps:
  assumes R: "reconciler_contract view R"
    and p: "\<And>c v. p (cl_ServiceAccounts_update (\<lambda>m. m(owned_key instance ''sa'' := v)) c) = p c"
  shows "keeps_part view p (createRBAC_serviceAccount R instance)"
  using p by (intro keeps_part_frame createRBAC_serviceAccount_frame [OF reconciler_keeps_part [OF R]]) simp

lemma createRBAC_role_keeps:
  assumes R: "reconciler_contract view R"
    and p: "\<And>c v. p (cl_Roles_update (\<lambda>m. m(owned_key instance ''role'' := v)) c) = p c"
  shows "keeps_part view p (createRBAC_role R instance)"
  using p by (intro keeps_part_frame createRBAC_role_frame [OF reconciler_keeps_part [OF R]]) simp

lemma createRBAC_roleBinding_keeps:
  assumes R: "reconciler_contract view R"
    and p: "\<And>c v. p (cl_RoleBindings_update (\<lambda>m. m(owned_key instance ''rb'' := v)) c) = p c"
  shows "keeps_part view p (createRBAC_roleBinding R instance sa role)"
  using p by (intro keeps_part_frame createRBAC_roleBinding_frame [OF reconciler_keeps_part [OF R]]) simp

lemma ReconcileCronStrategies_keeps:
  assumes R: "reconciler_contract view R" and p: "apart_from_owned instance p"
  shows "keeps_part view p (ReconcileCronStrategies R instance)"
  using p by (intro keeps_part_frame ReconcileCronStrategies_frame [OF reconciler_keeps_part [OF R]])
    (auto simp: owned_slots_def apart_from_owned_def)

section \<open>The cron job of a strategy\<close>

text \<open>The cron job runs kidlectl with the command and the instance, at the times of the strategy.\<close>

definition cron_job_for :: "'w reconciler \<Rightarrow> CronJobValues \<Rightarrow> cronjob \<Rightarrow> bool" where
  "cron_job_for R cv cj \<longleftrightarrow>
     getSaName (cv_instanceName cv) = Ret (cj_ServiceAccountName cj) \<and>
     cj_Suspend cj = Some False \<and> cj_Schedule cj = cs_Schedule (cv_strategy cv) \<and>
     (\<exists>c. ContainersToMap (cj_Containers cj) CronJobContainerName = Some c \<and>
        c_Image c = rc_KidlectlImage R \<and> c_Args c = [cv_command cv, cv_instanceName cv])"

text \<open>It has one container of every name, and kidlectl's is one of them.\<close>

definition has_kidlectl :: "cronjob \<Rightarrow> bool" where
  "has_kidlectl cj \<longleftrightarrow> distinct (map c_Name (cj_Containers cj)) \<and>
     CronJobContainerName \<in> c_Name ` set (cj_Containers cj)"

lemma has_kidlectl_NewCronJob [simp]: "has_kidlectl (NewCronJob key)"
  by (simp add: has_kidlectl_def NewCronJob_def)

lemma setCronjobValues_for:
  assumes set: "setCronjobValues R cj cv = Ret cj'" and has: "has_kidlectl cj"
  shows "cron_job_for R cv cj'" "has_kidlectl cj'"
proof -
  obtain sa where sa: "getSaName (cv_instanceName cv) = Ret sa"
    using set by (cases "getSaName (cv_instanceName cv)") (auto simp: setCronjobValues_def)
  obtain c0 where c0: "ContainersToMap (cj_Containers cj) CronJobContainerName = Some c0"
    using has ContainersToMap_None unfolding has_kidlectl_def by fastforce
  then have n: "c_Name c0 = CronJobContainerName" using ContainersToMap_Some by blast
  define c where "c = c0\<lparr> c_Image := rc_KidlectlImage R, c_Args := [cv_command cv, cv_instanceName cv] \<rparr>"
  have cj': "cj' = cj\<lparr> cj_ServiceAccountName := sa, cj_Suspend := Some False,
      cj_Schedule := cs_Schedule (cv_strategy cv), cj_Containers := SetContainer (cj_Containers cj) c \<rparr>"
    using set sa c0 by (simp add: setCronjobValues_def container_at_def c_def)
  have "ContainersToMap (SetContainer (cj_Containers cj) c) = (ContainersToMap (cj_Containers cj))(c_Name c \<mapsto> c)"
    using has n by (intro ContainersToMap_SetContainer) (simp_all add: has_kidlectl_def c_def)
  then show "cron_job_for R cv cj'" using sa n by (simp add: cj' cron_job_for_def c_def)
  show "has_kidlectl cj'" using has SetContainer_names [of "cj_Containers cj" c]
    by (metis (no_types, lifting) cj' cronjob.select_convs(7) cronjob.surjective cronjob.update_convs(7)
        has_kidlectl_def list.set_map)
qed

text \<open>The comparison with \<open>pointer.Bool(false)\<close> compares two addresses: a change is always needed.\<close>

lemma cronJobNeedChanges_always:
  "getSaName (cv_instanceName cv) = Ret sa \<Longrightarrow> cronJobNeedChanges R cj cv = Ret True"
  by (simp add: cronJobNeedChanges_def)

definition owned_by :: "IdlingResource \<Rightarrow> object_meta \<Rightarrow> bool" where
  "owned_by instance m \<longleftrightarrow>
     (\<exists>ref \<in> set (om_OwnerReferences m). or_Name ref = om_Name (ir_meta instance) \<and> or_Controller ref)"

lemma r_call_Ret:
  "r_get kc key w = (Ret r, w') \<longleftrightarrow> kc_get kc key w = (r, w')"
  "r_update kc x w = (Ret r, w') \<longleftrightarrow> kc_update kc x w = (r, w')"
  "r_create kc x w = (Ret r, w') \<longleftrightarrow> kc_create kc x w = (r, w')"
  "r_delete kc x policy w = (Ret e, w') \<longleftrightarrow> kc_delete kc x policy w = (e, w')"
  by (simp_all add: r_get_def r_update_def r_create_def r_delete_def prod_eq_iff)

lemma cron_job_for_stamp [simp]:
  "cron_job_for R cv (stamp CronJobs v g cj) = cron_job_for R cv cj"
  "cron_job_for R cv (cj\<lparr> cj_meta := m \<rparr>) = cron_job_for R cv cj"
  by (simp_all add: cron_job_for_def stamp_def)

text \<open>The values a strategy asks for.\<close>

definition cron_values :: "IdlingResource \<Rightarrow> string \<Rightarrow> CronStrategy \<Rightarrow> CronJobValues" where
  "cron_values instance command strategy =
     \<lparr> cv_key = owned_key instance command, cv_instanceName = om_Name (ir_meta instance),
       cv_strategy = strategy, cv_command = command \<rparr>"

lemma createOrUpdateCronJob_run:
  assumes R: "reconciler_contract view R"
    and sane: "\<And>cj. cl_CronJobs (view w) (cv_key cv) = Some cj \<Longrightarrow> has_kidlectl cj"
    and run: "createOrUpdateCronJob R instance cv w = (Ret None, w')"
  shows "\<exists>cj. view w' = cl_CronJobs_update (\<lambda>m. m(cv_key cv \<mapsto> cj)) (view w) \<and> cron_job_for R cv cj \<and>
     (cl_CronJobs (view w) (cv_key cv) = None \<longrightarrow> owned_by instance (cj_meta cj))"
proof -
  have kc: "get_contract view CronJobs CronJobStore (rc_CronJobs R)"
    "update_contract view CronJobs CronJobStore (rc_CronJobs R)"
    "create_contract view CronJobs CronJobStore (rc_CronJobs R)"
    using R by (simp_all add: reconciler_contract_def kind_contract_def)
  obtain g w1 where get: "kc_get (rc_CronJobs R) (cv_key cv) w = (g, w1)" by fastforce
  note gd = ck.get_contractD [OF kc(1) get]
  show ?thesis
  proof (cases g)
    case (Inl e)
    with run get have e: "IsNotFound e"
      by (auto simp: createOrUpdateCronJob_def go_eq_Ret r_call_Ret split: if_splits)
    with run get Inl obtain cj m y where cj: "setCronjobValues R (NewCronJob (cv_key cv)) cv = Ret cj"
      and m: "rc_SetControllerReference R instance (cj_meta cj) = Inr m"
      and create: "kc_create (rc_CronJobs R) (cj\<lparr> cj_meta := m \<rparr>) w1 = (Inr y, w')"
      by (auto simp: createOrUpdateCronJob_def go_eq_Ret go_sum_eq_Ret r_call_Ret)
    have key: "meta_key m = cv_key cv"
      using SetControllerReference_meta(1) [OF R m] setCronjobValues_meta [OF cj] by (simp add: NewCronJob_def)
    note cd = ck.create_contractD [OF kc(3) create]
    have "cron_job_for R cv y" using cd(1) setCronjobValues_for(1) [OF cj] by auto
    moreover have "owned_by instance (cj_meta y)"
      using cd(1) SetControllerReference_frame(2) [OF R m] by (auto simp: owned_by_def stamp_def)
    moreover have "view w' = cl_CronJobs_update (\<lambda>f. f(cv_key cv \<mapsto> y)) (view w)"
      using cd(3) key gd(1) by (simp add: CronJobStore_def)
    ultimately show ?thesis by blast
  next
    case (Inr x)
    have key: "meta_key (cj_meta x) = cv_key cv" using gd(2) Inr by simp
    from run get Inr obtain cj y where cj: "setCronjobValues R x cv = Ret cj"
      and upd: "kc_update (rc_CronJobs R) cj w1 = (Inr y, w')"
      by (cases "getSaName (cv_instanceName cv)")
        (auto simp: createOrUpdateCronJob_def go_eq_Ret r_call_Ret cronJobNeedChanges_def split: if_splits)
    note ud = ck.update_contractD [OF kc(2) upd]
    have meta: "cj_meta cj = cj_meta x" by (rule setCronjobValues_meta [OF cj])
    obtain old where old: "cl_CronJobs (view w) (cv_key cv) = Some old"
        "resource_version CronJobs old = resource_version CronJobs x"
      using ud(3) gd(1,3) Inr key meta by (auto simp: CronJobStore_def resource_version_def)
    then have "old = x" using gd(5) Inr by (auto simp: CronJobStore_def)
    with old sane have "has_kidlectl x" by blast
    then have "cron_job_for R cv cj" using setCronjobValues_for(1) [OF cj] by blast
    moreover obtain v h where y: "y = stamp CronJobs v h cj" using ud(2) by blast
    moreover have "persisted CronJobs y = Some y"
      using gd(4) [OF Inr] meta unfolding y
      by (auto simp: persisted_def stamp_def meta_deleting_def split: if_splits option.splits)
    ultimately show ?thesis
      using ud(4) key meta gd(1) old by (auto simp: CronJobStore_def)
  qed
qed

text \<open>One strategy, set or not.\<close>

definition cron_ready :: "'w reconciler \<Rightarrow> IdlingResource \<Rightarrow> string \<Rightarrow> CronStrategy option \<Rightarrow> cluster \<Rightarrow> bool" where
  "cron_ready R instance command strategy c =
     (case strategy of
        None \<Rightarrow> (case cl_CronJobs c (owned_key instance command) of
                   None \<Rightarrow> True | Some cj \<Rightarrow> meta_deleting (cj_meta cj))
      | Some s \<Rightarrow> (case cl_CronJobs c (owned_key instance command) of
                     None \<Rightarrow> False | Some cj \<Rightarrow> cron_job_for R (cron_values instance command s) cj))"

lemma reconcileCron_run:
  assumes R: "reconciler_contract view R" and av: "available view CronJobs CronJobStore (rc_CronJobs R)"
    and command: "command \<in> set kidle_suffixes"
    and sane: "\<And>cj. cl_CronJobs (view w) (owned_key instance command) = Some cj \<Longrightarrow> has_kidlectl cj"
    and run: "reconcileCron R instance command strategy w = (Ret None, w')"
  shows "cron_ready R instance command strategy (view w')"
proof (cases strategy)
  case (Some s)
  with run obtain w1 where w1: "createOrUpdateCronJob R instance (cron_values instance command s) w = (Ret None, w1)"
    and ev: "view w' = view w1"
    by (auto simp: reconcileCron_def owned_name [OF command] cron_values_def go_eq_Ret
        dest: r_event_eq_Ret [OF R])
  from createOrUpdateCronJob_run [OF R _ w1] sane Some show ?thesis
    unfolding ev cron_ready_def by (auto simp: cron_values_def)
next
  case None
  let ?key = "owned_key instance command"
  obtain g w1 where get: "kc_get (rc_CronJobs R) ?key w = (g, w1)" by fastforce
  have kc: "get_contract view CronJobs CronJobStore (rc_CronJobs R)"
    "delete_contract view CronJobs CronJobStore (rc_CronJobs R)"
    using R by (simp_all add: reconciler_contract_def kind_contract_def)
  note gd = ck.get_contractD [OF kc(1) get]
  show ?thesis
  proof (cases g)
    case (Inl e)
    with available_getD [OF av get] have "cl_CronJobs (view w) ?key = None"
      by (simp add: CronJobStore_def split: option.splits)
    moreover have "w' = w1"
      using run get Inl None
      by (auto simp: reconcileCron_def owned_name [OF command] go_eq_Ret r_call_Ret)
    ultimately show ?thesis using gd(1) None by (simp add: cron_ready_def)
  next
    case (Inr cj)
    have key: "meta_key (cj_meta cj) = ?key" using gd(2) [OF Inr] by simp
    from run get Inr None obtain e w2 where
      del: "kc_delete (rc_CronJobs R) cj DeletePropagationBackground w1 = (e, w2)"
      and e: "IgnoreNotFound e = None" and ev: "view w' = view w2"
      by (auto simp: reconcileCron_def owned_name [OF command] go_eq_Ret r_call_Ret
          dest: r_event_eq_Ret [OF R] split: option.splits)
    note dd = ck.delete_contractD [OF kc(2) del]
    show ?thesis
    proof (cases e)
      case None
      with dd(3) key have "\<exists>v. view w2 = cl_CronJobs_update (\<lambda>m. m(?key := v)) (view w1) \<and>
          (\<forall>cj. v = Some cj \<longrightarrow> meta_deleting (cj_meta cj))"
        by (fastforce simp: CronJobStore_def stamp_def terminating_def meta_deleting_def)
      then show ?thesis using \<open>strategy = None\<close> by (auto simp: ev cron_ready_def split: option.splits)
    next
      case (Some err)
      with e have "IsNotFound err" by (simp add: IgnoreNotFound_def split: if_splits)
      with dd(1,2) Some key have "cl_CronJobs (view w2) ?key = None" by (simp add: CronJobStore_def)
      then show ?thesis using \<open>strategy = None\<close> by (simp add: ev cron_ready_def)
    qed
  qed
qed

section \<open>Access control\<close>

lemma createRBAC_serviceAccount_run:
  assumes R: "reconciler_contract view R" and fresh: "coherent view ServiceAccountStore (rc_ServiceAccounts R)"
    and run: "createRBAC_serviceAccount R instance w = (Ret (Inr sa), w')"
  shows "cl_ServiceAccounts (view w') (owned_key instance ''sa'') = Some sa \<and>
     meta_key (sa_meta sa) = owned_key instance ''sa'' \<and>
     (cl_ServiceAccounts (view w) (owned_key instance ''sa'') = None \<longrightarrow> owned_by instance (sa_meta sa))"
proof -
  let ?key = "owned_key instance ''sa''"
  have kc: "get_contract view ServiceAccounts ServiceAccountStore (rc_ServiceAccounts R)"
    "create_contract view ServiceAccounts ServiceAccountStore (rc_ServiceAccounts R)"
    using R by (simp_all add: reconciler_contract_def kind_contract_def)
  obtain g w1 where get: "kc_get (rc_ServiceAccounts R) ?key w = (g, w1)" by fastforce
  note gd = ak.get_contractD [OF kc(1) get]
  show ?thesis
  proof (cases g)
    case (Inr x)
    with run get have "sa = x" "w' = w1"
      by (auto simp: createRBAC_serviceAccount_def getSaName_owned go_eq_Ret r_call_Ret)
    then show ?thesis
      using gd(1,2) ak.coherentD(1) [OF fresh get] Inr by (auto simp: ServiceAccountStore_def)
  next
    case (Inl e)
    with run get obtain m where
        m: "rc_SetControllerReference R instance
              (ObjectMeta (om_Namespace (ir_meta instance)) (nn_Name ?key)) = Inr m"
      and create: "kc_create (rc_ServiceAccounts R) \<lparr> sa_meta = m, sa_rest = '''' \<rparr> w1 = (Inr sa, w')"
      by (auto simp: createRBAC_serviceAccount_def getSaName_owned go_eq_Ret go_sum_eq_Ret r_call_Ret Let_def
          split: if_splits)
    note cd = ak.create_contractD [OF kc(2) create]
    have key: "meta_key m = ?key" using SetControllerReference_meta(1) [OF R m] by simp
    have "owned_by instance (sa_meta sa)"
      using cd(1) SetControllerReference_frame(2) [OF R m] by (auto simp: owned_by_def stamp_def)
    moreover have "meta_key (sa_meta sa) = ?key"
      using cd(1) key by (auto simp: stamp_def meta_key_def)
    ultimately show ?thesis using cd(3) key by (simp add: ServiceAccountStore_def)
  qed
qed

lemma set_first_rule_eq: "set_first_rule x rule = Ret y \<longleftrightarrow> (\<exists>r rs. r_Rules x = r # rs \<and> y = x\<lparr> r_Rules := rule # rs \<rparr>)"
  by (auto simp: set_first_rule_def split: list.splits)

text \<open>The role grants access to the instance with its first rule; other rules are kept.\<close>

definition role_for :: "IdlingResource \<Rightarrow> role \<Rightarrow> bool" where
  "role_for instance r \<longleftrightarrow> (case r_Rules r of [] \<Rightarrow> False | rule # _ \<Rightarrow> rule = policyRule instance)"

lemma createRBAC_role_run:
  assumes R: "reconciler_contract view R"
    and run: "createRBAC_role R instance w = (Ret (Inr role), w')"
  shows "cl_Roles (view w') (owned_key instance ''role'') = Some role \<and> role_for instance role \<and>
     meta_key (r_meta role) = owned_key instance ''role'' \<and>
     (cl_Roles (view w) (owned_key instance ''role'') = None \<longrightarrow> owned_by instance (r_meta role))"
proof -
  let ?key = "owned_key instance ''role''"
  have name: "ToDNSName ''kidle'' (om_Name (ir_meta instance)) ''role'' = Ret (nn_Name ?key)"
    by (simp add: owned_name)
  have kc: "get_contract view Roles RoleStore (rc_Roles R)"
    "update_contract view Roles RoleStore (rc_Roles R)"
    "create_contract view Roles RoleStore (rc_Roles R)"
    using R by (simp_all add: reconciler_contract_def kind_contract_def)
  obtain g w1 where get: "kc_get (rc_Roles R) ?key w = (g, w1)" by fastforce
  note gd = rk.get_contractD [OF kc(1) get]
  show ?thesis
  proof (cases g)
    case (Inr x)
    have key: "meta_key (r_meta x) = ?key" using gd(2) [OF Inr] by simp
    from run get Inr obtain r rs where
        upd: "kc_update (rc_Roles R) (x\<lparr> r_Rules := policyRule instance # rs \<rparr>) w1 = (Inr role, w')"
      by (auto simp: createRBAC_role_def name go_eq_Ret r_call_Ret set_first_rule_eq)
    note ud = rk.update_contractD [OF kc(2) upd]
    obtain v h where y: "role = stamp Roles v h (x\<lparr> r_Rules := policyRule instance # rs \<rparr>)"
      using ud(2) by blast
    have "persisted Roles role = Some role"
      using gd(4) [OF Inr] unfolding y
      by (auto simp: persisted_def stamp_def meta_deleting_def split: if_splits option.splits)
    moreover have "cl_Roles (view w) ?key \<noteq> None"
      using ud(3) key gd(1) by (auto simp: RoleStore_def)
    ultimately show ?thesis
      using ud(4) key unfolding y by (auto simp: RoleStore_def stamp_def role_for_def meta_key_def)
  next
    case (Inl e)
    with run get obtain m where
        m: "rc_SetControllerReference R instance
              (ObjectMeta (om_Namespace (ir_meta instance)) (nn_Name ?key)) = Inr m"
      and create: "kc_create (rc_Roles R) \<lparr> r_meta = m, r_Rules = [policyRule instance] \<rparr> w1 = (Inr role, w')"
      by (auto simp: createRBAC_role_def name go_eq_Ret go_sum_eq_Ret r_call_Ret Let_def split: if_splits)
    note cd = rk.create_contractD [OF kc(3) create]
    have key: "meta_key m = ?key" using SetControllerReference_meta(1) [OF R m] by simp
    have "owned_by instance (r_meta role)"
      using cd(1) SetControllerReference_frame(2) [OF R m] by (auto simp: owned_by_def stamp_def)
    moreover have "meta_key (r_meta role) = ?key \<and> role_for instance role"
      using cd(1) key by (auto simp: stamp_def meta_key_def role_for_def)
    ultimately show ?thesis using cd(3) key by (simp add: RoleStore_def)
  qed
qed

text \<open>An existing binding is taken as it is; a new one binds the role to the service account.\<close>

definition binding_for :: "service_account \<Rightarrow> role \<Rightarrow> role_binding \<Rightarrow> bool" where
  "binding_for sa r b \<longleftrightarrow>
     rb_Subjects b = [\<lparr> sub_Kind = ''ServiceAccount'', sub_Name = om_Name (sa_meta sa) \<rparr>] \<and>
     rr_Kind (rb_RoleRef b) = ''Role'' \<and> rr_Name (rb_RoleRef b) = om_Name (r_meta r)"

lemma createRBAC_roleBinding_run:
  assumes R: "reconciler_contract view R" and fresh: "coherent view RoleBindingStore (rc_RoleBindings R)"
    and run: "createRBAC_roleBinding R instance sa r w = (Ret None, w')"
  shows "\<exists>b. cl_RoleBindings (view w') (owned_key instance ''rb'') = Some b \<and>
     (case cl_RoleBindings (view w) (owned_key instance ''rb'') of
        None \<Rightarrow> binding_for sa r b \<and> owned_by instance (rb_meta b) | Some old \<Rightarrow> b = old)"
proof -
  let ?key = "owned_key instance ''rb''"
  have name: "ToDNSName ''kidle'' (om_Name (ir_meta instance)) ''rb'' = Ret (nn_Name ?key)"
    by (simp add: owned_name)
  have kc: "get_contract view RoleBindings RoleBindingStore (rc_RoleBindings R)"
    "create_contract view RoleBindings RoleBindingStore (rc_RoleBindings R)"
    using R by (simp_all add: reconciler_contract_def kind_contract_def)
  obtain g w1 where get: "kc_get (rc_RoleBindings R) ?key w = (g, w1)" by fastforce
  note gd = bk.get_contractD [OF kc(1) get]
  show ?thesis
  proof (cases g)
    case (Inr x)
    with run get have "w' = w1"
      by (auto simp: createRBAC_roleBinding_def name go_eq_Ret r_call_Ret)
    then show ?thesis
      using gd(1) bk.coherentD(1) [OF fresh get] Inr by (auto simp: RoleBindingStore_def)
  next
    case (Inl e)
    with run get obtain m y where
        m: "rc_SetControllerReference R instance
              (ObjectMeta (om_Namespace (ir_meta instance)) (nn_Name ?key)) = Inr m"
      and create: "kc_create (rc_RoleBindings R)
          \<lparr> rb_meta = m,
             rb_Subjects = [\<lparr> sub_Kind = ''ServiceAccount'', sub_Name = om_Name (sa_meta sa) \<rparr>],
             rb_RoleRef = \<lparr> rr_APIGroup = rc_RoleGroup R r, rr_Kind = ''Role'',
                            rr_Name = om_Name (r_meta r) \<rparr> \<rparr> w1 = (Inr y, w')"
      by (auto simp: createRBAC_roleBinding_def name go_eq_Ret go_sum_eq_Ret r_call_Ret Let_def split: if_splits)
    note cd = bk.create_contractD [OF kc(2) create]
    have key: "meta_key m = ?key" using SetControllerReference_meta(1) [OF R m] by simp
    have "owned_by instance (rb_meta y) \<and> binding_for sa r y"
      using cd(1) SetControllerReference_frame(2) [OF R m]
      by (auto simp: owned_by_def stamp_def binding_for_def)
    then show ?thesis using cd(2,3) gd(1) key by (simp add: RoleBindingStore_def)
  qed
qed

section \<open>One run\<close>

definition access_ready :: "IdlingResource \<Rightarrow> cluster \<Rightarrow> cluster \<Rightarrow> bool" where
  "access_ready instance c c' \<longleftrightarrow>
     (\<exists>sa r b. cl_ServiceAccounts c' (owned_key instance ''sa'') = Some sa \<and>
        cl_Roles c' (owned_key instance ''role'') = Some r \<and> role_for instance r \<and>
        cl_RoleBindings c' (owned_key instance ''rb'') = Some b \<and>
        (case cl_RoleBindings c (owned_key instance ''rb'') of
           None \<Rightarrow> binding_for sa r b \<and> owned_by instance (rb_meta b) | Some old \<Rightarrow> b = old))"

lemma createRBAC_run:
  assumes R: "reconciler_contract view R" and fresh: "fresh_reads view R"
    and run: "createRBAC R instance w = (Ret None, w')"
  shows "access_ready instance (view w) (view w')"
proof -
  obtain sa w1 r w2 where
      1: "createRBAC_serviceAccount R instance w = (Ret (Inr sa), w1)"
    and 2: "createRBAC_role R instance w1 = (Ret (Inr r), w2)"
    and 3: "createRBAC_roleBinding R instance sa r w2 = (Ret None, w')"
    using run by (auto simp: createRBAC_def go_eq_Ret)
  have fresh: "coherent view ServiceAccountStore (rc_ServiceAccounts R)"
    "coherent view RoleBindingStore (rc_RoleBindings R)"
    using fresh by (simp_all add: fresh_reads_def)
  note keeps = keeps_partD [OF createRBAC_serviceAccount_keeps [OF R] 1]
    keeps_partD [OF createRBAC_role_keeps [OF R] 2] keeps_partD [OF createRBAC_roleBinding_keeps [OF R] 3]
  have "cl_ServiceAccounts (view w') = cl_ServiceAccounts (view w1)" "cl_Roles (view w') = cl_Roles (view w2)"
    "cl_RoleBindings (view w2) = cl_RoleBindings (view w)"
    using keeps(2,3) [of cl_ServiceAccounts] keeps(3) [of cl_Roles] keeps(1,2) [of cl_RoleBindings]
    by simp_all
  then show ?thesis
    using createRBAC_serviceAccount_run [OF R fresh(1) 1] createRBAC_role_run [OF R 2]
      createRBAC_roleBinding_run [OF R fresh(2) 3]
    unfolding access_ready_def by (auto intro!: exI)
qed

lemma ReconcileCronStrategies_access:
  assumes R: "reconciler_contract view R" and fresh: "fresh_reads view R"
    and run: "ReconcileCronStrategies R instance w = (Ret (res, None), w')"
  shows "access_ready instance (view w) (view w')"
proof -
  obtain w1 w2 where
      1: "createRBAC R instance w = (Ret None, w1)"
    and 2: "reconcileCron R instance CommandIdle (idle_cron instance) w1 = (Ret None, w2)"
    and 3: "reconcileCron R instance CommandWakeup (wakeup_cron instance) w2 = (Ret None, w')"
    using run by (auto simp: ReconcileCronStrategies_def go_eq_Ret dest: r_event_eq_Ret [OF R])
  have keeps: "p (view w') = p (view w1)" if "\<And>f c. p (cl_CronJobs_update f c) = p c"
    for p :: "cluster \<Rightarrow> 'q"
    using keeps_partD [OF reconcileCron_keeps [OF R, of CommandIdle p] 2]
      keeps_partD [OF reconcileCron_keeps [OF R, of CommandWakeup p] 3] that by simp
  from createRBAC_run [OF R fresh 1] show ?thesis
    unfolding access_ready_def by (simp add: keeps)
qed

lemma ReconcileCronStrategies_run:
  assumes R: "reconciler_contract view R" and av: "reconciler_available view R"
    and sane: "\<And>command cj. command \<in> {CommandIdle, CommandWakeup} \<Longrightarrow>
        cl_CronJobs (view w) (owned_key instance command) = Some cj \<Longrightarrow> has_kidlectl cj"
    and run: "ReconcileCronStrategies R instance w = (Ret (res, None), w')"
  shows "access_ready instance (view w) (view w')"
    "cron_ready R instance CommandIdle (idle_cron instance) (view w')"
    "cron_ready R instance CommandWakeup (wakeup_cron instance) (view w')"
proof -
  obtain w1 w2 where
      1: "createRBAC R instance w = (Ret None, w1)"
    and 2: "reconcileCron R instance CommandIdle (idle_cron instance) w1 = (Ret None, w2)"
    and 3: "reconcileCron R instance CommandWakeup (wakeup_cron instance) w2 = (Ret None, w')"
    using run by (auto simp: ReconcileCronStrategies_def go_eq_Ret dest: r_event_eq_Ret [OF R])
  have avc: "available view CronJobs CronJobStore (rc_CronJobs R)" and fresh: "fresh_reads view R"
    using av reconciler_available_fresh [OF av] by (simp_all add: reconciler_available_def)
  note cron = reconcileCron_run [OF R avc]
  show "access_ready instance (view w) (view w')"
    by (rule ReconcileCronStrategies_access [OF R fresh run])
  have cj1: "cl_CronJobs (view w1) = cl_CronJobs (view w)"
  proof -
    have "keeps_part view cl_CronJobs (createRBAC R instance)"
      unfolding createRBAC_def
      by (intro go_frame createRBAC_serviceAccount_keeps createRBAC_role_keeps
          createRBAC_roleBinding_keeps R) simp_all
    from keeps_partD [OF this 1] show ?thesis .
  qed
  have cj2: "cl_CronJobs (view w2) (owned_key instance CommandWakeup)
      = cl_CronJobs (view w1) (owned_key instance CommandWakeup)"
    using keeps_partD [OF reconcileCron_keeps [OF R, of CommandIdle
        "\<lambda>c. cl_CronJobs c (owned_key instance CommandWakeup)"] 2]
      idle_key_neq_wakeup_key [THEN not_sym] by simp
  have cj3: "cl_CronJobs (view w') (owned_key instance CommandIdle)
      = cl_CronJobs (view w2) (owned_key instance CommandIdle)"
    using keeps_partD [OF reconcileCron_keeps [OF R, of CommandWakeup
        "\<lambda>c. cl_CronJobs c (owned_key instance CommandIdle)"] 3]
      idle_key_neq_wakeup_key by simp
  have "cron_ready R instance CommandIdle (idle_cron instance) (view w2)"
    by (rule cron [OF _ _ 2]) (auto simp: cj1 intro: sane)
  then show "cron_ready R instance CommandIdle (idle_cron instance) (view w')"
    unfolding cron_ready_def cj3 .
  show "cron_ready R instance CommandWakeup (wakeup_cron instance) (view w')"
    by (rule cron [OF _ _ 3]) (auto simp: cj1 cj2 intro: sane)
qed

section \<open>It succeeds when the server does\<close>

lemma createOrUpdateCronJob_succeeds:
  assumes R: "reconciler_contract view R" and av: "reconciler_available view R"
    and sa: "getSaName (cv_instanceName cv) = Ret sa"
  obtains w' where "createOrUpdateCronJob R instance cv w = (Ret None, w')"
proof -
  have avc: "available view CronJobs CronJobStore (rc_CronJobs R)"
    and ref: "\<And>i m. om_OwnerReferences m = [] \<Longrightarrow> \<exists>m'. rc_SetControllerReference R i m = Inr m'"
    using av by (simp_all add: reconciler_available_def)
  have gc: "get_contract view CronJobs CronJobStore (rc_CronJobs R)"
    using R by (simp_all add: reconciler_contract_def kind_contract_def)
  have def_set: "\<exists>cj. setCronjobValues R x cv = Ret cj" for x by (simp add: setCronjobValues_def sa Let_def)
  obtain g w1 where get: "kc_get (rc_CronJobs R) (cv_key cv) w = (g, w1)" by fastforce
  note g = available_getD [OF avc get] and gd = ck.get_contractD [OF gc get]
  show ?thesis
  proof (cases "cl_CronJobs (view w) (cv_key cv)")
    case None
    obtain cj where cj: "setCronjobValues R (NewCronJob (cv_key cv)) cv = Ret cj" using def_set by blast
    have meta: "cj_meta cj = ObjectMeta (nn_Namespace (cv_key cv)) (nn_Name (cv_key cv))"
      using setCronjobValues_meta [OF cj] by (simp add: NewCronJob_def)
    then obtain m where m: "rc_SetControllerReference R instance (cj_meta cj) = Inr m"
      using ref by (metis ObjectMeta_def object_meta.select_convs(7))
    obtain y w' where "kc_create (rc_CronJobs R) (cj\<lparr> cj_meta := m \<rparr>) w1 = (Inr y, w')"
      using SetControllerReference_meta(1,3) [OF R m] meta gd(1) None
      by (elim available_create [OF avc, rotated 2]) (simp_all add: CronJobStore_def)
    then have "createOrUpdateCronJob R instance cv w = (Ret None, w')"
      using get g None cj m
      by (simp add: createOrUpdateCronJob_def CronJobStore_def r_call_Ret go_bind_def go_try_def
          r_get_def r_create_def)
    then show ?thesis by (rule that)
  next
    case (Some x)
    then have gx: "g = Inr x" using g by (simp add: CronJobStore_def)
    obtain cj where cj: "setCronjobValues R x cv = Ret cj" using def_set by blast
    obtain y w' where "kc_update (rc_CronJobs R) cj w1 = (Inr y, w')"
      using setCronjobValues_meta [OF cj] gd(1) gd(2) [OF gx] Some
      by (elim available_update [OF avc, rotated 2]) (simp_all add: CronJobStore_def resource_version_def)
    then have "createOrUpdateCronJob R instance cv w = (Ret None, w')"
      using get gx cj cronJobNeedChanges_always [OF sa, of R x]
      by (simp add: createOrUpdateCronJob_def go_bind_def go_try_def r_get_def r_update_def)
    then show ?thesis by (rule that)
  qed
qed

lemma reconcileCron_succeeds:
  assumes R: "reconciler_contract view R" and av: "reconciler_available view R"
    and command: "command \<in> set kidle_suffixes"
  obtains w' where "reconcileCron R instance command strategy w = (Ret None, w')"
proof (cases strategy)
  case (Some s)
  obtain w1 where "createOrUpdateCronJob R instance (cron_values instance command s) w = (Ret None, w1)"
    using createOrUpdateCronJob_succeeds [OF R av, of "cron_values instance command s"] getSaName_owned
    by (metis CronJobValues.select_convs(2) cron_values_def)
  then have "\<exists>w'. reconcileCron R instance command strategy w = (Ret None, w')"
    using Some by (simp add: reconcileCron_def owned_name [OF command] cron_values_def go_check_def
        go_bind_def r_event_def)
  then show ?thesis using that by blast
next
  case None
  let ?key = "owned_key instance command"
  have avc: "available view CronJobs CronJobStore (rc_CronJobs R)"
    using av by (simp add: reconciler_available_def)
  have gc: "get_contract view CronJobs CronJobStore (rc_CronJobs R)"
    using R by (simp_all add: reconciler_contract_def kind_contract_def)
  obtain g w1 where get: "kc_get (rc_CronJobs R) ?key w = (g, w1)" by fastforce
  note g = available_getD [OF avc get] and gd = ck.get_contractD [OF gc get]
  have "\<exists>w'. reconcileCron R instance command strategy w = (Ret None, w')"
  proof (cases "cl_CronJobs (view w) ?key")
    case None
    with get g \<open>strategy = None\<close> show ?thesis
      by (simp add: reconcileCron_def owned_name [OF command] go_try_def go_bind_def r_get_def CronJobStore_def
          Let_def)
  next
    case (Some cj)
    then have gx: "g = Inr cj" using g by (simp add: CronJobStore_def)
    obtain w2 where "kc_delete (rc_CronJobs R) cj DeletePropagationBackground w1 = (None, w2)"
      using gd(1) gd(2) [OF gx] Some
      by (elim available_delete [OF avc, rotated]) (simp add: CronJobStore_def)
    with get gx \<open>strategy = None\<close> show ?thesis
      by (simp add: reconcileCron_def owned_name [OF command] go_try_def go_bind_def r_get_def r_delete_def
          r_event_def IgnoreNotFound_def Let_def)
  qed
  then show ?thesis using that by blast
qed

lemma createRBAC_serviceAccount_succeeds:
  assumes R: "reconciler_contract view R" and av: "reconciler_available view R"
  obtains sa w' where "createRBAC_serviceAccount R instance w = (Ret (Inr sa), w')"
proof -
  let ?key = "owned_key instance ''sa''"
  have ava: "available view ServiceAccounts ServiceAccountStore (rc_ServiceAccounts R)"
    and ref: "\<And>i m. om_OwnerReferences m = [] \<Longrightarrow> \<exists>m'. rc_SetControllerReference R i m = Inr m'"
    using av by (simp_all add: reconciler_available_def)
  have gc: "get_contract view ServiceAccounts ServiceAccountStore (rc_ServiceAccounts R)"
    using R by (simp_all add: reconciler_contract_def kind_contract_def)
  obtain g w1 where get: "kc_get (rc_ServiceAccounts R) ?key w = (g, w1)" by fastforce
  note g = available_getD [OF ava get] and gd = ak.get_contractD [OF gc get]
  let ?m = "ObjectMeta (om_Namespace (ir_meta instance)) (nn_Name ?key)"
  obtain m where m: "rc_SetControllerReference R instance ?m = Inr m"
    using ref by (metis ObjectMeta_def object_meta.select_convs(7))
  show ?thesis
  proof (cases "cl_ServiceAccounts (view w) ?key")
    case None
    obtain y w' where "kc_create (rc_ServiceAccounts R) \<lparr> sa_meta = m, sa_rest = '''' \<rparr> w1 = (Inr y, w')"
      using SetControllerReference_meta(1,3) [OF R m] gd(1) None
      by (elim available_create [OF ava, rotated 2]) (simp_all add: ServiceAccountStore_def)
    with get g None m have "createRBAC_serviceAccount R instance w = (Ret (Inr y), w')"
      by (simp add: createRBAC_serviceAccount_def getSaName_owned ServiceAccountStore_def go_bind_def
          go_try_def r_get_def r_create_def Let_def)
    then show ?thesis by (rule that)
  next
    case (Some sa)
    with get g have "createRBAC_serviceAccount R instance w = (Ret (Inr sa), w1)"
      by (simp add: createRBAC_serviceAccount_def getSaName_owned ServiceAccountStore_def go_bind_def r_get_def)
    then show ?thesis by (rule that)
  qed
qed

lemma createRBAC_role_succeeds:
  assumes R: "reconciler_contract view R" and av: "reconciler_available view R"
    and rules: "\<And>r. cl_Roles (view w) (owned_key instance ''role'') = Some r \<Longrightarrow> r_Rules r \<noteq> []"
  obtains r w' where "createRBAC_role R instance w = (Ret (Inr r), w')"
proof -
  let ?key = "owned_key instance ''role''"
  have name: "ToDNSName ''kidle'' (om_Name (ir_meta instance)) ''role'' = Ret (nn_Name ?key)"
    by (simp add: owned_name)
  have avr: "available view Roles RoleStore (rc_Roles R)"
    and ref: "\<And>i m. om_OwnerReferences m = [] \<Longrightarrow> \<exists>m'. rc_SetControllerReference R i m = Inr m'"
    using av by (simp_all add: reconciler_available_def)
  have gc: "get_contract view Roles RoleStore (rc_Roles R)"
    using R by (simp_all add: reconciler_contract_def kind_contract_def)
  obtain g w1 where get: "kc_get (rc_Roles R) ?key w = (g, w1)" by fastforce
  note g = available_getD [OF avr get] and gd = rk.get_contractD [OF gc get]
  let ?m = "ObjectMeta (om_Namespace (ir_meta instance)) (nn_Name ?key)"
  obtain m where m: "rc_SetControllerReference R instance ?m = Inr m"
    using ref by (metis ObjectMeta_def object_meta.select_convs(7))
  show ?thesis
  proof (cases "cl_Roles (view w) ?key")
    case None
    obtain y w' where "kc_create (rc_Roles R) \<lparr> r_meta = m, r_Rules = [policyRule instance] \<rparr> w1 = (Inr y, w')"
      using SetControllerReference_meta(1,3) [OF R m] gd(1) None
      by (elim available_create [OF avr, rotated 2]) (simp_all add: RoleStore_def)
    with get g None m have "createRBAC_role R instance w = (Ret (Inr y), w')"
      by (simp add: createRBAC_role_def name RoleStore_def go_bind_def go_try_def r_get_def r_create_def Let_def)
    then show ?thesis by (rule that)
  next
    case (Some x)
    then have gx: "g = Inr x" using g by (simp add: RoleStore_def)
    obtain rule rs where rs: "r_Rules x = rule # rs" using rules [OF Some] by (cases "r_Rules x") auto
    let ?x = "x\<lparr> r_Rules := policyRule instance # rs \<rparr>"
    have "ks_get RoleStore (view w1) (object_key Roles ?x) = Some x"
      "resource_version Roles x = resource_version Roles ?x"
      using gd(1) gd(2) [OF gx] Some by (simp_all add: RoleStore_def resource_version_def)
    then obtain y w' where "kc_update (rc_Roles R) ?x w1 = (Inr y, w')"
      by (elim available_update [OF avr, rotated 2]) 
    with get gx rs have "createRBAC_role R instance w = (Ret (Inr y), w')"
      by (simp add: createRBAC_role_def name go_bind_def go_try_def r_get_def r_update_def set_first_rule_def)
    then show ?thesis by (rule that)
  qed
qed

lemma createRBAC_roleBinding_succeeds:
  assumes R: "reconciler_contract view R" and av: "reconciler_available view R"
  obtains w' where "createRBAC_roleBinding R instance sa r w = (Ret None, w')"
proof -
  let ?key = "owned_key instance ''rb''"
  have name: "ToDNSName ''kidle'' (om_Name (ir_meta instance)) ''rb'' = Ret (nn_Name ?key)"
    by (simp add: owned_name)
  have avb: "available view RoleBindings RoleBindingStore (rc_RoleBindings R)"
    and ref: "\<And>i m. om_OwnerReferences m = [] \<Longrightarrow> \<exists>m'. rc_SetControllerReference R i m = Inr m'"
    using av by (simp_all add: reconciler_available_def)
  have gc: "get_contract view RoleBindings RoleBindingStore (rc_RoleBindings R)"
    using R by (simp_all add: reconciler_contract_def kind_contract_def)
  obtain g w1 where get: "kc_get (rc_RoleBindings R) ?key w = (g, w1)" by fastforce
  note g = available_getD [OF avb get] and gd = bk.get_contractD [OF gc get]
  let ?m = "ObjectMeta (om_Namespace (ir_meta instance)) (nn_Name ?key)"
  obtain m where m: "rc_SetControllerReference R instance ?m = Inr m"
    using ref by (metis ObjectMeta_def object_meta.select_convs(7))
  let ?b = "\<lparr> rb_meta = m,
     rb_Subjects = [\<lparr> sub_Kind = ''ServiceAccount'', sub_Name = om_Name (sa_meta sa) \<rparr>],
     rb_RoleRef = \<lparr> rr_APIGroup = rc_RoleGroup R r, rr_Kind = ''Role'', rr_Name = om_Name (r_meta r) \<rparr> \<rparr>"
  show ?thesis
  proof (cases "cl_RoleBindings (view w) ?key")
    case None
    obtain y w' where "kc_create (rc_RoleBindings R) ?b w1 = (Inr y, w')"
      using SetControllerReference_meta(1,3) [OF R m] gd(1) None
      by (elim available_create [OF avb, rotated 2]) (simp_all add: RoleBindingStore_def)
    with get g None m have "createRBAC_roleBinding R instance sa r w = (Ret None, w')"
      by (simp add: createRBAC_roleBinding_def name RoleBindingStore_def go_bind_def go_try_def r_get_def
          r_create_def Let_def)
    then show ?thesis by (rule that)
  next
    case (Some b)
    with get g have "createRBAC_roleBinding R instance sa r w = (Ret None, w1)"
      by (simp add: createRBAC_roleBinding_def name RoleBindingStore_def go_bind_def r_get_def)
    then show ?thesis by (rule that)
  qed
qed

lemma ReconcileCronStrategies_succeeds:
  assumes R: "reconciler_contract view R" and av: "reconciler_available view R"
    and rules: "\<And>r. cl_Roles (view w) (owned_key instance ''role'') = Some r \<Longrightarrow> r_Rules r \<noteq> []"
  obtains w' where "ReconcileCronStrategies R instance w = (Ret (no_requeue, None), w')"
proof -
  obtain sa w1 where 1: "createRBAC_serviceAccount R instance w = (Ret (Inr sa), w1)"
    using createRBAC_serviceAccount_succeeds [OF R av] .
  have "cl_Roles (view w1) = cl_Roles (view w)"
    using keeps_partD [OF createRBAC_serviceAccount_keeps [OF R, of cl_Roles] 1] by simp
  then obtain r w2 where 2: "createRBAC_role R instance w1 = (Ret (Inr r), w2)"
    using createRBAC_role_succeeds [OF R av, of w1 "instance"] rules by auto
  obtain w3 where 3: "createRBAC_roleBinding R instance sa r w2 = (Ret None, w3)"
    using createRBAC_roleBinding_succeeds [OF R av] .
  obtain w4 where 4: "reconcileCron R instance CommandIdle (idle_cron instance) w3 = (Ret None, w4)"
    using reconcileCron_succeeds [OF R av] by (metis kidle_suffix_members(1))
  obtain w5 where 5: "reconcileCron R instance CommandWakeup (wakeup_cron instance) w4 = (Ret None, w5)"
    using reconcileCron_succeeds [OF R av] by (metis kidle_suffix_members(2))
  have "createRBAC R instance w = (Ret None, w3)"
    using 1 2 3 by (simp add: createRBAC_def)
  with 4 5 have "ReconcileCronStrategies R instance w = (Ret (no_requeue, None), w5)"
    by (simp add: ReconcileCronStrategies_def)
  then show ?thesis by (rule that)
qed

end
