(* ===== verification/Reconcile_Facts.thy ===== *)
theory Reconcile_Facts
  imports Controller Cron_Facts
begin

text \<open>
  What one run of the reconcile loop does to the workload. The abstraction of a workload is its
  level, the level it would wake up to and its reference (\<open>workload_view\<close>); \<open>reconcile_spec\<close> is the
  abstract effect of a run. The locale \<open>workload_reconciler\<close> extends the contract of the idler and
  proves, once for the three kinds, that \<open>ReconcileWithIdler\<close> refines \<open>reconcile_spec\<close>.
\<close>

section \<open>The abstract effect\<close>

record workload =
  wl_level :: int
  wl_prior :: int
  wl_reference :: "string option"

definition reconcile_spec :: "bool \<Rightarrow> bool \<Rightarrow> string \<Rightarrow> workload \<Rightarrow> workload" where
  "reconcile_spec deleting idle name a =
     (let r = (case wl_reference a of None \<Rightarrow> Some name | Some i \<Rightarrow> Some i) in
      if deleting then \<lparr> wl_level = wl_prior a, wl_prior = 1, wl_reference = None \<rparr>
      else if \<not> idle \<and> wl_level a = 0 then a\<lparr> wl_level := wl_prior a, wl_reference := r \<rparr>
      else if idle \<and> 0 < wl_level a then
        \<lparr> wl_level = 0, wl_prior = wl_level a, wl_reference = r \<rparr>
      else a\<lparr> wl_reference := r \<rparr>)"

text \<open>The abstraction of a workload, from the level functions of its kind.\<close>

definition workload_view ::
  "'o object_ops \<Rightarrow> ('o \<Rightarrow> int) \<Rightarrow> ('o \<Rightarrow> int) \<Rightarrow> 'o \<Rightarrow> workload"
  where
  "workload_view ops level prior x =
     \<lparr> wl_level = level x, wl_prior = prior x, wl_reference = reference_of ops x \<rparr>"

text \<open>The object in memory is the one the cluster stores.\<close>

definition stored :: "('w \<Rightarrow> cluster) \<Rightarrow> 'o object_ops \<Rightarrow> 'o kind_store \<Rightarrow> 'w \<Rightarrow> 'o \<Rightarrow> bool" where
  "stored view ops ks w x \<longleftrightarrow>
     ks_get ks (view w) (object_key ops x) = Some x \<and> persisted ops x = Some x"

lemma go_outer_eq_Ret:
  "go_outer m s = (Ret r, t) \<longleftrightarrow> m (fst s) = (Ret r, fst t) \<and> snd t = snd s"
  by (cases s; cases t; cases "m (fst s)") auto

lemma on_object_eq_Ret: "on_object f s = (Ret r, t) \<longleftrightarrow> f (snd s) = Ret r \<and> t = s"
  by (cases s) (auto simp: on_object_def)

context stored_kind
begin

lemma persisted_unannotated:
  assumes "unannotated (getMeta ops y) = unannotated (getMeta ops x)" "persisted ops x = Some x"
  shows "persisted ops y = Some y"
  using assms(2) unannotated_eqD(3,5) [OF assms(1)] by (simp add: persisted_def split: if_splits)

lemma wrote_stored:
  assumes "wrote view ops ks f (w, x) (w', x')" "stored view ops ks w x"
    and "unannotated (getMeta ops (f x)) = unannotated (getMeta ops x)"
  shows "\<exists>v g. x' = stamp ops v g (f x)" "stored view ops ks w' x'"
    "view w' = ks_map ks (\<lambda>m. m(object_key ops x := Some x')) (view w)"
proof -
  obtain v g where x': "x' = stamp ops v g (f x)" and key: "object_key ops x' = object_key ops x"
    and view: "view w' = ks_map ks (\<lambda>m. m(object_key ops x := persisted ops x')) (view w)"
    using assms(1,2) unfolding wrote_def stored_def by auto
  have p: "persisted ops x' = Some x'"
    using persisted_unannotated [OF assms(3)] assms(2) unfolding x' stored_def by (simp add: persisted_stamp)
  show "\<exists>v g. x' = stamp ops v g (f x)" using x' by blast
  show "view w' = ks_map ks (\<lambda>m. m(object_key ops x := Some x')) (view w)" using view p by simp
  then show "stored view ops ks w' x'" using p key by (simp add: stored_def)
qed

lemma unannotated_with_reference [simp]:
  "unannotated (getMeta ops (with_reference ops i x)) = unannotated (getMeta ops x)"
  by (simp add: with_reference_def)

lemma unannotated_without_annotations [simp]:
  "unannotated (getMeta ops (without_annotations ops x)) = unannotated (getMeta ops x)"
  by (simp add: without_annotations_def Let_def)

end

section \<open>What an idler may touch\<close>

text \<open>
  A program that owns the object in memory with key \<open>k\<close> keeps this key and a relation between the
  worlds, whatever it ends with.
\<close>

definition owning ::
  "('w \<Rightarrow> 'w \<Rightarrow> bool) \<Rightarrow> 'o object_ops \<Rightarrow> namespaced_name \<Rightarrow> 'w \<times> 'o \<Rightarrow> 'w \<times> 'o \<Rightarrow> bool"
  where
  "owning rel ops k s t \<longleftrightarrow>
     (object_key ops (snd s) = k \<longrightarrow> object_key ops (snd t) = k \<and> rel (fst s) (fst t))"

lemma owning_laws: "reflp rel \<Longrightarrow> reflp (owning rel ops k)" "transp rel \<Longrightarrow> transp (owning rel ops k)"
  by (auto simp: owning_def reflp_def transp_def)

lemma owning_outer: "go_keeps rel m \<Longrightarrow> go_keeps (owning rel ops k) (go_outer m)"
  by (rule go_keepsI) (auto simp: owning_def dest: go_keepsD, metis go_keeps_def)

lemma owning_rules:
  assumes "reconciler_keeps rel S R"
  shows "go_keeps (owning rel ops k) (go_return x)"
    and "go_keeps (owning rel ops k) (on_object g)"
    and "go_keeps (owning rel ops k) m \<Longrightarrow> (\<And>x. go_keeps (owning rel ops k) (f x)) \<Longrightarrow>
           go_keeps (owning rel ops k) (go_bind m f)"
    and "go_keeps (owning rel ops k) c \<Longrightarrow> (\<And>e. go_keeps (owning rel ops k) (h e)) \<Longrightarrow>
           go_keeps (owning rel ops k) n \<Longrightarrow> go_keeps (owning rel ops k) (go_check c h n)"
    and "go_keeps (owning rel ops k) t \<Longrightarrow> (\<And>e. go_keeps (owning rel ops k) (h e)) \<Longrightarrow>
           (\<And>x. go_keeps (owning rel ops k) (q x)) \<Longrightarrow> go_keeps (owning rel ops k) (go_try t h q)"
    and "go_keeps (owning rel ops k) a \<Longrightarrow> go_keeps (owning rel ops k) b \<Longrightarrow>
           go_keeps (owning rel ops k) (if p then a else b)"
    and "go_keeps rel z \<Longrightarrow> go_keeps (owning rel ops k) (go_outer z)"
proof -
  note laws = owning_laws(1) [OF reconciler_keepsD(1) [OF assms], of ops k]
    owning_laws(2) [OF reconciler_keepsD(2) [OF assms], of ops k]
  show "go_keeps (owning rel ops k) (on_object g)"
    using laws(1) by (intro go_keepsI) (auto simp: on_object_def reflp_def)
  show "go_keeps (owning rel ops k) (go_return x)" by (rule go_keeps_return [OF laws(1)])
  show "go_keeps (owning rel ops k) m \<Longrightarrow> (\<And>x. go_keeps (owning rel ops k) (f x)) \<Longrightarrow>
      go_keeps (owning rel ops k) (go_bind m f)"
    by (rule go_keeps_bind [OF laws(2)])
  show "go_keeps (owning rel ops k) c \<Longrightarrow> (\<And>e. go_keeps (owning rel ops k) (h e)) \<Longrightarrow>
      go_keeps (owning rel ops k) n \<Longrightarrow> go_keeps (owning rel ops k) (go_check c h n)"
    by (rule go_keeps_check [OF laws(2)])
  show "go_keeps (owning rel ops k) t \<Longrightarrow> (\<And>e. go_keeps (owning rel ops k) (h e)) \<Longrightarrow>
      (\<And>x. go_keeps (owning rel ops k) (q x)) \<Longrightarrow> go_keeps (owning rel ops k) (go_try t h q)"
    by (rule go_keeps_try [OF laws(2)])
qed (auto intro: owning_outer)

context stored_kind
begin

lemma refetch_update_keeps:
  assumes c: "calls_keep rel ops K kc" "k \<in> K" and rel: "reflp rel" "transp rel" and id: "keeps_identity ops f"
  shows "go_keeps (owning rel ops k) (refetch_update kc ops f)"
proof -
  note laws = owning_laws(1) [OF rel(1), of ops k] owning_laws(2) [OF rel(2), of ops k]
  have get: "go_keeps (owning rel ops k) (mem_get kc ops)"
    using c(1) by (intro go_keepsI) (auto simp: owning_def mem_get_def calls_keep_def split: prod.splits sum.splits)
  have upd: "go_keeps (owning rel ops k) (mem_update kc)"
  proof (rule go_keepsI)
    fix s r t assume run: "mem_update kc s = (r, t)"
    obtain w x where s: "s = (w, x)" by fastforce
    obtain u w' where u: "kc_update kc x w = (u, w')" by fastforce
    have "rel w w' \<and> (\<forall>y. u = Inr y \<longrightarrow> (\<exists>v g. y = stamp ops v g x))" if "object_key ops x = k"
      using c u that unfolding calls_keep_def by blast
    then show "owning rel ops k s t"
      using run u s c
      by (cases u) (auto simp: owning_def mem_update_def)
  qed
  have "go_keeps (owning rel ops k) (mem_modify f)"
    using id rel(1)
    by (intro go_keepsI) (auto simp: owning_def mem_modify_def keeps_identity_def reflp_def split: outcome.splits)
  with get upd show ?thesis
    unfolding refetch_update_def by (intro go_keeps_check go_keeps_bind go_keeps_return laws)
qed

lemma retry_keeps:
  assumes c: "calls_keep rel ops K kc" "k \<in> K" and rel: "reflp rel" "transp rel" and id: "keeps_identity ops f"
  shows "go_keeps (owning rel ops k) (kc_retry kc (refetch_update kc ops f))"
proof (rule go_keepsI)
  fix s r t assume "kc_retry kc (refetch_update kc ops f) s = (r, t)"
  then have "retry_run (refetch_update kc ops f) s r t"
    using c(1) unfolding calls_keep_def retry_contract_def by blast
  then show "owning rel ops k s t"
    by (induction rule: retry_run.induct)
      (use go_keepsD [OF refetch_update_keeps [OF c rel id]] owning_laws(2) [OF rel(2), of ops k]
       in \<open>blast dest: transpD\<close>)+
qed

lemma retries_keep:
  assumes c: "calls_keep rel ops K kc" "k \<in> K" and rel: "reflp rel" "transp rel"
    and m: "retries kc ops F m" and id: "\<And>x f. f \<in> F x \<Longrightarrow> keeps_identity ops f"
  shows "go_keeps (owning rel ops k) m"
proof (rule go_keepsI)
  fix s r t assume run: "m s = (r, t)"
  obtain w x where s: "s = (w, x)" by fastforce
  from m[unfolded retries_def, rule_format, of w x] run
  consider "t = s" | (retry) f where "f \<in> F x" "snd (kc_retry kc (refetch_update kc ops f) s) = t"
    unfolding s by auto
  then show "owning rel ops k s t"
  proof cases
    case retry
    then show ?thesis using retry_keeps [OF c rel id] unfolding go_keeps_def by metis
  qed (use rel(1) in \<open>simp add: owning_def reflp_def\<close>)
qed

end

text \<open>The consequence for a part of the cluster, in a world of which \<open>view\<close> is the cluster.\<close>

definition keeps_apart ::
  "('w \<Rightarrow> cluster) \<Rightarrow> 'o object_ops \<Rightarrow> namespaced_name \<Rightarrow> (cluster \<Rightarrow> 'b) \<Rightarrow> ('w \<times> 'o, 'a) go \<Rightarrow> bool"
  where
  "keeps_apart view ops k p m \<longleftrightarrow> go_keeps (owning (\<lambda>s t. p (view t) = p (view s)) ops k) m"

lemma keeps_apartD:
  "keeps_apart view ops k p m \<Longrightarrow> m (w, x) = (r, (w', x')) \<Longrightarrow> object_key ops x = k \<Longrightarrow> p (view w') = p (view w)"
  unfolding keeps_apart_def by (drule (1) go_keepsD) (simp add: owning_def)

section \<open>Driving one workload\<close>

text \<open>
  The store of the workloads is apart from that of the instances; \<open>Idle\<close> and \<open>Wakeup\<close> change nothing
  but through one \<open>RetryOnConflict\<close>, also on a workload that is not valid, and the guards never speak
  against the wish of the instance. What \<open>Wakeup\<close> writes is determined by the recorded annotation.
\<close>

locale workload_reconciler = idler_contract +
  assumes instances_apart: "ks_get ks (cl_IdlingResources_update f c) = ks_get ks c"
    and workloads_apart: "cl_IdlingResources (ks_map ks g c) = cl_IdlingResources c"
    and Idle_retries: "retries kc ops (\<lambda>_. {sleep_step}) (Idle (New kc))"
    and Wakeup_retries: "retries kc ops (\<lambda>x. {f. f = (\<lambda>obj. Ret (wake x obj)) \<and> wake_error x = None}) (Wakeup (New kc))"
    and NeedIdle_wish: "NeedIdle (New kc) i x = Ret True \<Longrightarrow> spec_Idle (ir_Spec i)"
    and NeedWakeup_wish: "NeedWakeup (New kc) i x = Ret True \<Longrightarrow> \<not> spec_Idle (ir_Spec i)"
    and wake_recorded: "previous_of ops x = previous_of ops y \<Longrightarrow> wake x = wake y"
begin

lemma keeps_identity_annotations:
  "keeps_identity ops (\<lambda>obj. Ret (with_reference ops i obj))"
  "keeps_identity ops (\<lambda>obj. Ret (without_annotations ops obj))"
  by (simp_all add: keeps_identity_def)

text \<open>Each of the four calls keeps what the client keeps.\<close>

lemma idler_calls_keep:
  assumes c: "calls_keep rel ops K kc" "k \<in> K" and rel: "reflp rel" "transp rel"
  shows "go_keeps (owning rel ops k) (SetReference (New kc) i)"
    "go_keeps (owning rel ops k) (RemoveAnnotations (New kc))"
    "go_keeps (owning rel ops k) (Idle (New kc))"
    "go_keeps (owning rel ops k) (Wakeup (New kc))"
  unfolding New_SetReference New_RemoveAnnotations
  by (rule retries_keep [OF c rel ObjectIdler_SetReference_retries]
        retries_keep [OF c rel ObjectIdler_RemoveAnnotations_retries]
        retries_keep [OF c rel Idle_retries] retries_keep [OF c rel Wakeup_retries];
      use keeps_identity_annotations keeps_identity_sleep keeps_identity_wake in auto)+

lemma workload_view_stamp [simp]: "workload_view ops level prior_level (stamp ops v g x) = workload_view ops level prior_level x"
  by (simp add: workload_view_def)

text \<open>The four calls an idler makes, from a state where memory and cluster agree.\<close>

lemma SetReference_stage:
  assumes "kind_contract view ops ks kc" "stored view ops ks w x"
    and "SetReference (New kc) i (w, x) = (Ret None, (w', x'))"
  shows "stored view ops ks w' x' \<and> object_key ops x' = object_key ops x \<and> rest x' = rest x \<and>
     valid x' = valid x \<and> wake_error x' = wake_error x \<and>
     workload_view ops level prior_level x' = (workload_view ops level prior_level x)\<lparr> wl_reference := (case reference_of ops x of None \<Rightarrow> Some i | Some j \<Rightarrow> Some j) \<rparr>"
proof (cases "reference_of ops x")
  case None
  with ObjectIdler_SetReference_run [OF assms(1) assms(3)[unfolded New_SetReference]]
  have "wrote view ops ks (with_reference ops i) (w, x) (w', x')" by simp
  note st = wrote_stored [OF this assms(2) unannotated_with_reference]
  then obtain v g where x': "x' = stamp ops v g (with_reference ops i x)" by blast
  show ?thesis using st(2) None unfolding x' by (simp add: workload_view_def)
next
  case (Some j)
  with ObjectIdler_SetReference_run [OF assms(1) assms(3)[unfolded New_SetReference]]
  have "(w', x') = (w, x)" by simp
  with Some assms(2) show ?thesis by (simp add: workload_view_def)
qed

lemma Idle_stage:
  assumes "kind_contract view ops ks kc" "stored view ops ks w x" "valid x" "0 < level x"
    and "Idle (New kc) (w, x) = (Ret None, (w', x'))"
  shows "stored view ops ks w' x' \<and> object_key ops x' = object_key ops x \<and> rest x' = rest x \<and>
     valid x' \<and> wake_error x' = None \<and> expected_of ops x' = Some (state_text x') \<and>
     workload_view ops level prior_level x' = (workload_view ops level prior_level x)\<lparr> wl_level := 0, wl_prior := level x \<rparr>"
proof -
  obtain y where y: "sleep_step x = Ret y" using sleep_defined assms(3) by blast
  define f where "f = (\<lambda>z. case sleep_step z of Ret y \<Rightarrow> y | Panic p \<Rightarrow> z)"
  have "kc_retry kc (refetch_update kc ops sleep_step) (w, x) = (Ret None, (w', x'))"
    using assms(5) New_Idle [OF assms(3,4)] by simp
  from retry_wrote [OF assms(1) keeps_identity_sleep this, of f]
  have "wrote view ops ks f (w, x) (w', x')" by (simp add: f_def)
  moreover have "f x = y" using y by (simp add: f_def)
  moreover have m: "unannotated (getMeta ops y) = unannotated (getMeta ops x)"
    using sleep_meta [OF y] by blast
  ultimately have st: "\<exists>v g. x' = stamp ops v g y" "stored view ops ks w' x'"
    using wrote_stored(1,2) [of view f w x w' x'] assms(2) by simp_all
  then obtain v g where x': "x' = stamp ops v g y" by blast
  have "object_key ops y = object_key ops x"
    using keeps_identity_sleep y unfolding keeps_identity_def by blast
  then show ?thesis
    using st(2) sleep_level [OF y] sleep_meta [OF y] sleep_records [OF y assms(3,4)]
    unfolding x' by (simp add: workload_view_def)
qed

lemma Wakeup_stage:
  assumes "kind_contract view ops ks kc" "stored view ops ks w x" "valid x"
    and "Wakeup (New kc) (w, x) = (Ret (Inr n), (w', x'))"
  shows "stored view ops ks w' x' \<and> object_key ops x' = object_key ops x \<and> rest x' = rest x \<and>
     wake_error x = None \<and> (0 \<le> prior_level x \<longrightarrow> valid x') \<and> previous_of ops x' = previous_of ops x \<and>
     workload_view ops level prior_level x' = (workload_view ops level prior_level x)\<lparr> wl_level := prior_level x \<rparr>"
proof -
  have e: "wake_error x = None"
    using assms(3,4) New_Wakeup by (cases "wake_error x") auto
  show ?thesis
  proof (cases "skips x")
    case True
    with e assms(3,4) New_Wakeup have "(w', x') = (w, x)" by simp
    with True e assms(2,3) skips_level show ?thesis by (simp add: workload_view_def)
  next
    case False
    with e assms(3,4) New_Wakeup
    have "kc_retry kc (refetch_update kc ops (\<lambda>obj. Ret (wake x obj))) (w, x) = (Ret None, (w', x'))"
      by (auto simp: go_check_eq_Ret)
    from retry_wrote_Ret [OF assms(1) keeps_identity_wake [OF e] this]
    have "wrote view ops ks (wake x) (w, x) (w', x')" by simp
    note st = wrote_stored [OF this assms(2) wake_meta [OF e, THEN conjunct1]]
    then obtain v g where x': "x' = stamp ops v g (wake x x)" by blast
    have "object_key ops (wake x x) = object_key ops x"
      using keeps_identity_wake [OF e] unfolding keeps_identity_def by blast
    then show ?thesis
      using st(2) e wake_meta [OF e, of x] wake_level [OF e, of x] wake_valid [OF e, of x]
        by_previous [of "wake x x" x]
      unfolding x' by (simp add: workload_view_def)
  qed
qed

lemma RemoveAnnotations_stage:
  assumes "kind_contract view ops ks kc" "stored view ops ks w x" "reference_of ops x \<noteq> None"
    and "RemoveAnnotations (New kc) (w, x) = (Ret None, (w', x'))"
  shows "stored view ops ks w' x' \<and> object_key ops x' = object_key ops x \<and> rest x' = rest x \<and>
     valid x' = valid x \<and> previous_of ops x' = None \<and> expected_of ops x' = None \<and>
     workload_view ops level prior_level x' = \<lparr> wl_level = level x, wl_prior = 1, wl_reference = None \<rparr>"
proof -
  from ObjectIdler_RemoveAnnotations_run [OF assms(1) assms(4)[unfolded New_RemoveAnnotations]] assms(3)
  have "wrote view ops ks (without_annotations ops) (w, x) (w', x')" by auto
  note st = wrote_stored [OF this assms(2) unannotated_without_annotations]
  then obtain v g where x': "x' = stamp ops v g (without_annotations ops x)" by blast
  show ?thesis
    using st(2) no_previous [of "without_annotations ops x"] unfolding x' by (simp add: workload_view_def)
qed

text \<open>Events and the instance's finalizer do not concern the workload.\<close>

lemma stored_cong:
  "ks_get ks (view w') = ks_get ks (view w) \<Longrightarrow> stored view ops ks w' x = stored view ops ks w x"
  by (simp add: stored_def)

lemma removeFinalizer_keeps:
  assumes "reconciler_contract view R"
  shows "keeps_part view (ks_get ks) (removeFinalizer R instance)"
proof -
  have "update_contract view IdlingResources IdlingResourceStore (rc_IdlingResources R)"
    using assms by (simp add: reconciler_contract_def kind_contract_def)
  then have "keeps_part view (ks_get ks) (r_update (rc_IdlingResources R) i)" for i
    by (rule ik.keeps_part_update) (simp add: IdlingResourceStore_def instances_apart)
  then show ?thesis
    unfolding removeFinalizer_def Let_def by (intro go_frame)
qed

lemma event_keeps_stored:
  assumes "reconciler_contract view R" "go_outer (r_event R i ty re msg err) (w, x) = (Ret u, s)"
  shows "view (fst s) = view w \<and> snd s = x"
  using assms by (auto simp: view_r_event)

lemma wakeup_event_keeps_stored:
  assumes "reconciler_contract view R" "go_outer (wakeup_event R i n) (w, x) = (Ret u, s)"
  shows "view (fst s) = view w \<and> snd s = x"
  using assms unfolding wakeup_event_def by (cases n) (auto dest: event_keeps_stored)

lemma reconcileWakeup_run:
  assumes "reconciler_contract view R" "kind_contract view ops ks kc" "stored view ops ks w x" "valid x"
    and run: "reconcileWakeup R instance (New kc) (w, x) = (Ret (res, None), (w', x'))"
  shows "stored view ops ks w' x' \<and> object_key ops x' = object_key ops x \<and> rest x' = rest x \<and>
     (0 \<le> prior_level x \<longrightarrow> valid x') \<and> previous_of ops x' = previous_of ops x \<and>
     workload_view ops level prior_level x' = (workload_view ops level prior_level x)\<lparr> wl_level := prior_level x \<rparr>"
proof -
  obtain n w1 x1 where wk: "Wakeup (New kc) (w, x) = (Ret (Inr n), (w1, x1))"
    and ev: "go_outer (wakeup_event R instance n) (w1, x1) = (Ret (), (w', x'))"
    using run by (auto simp: reconcileWakeup_def Let_def go_eq_Ret)
  note st = Wakeup_stage [OF assms(2,3,4) wk]
  from wakeup_event_keeps_stored [OF assms(1) ev] have "view w' = view w1" "x' = x1" by simp_all
  with st show ?thesis using stored_cong [of view w' w1 x1] by simp
qed

lemma reconcileIdle_run:
  assumes "reconciler_contract view R" "kind_contract view ops ks kc" "stored view ops ks w x"
    and "valid x" "0 < level x"
    and run: "reconcileIdle R instance (New kc) (w, x) = (Ret (res, None), (w', x'))"
  shows "stored view ops ks w' x' \<and> object_key ops x' = object_key ops x \<and> rest x' = rest x \<and>
     valid x' \<and> expected_of ops x' = Some (state_text x') \<and>
     workload_view ops level prior_level x' = (workload_view ops level prior_level x)\<lparr> wl_level := 0, wl_prior := level x \<rparr>"
proof -
  obtain w1 x1 where idl: "Idle (New kc) (w, x) = (Ret None, (w1, x1))"
    and ev: "go_outer (r_event R instance EventTypeNormal (''Scaling'' @ ref_Kind (ref_of instance))
               ''Scaled to 0'' None) (w1, x1) = (Ret (), (w', x'))"
    using run by (auto simp: reconcileIdle_def Let_def go_eq_Ret)
  note st = Idle_stage [OF assms(2,3,4,5) idl]
  from event_keeps_stored [OF assms(1) ev] have "view w' = view w1" "x' = x1" by simp_all
  with st show ?thesis using stored_cong [of view w' w1 x1] by simp
qed

lemma reconcileDeletion_run:
  assumes "reconciler_contract view R" "kind_contract view ops ks kc" "stored view ops ks w x"
    and "valid x" "reference_of ops x \<noteq> None"
    and run: "reconcileDeletion R instance (New kc) (w, x) = (Ret (res, None), (w', x'))"
  shows "stored view ops ks w' x' \<and> object_key ops x' = object_key ops x \<and> rest x' = rest x \<and>
     (0 \<le> prior_level x \<longrightarrow> valid x') \<and> previous_of ops x' = None \<and> expected_of ops x' = None \<and>
     workload_view ops level prior_level x' = \<lparr> wl_level = prior_level x, wl_prior = 1, wl_reference = None \<rparr>"
proof -
  obtain n w1 x1 w2 x2 w3 x3 w4 x4 w5 x5 where
        wk: "Wakeup (New kc) (w, x) = (Ret (Inr n), (w1, x1))"
    and e1: "go_outer (wakeup_event R instance n) (w1, x1) = (Ret (), (w2, x2))"
    and rm: "RemoveAnnotations (New kc) (w2, x2) = (Ret None, (w3, x3))"
    and e2: "go_outer (r_event R instance EventTypeNormal ''Deleted''
               (''Kidle annotations on '' @ ref_Kind (ref_of instance) @ '' are deleted'') None) (w3, x3)
             = (Ret (), (w4, x4))"
    and fin: "go_outer (removeFinalizer R instance) (w4, x4) = (Ret None, (w5, x5))"
    and e3: "go_outer (r_event R instance EventTypeNormal ''Deleted'' ''Object finalizer is deleted'' None)
               (w5, x5) = (Ret (), (w', x'))"
    using run by (auto simp: reconcileDeletion_def Let_def go_eq_Ret)
  note st1 = Wakeup_stage [OF assms(2,3,4) wk]
  from wakeup_event_keeps_stored [OF assms(1) e1] have v2: "view w2 = view w1" "x2 = x1" by simp_all
  have s2: "stored view ops ks w2 x2" using st1 v2 stored_cong [of view w2 w1 x1] by simp
  have "reference_of ops x2 \<noteq> None"
    using st1 v2 assms(5) by (simp add: workload_view_def)
  note st3 = RemoveAnnotations_stage [OF assms(2) s2 this rm]
  from event_keeps_stored [OF assms(1) e2] have v4: "view w4 = view w3" "x4 = x3" by simp_all
  have v5: "ks_get ks (view w5) = ks_get ks (view w4)" "x5 = x4"
    using fin keeps_part_snd [OF removeFinalizer_keeps [OF assms(1)], where w = w4] by auto
  from event_keeps_stored [OF assms(1) e3] have v6: "view w' = view w5" "x' = x5" by simp_all
  have "stored view ops ks w' x'"
    using st3 v4 v5 v6 stored_cong [of view w' w3 x3] by simp
  with st1 st3 v2 v4 v5 v6 show ?thesis by (simp add: workload_view_def)
qed

text \<open>
  The refinement: when it succeeds on the stored workload, \<open>ReconcileWithIdler\<close> leaves in the
  cluster a workload whose abstraction is the one the specification gives.
\<close>

lemma ReconcileWithIdler_refines:
  assumes "reconciler_contract view R" "kind_contract view ops ks kc" "stored view ops ks w x" "valid x"
    and run: "ReconcileWithIdler R instance (New kc) (w, x) = (Ret (res, None), (w', x'))"
  shows "stored view ops ks w' x' \<and> object_key ops x' = object_key ops x \<and> rest x' = rest x \<and>
     (0 \<le> level x' \<longrightarrow> valid x') \<and>
     workload_view ops level prior_level x' = reconcile_spec (IsBeingDeleted instance) (spec_Idle (ir_Spec instance))
               (om_Name (ir_meta instance)) (workload_view ops level prior_level x)"
proof -
  let ?i = "om_Name (ir_meta instance)"
  obtain w1 x1 where sr: "SetReference (New kc) ?i (w, x) = (Ret None, (w1, x1))"
    and cont: "(if IsBeingDeleted instance then reconcileDeletion R instance (New kc)
        else go_bind (on_object (NeedWakeup (New kc) instance)) (\<lambda>needWakeup.
             if needWakeup then reconcileWakeup R instance (New kc)
             else go_bind (on_object (NeedIdle (New kc) instance)) (\<lambda>needIdle.
                  if needIdle then reconcileIdle R instance (New kc)
                  else go_return (no_requeue, None)))) (w1, x1) = (Ret (res, None), (w', x'))"
    using run unfolding ReconcileWithIdler_def by (auto simp: go_check_eq_Ret)
  note st = SetReference_stage [OF assms(2,3) sr]
  have s1: "stored view ops ks w1 x1" and v1: "valid x1" using st assms(4) by simp_all
  have abs1: "workload_view ops level prior_level x1 = (workload_view ops level prior_level x)\<lparr> wl_reference :=
      (case reference_of ops x of None \<Rightarrow> Some ?i | Some j \<Rightarrow> Some j) \<rparr>" using st by simp
  then have lv: "level x1 = level x" "prior_level x1 = prior_level x" "reference_of ops x1 \<noteq> None"
    by (simp_all add: workload_view_def split: option.splits)
  consider (del) "IsBeingDeleted instance"
    | (wake) "\<not> IsBeingDeleted instance" "\<not> spec_Idle (ir_Spec instance)" "level x = 0"
    | (idle) "\<not> IsBeingDeleted instance" "spec_Idle (ir_Spec instance)" "0 < level x"
    | (none) "\<not> IsBeingDeleted instance" "\<not> (\<not> spec_Idle (ir_Spec instance) \<and> level x = 0)"
        "\<not> (spec_Idle (ir_Spec instance) \<and> 0 < level x)" by blast
  then show ?thesis
  proof cases
    case del
    from reconcileDeletion_run [OF assms(1,2) s1 v1 lv(3)] cont del
    show ?thesis using st lv by (simp add: reconcile_spec_def workload_view_def)
  next
    case wake
    with cont v1 lv have "reconcileWakeup R instance (New kc) (w1, x1) = (Ret (res, None), (w', x'))"
      by (simp add: go_bind_def on_object_def New_NeedWakeup)
    from reconcileWakeup_run [OF assms(1,2) s1 v1 this] wake
    show ?thesis using st lv abs1 by (simp add: reconcile_spec_def workload_view_def Let_def)
  next
    case idle
    with cont v1 lv have "reconcileIdle R instance (New kc) (w1, x1) = (Ret (res, None), (w', x'))"
      by (simp add: go_bind_def on_object_def New_NeedWakeup New_NeedIdle)
    from reconcileIdle_run [OF assms(1,2) s1 v1 _ this] idle
    show ?thesis using st lv abs1 by (simp add: reconcile_spec_def workload_view_def Let_def)
  next
    case none
    with cont v1 lv have "(w', x') = (w1, x1)"
      by (auto simp: go_bind_def on_object_def New_NeedWakeup New_NeedIdle)
    with none show ?thesis using st v1 lv abs1 by (auto simp: reconcile_spec_def workload_view_def Let_def)
  qed
qed

text \<open>
  The frame of one run: a part of the cluster that depends neither on this workload nor on this
  instance is kept, whatever the run ends with.
\<close>

lemma removeFinalizer_frame:
  assumes F: "reconciler_keeps rel S R" and mine: "IdlingResourceSlot (meta_key (ir_meta instance)) \<in> S"
  shows "go_keeps rel (removeFinalizer R instance)"
proof -
  have "go_keeps rel (r_update (rc_IdlingResources R) (set_finalizers instance fs))" for fs
    using mine by (intro calls_keep_update [OF reconciler_keepsD(7) [OF F]]) (simp add: set_finalizers_def meta_key_def)
  then show ?thesis
    unfolding removeFinalizer_def Let_def by (intro frame_rules [OF F])
qed

lemma wakeup_event_frame: "reconciler_keeps rel S R \<Longrightarrow> go_keeps rel (wakeup_event R i n)"
  unfolding wakeup_event_def by (cases n) (simp_all add: frame_rules(7))

lemma ReconcileWithIdler_frame:
  assumes F: "reconciler_keeps rel S R" and mine: "IdlingResourceSlot (meta_key (ir_meta instance)) \<in> S"
    and c: "calls_keep rel ops K kc" "k \<in> K"
  shows "go_keeps (owning rel ops k) (ReconcileWithIdler R instance (New kc))"
  unfolding ReconcileWithIdler_def reconcileDeletion_def reconcileWakeup_def reconcileIdle_def Let_def
  by (intro owning_rules [OF F] frame_rules(7) [OF F] wakeup_event_frame [OF F] removeFinalizer_frame [OF F mine]
      idler_calls_keep [OF c reconciler_keepsD(1,2) [OF F]])

lemma removeFinalizer_keeps_part:
  assumes "reconciler_contract view R"
    and "\<And>c v. p (cl_IdlingResources_update (\<lambda>m. m(meta_key (ir_meta instance) := v)) c) = p c"
  shows "keeps_part view p (removeFinalizer R instance)"
  using assms(2) by (intro keeps_part_frame removeFinalizer_frame [OF reconciler_keeps_part [OF assms(1)]]) simp

lemma wakeup_event_keeps_part:
  "reconciler_contract view R \<Longrightarrow> keeps_part view p (wakeup_event R i n)"
  by (intro keeps_part_frame wakeup_event_frame [OF reconciler_keeps_part])

lemma idler_calls_apart:
  assumes kc: "kind_contract view ops ks kc" and p: "\<And>c v. p (ks_map ks (\<lambda>m. m(k := v)) c) = p c"
  shows "keeps_apart view ops k p (SetReference (New kc) i)"
    "keeps_apart view ops k p (RemoveAnnotations (New kc))"
    "keeps_apart view ops k p (Idle (New kc))" "keeps_apart view ops k p (Wakeup (New kc))"
  unfolding keeps_apart_def
  by (rule idler_calls_keep [OF calls_keep_part [OF kc, of "{k}"]]; simp add: p reflp_def transp_def)+

lemma ReconcileWithIdler_keeps:
  assumes R: "reconciler_contract view R" and kc: "kind_contract view ops ks kc"
    and p: "\<And>c v. p (ks_map ks (\<lambda>m. m(k := v)) c) = p c"
      "\<And>c v. p (cl_IdlingResources_update (\<lambda>m. m(meta_key (ir_meta instance) := v)) c) = p c"
  shows "keeps_apart view ops k p (ReconcileWithIdler R instance (New kc))"
  unfolding keeps_apart_def
  by (rule ReconcileWithIdler_frame [OF reconciler_keeps_part [OF R] _ calls_keep_part [OF kc, of "{k}"]])
    (simp_all add: p)

text \<open>When the server is available, the calls and the run succeed.\<close>

lemma retry_available:
  assumes "kind_contract view ops ks kc" "available view ops ks kc" "stored view ops ks w x"
    and "keeps_identity ops f" "f x = Ret y"
  obtains w' x' where "kc_retry kc (refetch_update kc ops f) (w, x) = (Ret None, (w', x'))"
  using assms(3,4,5) refetch_update_available [OF assms(1,2), of f w x x y]
  unfolding stored_def keeps_identity_def by blast

lemma SetReference_available:
  assumes "kind_contract view ops ks kc" "available view ops ks kc" "stored view ops ks w x"
  obtains w' x' where "SetReference (New kc) i (w, x) = (Ret None, (w', x'))"
proof (cases "reference_of ops x")
  case None
  obtain w' x' where "kc_retry kc (refetch_update kc ops (\<lambda>obj. Ret (with_reference ops i obj))) (w, x)
      = (Ret None, (w', x'))"
    using retry_available [OF assms, of "\<lambda>obj. Ret (with_reference ops i obj)"]
    by (auto simp: keeps_identity_def)
  with None that show ?thesis
    by (simp add: New_SetReference ObjectIdler_SetReference_def HasAnnotation_iff)
next
  case (Some j)
  with that show ?thesis
    by (simp add: New_SetReference ObjectIdler_SetReference_def HasAnnotation_iff)
qed

lemma RemoveAnnotations_available:
  assumes "kind_contract view ops ks kc" "available view ops ks kc" "stored view ops ks w x"
  obtains w' x' where "RemoveAnnotations (New kc) (w, x) = (Ret None, (w', x'))"
proof -
  obtain w' x' where "kc_retry kc (refetch_update kc ops (\<lambda>obj. Ret (without_annotations ops obj))) (w, x)
      = (Ret None, (w', x'))"
    using retry_available [OF assms, of "\<lambda>obj. Ret (without_annotations ops obj)"]
    by (auto simp: keeps_identity_def)
  with that show ?thesis
    by (cases "HasAnnotation (getMeta ops x) MetadataIdlingResourceReference \<or>
        HasAnnotation (getMeta ops x) MetadataPreviousReplicas")
      (auto simp: New_RemoveAnnotations ObjectIdler_RemoveAnnotations_def)
qed

lemma Idle_available:
  assumes "kind_contract view ops ks kc" "available view ops ks kc" "stored view ops ks w x"
    and "valid x" "0 < level x"
  obtains w' x' where "Idle (New kc) (w, x) = (Ret None, (w', x'))"
  using retry_available [OF assms(1-3) keeps_identity_sleep] sleep_defined [OF assms(4)]
    New_Idle [OF assms(4,5)] by metis

lemma Wakeup_available:
  assumes "kind_contract view ops ks kc" "available view ops ks kc" "stored view ops ks w x"
    and "valid x" "wake_error x = None"
  obtains n w' x' where "Wakeup (New kc) (w, x) = (Ret (Inr n), (w', x'))"
proof (cases "skips x")
  case True
  with assms(4,5) that show ?thesis by (simp add: New_Wakeup)
next
  case False
  obtain w' x' where "kc_retry kc (refetch_update kc ops (\<lambda>obj. Ret (wake x obj))) (w, x) = (Ret None, (w', x'))"
    using retry_available [OF assms(1-3) keeps_identity_wake [OF assms(5)]] by blast
  with False assms(4,5) that show ?thesis by (simp add: New_Wakeup)
qed

end

text \<open>The finalizer of the stored instance can be removed.\<close>

lemma removeFinalizer_available:
  assumes "reconciler_contract view R" "available view IdlingResources IdlingResourceStore (rc_IdlingResources R)"
    and "cl_IdlingResources (view w) (meta_key (ir_meta instance)) = Some instance"
  obtains w' where "removeFinalizer R instance w = (Ret None, w')"
proof -
  have "\<exists>y w'. kc_update (rc_IdlingResources R) (set_finalizers instance fs) w = (Inr y, w')" for fs
  proof (rule available_update [OF assms(2)])
    show "ks_get IdlingResourceStore (view w) (object_key IdlingResources (set_finalizers instance fs)) = Some instance"
      using assms(3) by (simp add: set_finalizers_def meta_key_def IdlingResourceStore_def)
    show "resource_version IdlingResources instance = resource_version IdlingResources (set_finalizers instance fs)"
      by (simp add: set_finalizers_def resource_version_def)
  qed blast
  then obtain y w' where "kc_update (rc_IdlingResources R) (set_finalizers instance
      (rc_RemoveFinalizer R (om_Finalizers (ir_meta instance)) IdlingResourceFinalizerName)) w = (Inr y, w')"
    by blast
  with that show ?thesis
    by (cases "ContainsString (om_Finalizers (ir_meta instance)) IdlingResourceFinalizerName")
      (auto simp: removeFinalizer_def go_try_def go_bind_def r_update_def Let_def)
qed

context workload_reconciler
begin

lemma ReconcileWithIdler_available:
  assumes R: "reconciler_contract view R" "kind_contract view ops ks kc"
    and av: "available view ops ks kc" "available view IdlingResources IdlingResourceStore (rc_IdlingResources R)"
    and x: "stored view ops ks w x" "valid x" "wake_error x = None"
    and inst: "cl_IdlingResources (view w) (meta_key (ir_meta instance)) = Some instance"
  obtains w' x' where "ReconcileWithIdler R instance (New kc) (w, x) = (Ret (no_requeue, None), (w', x'))"
proof -
  let ?i = "om_Name (ir_meta instance)"
  obtain w1 x1 where sr: "SetReference (New kc) ?i (w, x) = (Ret None, (w1, x1))"
    using SetReference_available [OF R(2) av(1) x(1)] .
  note st = SetReference_stage [OF R(2) x(1) sr]
  have s1: "stored view ops ks w1 x1" "valid x1" "wake_error x1 = None" using st x by simp_all
  consider (del) "IsBeingDeleted instance"
    | (wake) "\<not> IsBeingDeleted instance" "NeedWakeup (New kc) instance x1 = Ret True"
    | (idle) "\<not> IsBeingDeleted instance" "NeedWakeup (New kc) instance x1 = Ret False"
        "NeedIdle (New kc) instance x1 = Ret True" "0 < level x1"
    | (none) "\<not> IsBeingDeleted instance" "NeedWakeup (New kc) instance x1 = Ret False"
        "NeedIdle (New kc) instance x1 = Ret False"
    using New_NeedIdle [OF s1(2)] New_NeedWakeup [OF s1(2)] by (auto simp: valid_level)
  then show ?thesis
  proof cases
    case wake
    obtain n w2 x2 where "Wakeup (New kc) (w1, x1) = (Ret (Inr n), (w2, x2))"
      using Wakeup_available [OF R(2) av(1) s1] .
    with wake sr that show ?thesis
      by (cases n) (auto simp: ReconcileWithIdler_def on_object_def reconcileWakeup_def go_check_def
          go_try_def go_bind_def wakeup_event_def r_event_def Let_def)
  next
    case idle
    obtain w2 x2 where "Idle (New kc) (w1, x1) = (Ret None, (w2, x2))"
      using Idle_available [OF R(2) av(1) s1(1,2) idle(4)] .
    with idle sr that show ?thesis
      by (auto simp: ReconcileWithIdler_def on_object_def reconcileIdle_def go_check_def
          go_try_def go_bind_def r_event_def Let_def)
  next
    case none
    with sr that show ?thesis
      by (auto simp: ReconcileWithIdler_def on_object_def go_check_def go_bind_def)
  next
    case del
    obtain n w2 x2 where wk: "Wakeup (New kc) (w1, x1) = (Ret (Inr n), (w2, x2))"
      using Wakeup_available [OF R(2) av(1) s1] .
    note st2 = Wakeup_stage [OF R(2) s1(1,2) wk]
    obtain w3 where ev: "wakeup_event R instance n w2 = (Ret (), w3)" "view w3 = view w2"
      using R(1) by (cases n) (auto simp: wakeup_event_def r_event_def reconciler_contract_def)
    have "stored view ops ks w3 x2" using st2 stored_cong [of view w3 w2 x2] ev(2) by simp
    then obtain w4 x4 where rm: "RemoveAnnotations (New kc) (w3, x2) = (Ret None, (w4, x4))"
      using RemoveAnnotations_available [OF R(2) av(1)] by blast
    let ?e = "''Kidle annotations on '' @ ref_Kind (ref_of instance) @ '' are deleted''"
    let ?w5 = "snd (r_event R instance EventTypeNormal ''Deleted'' ?e None w4)"
    have keep: "cl_IdlingResources (view w4) = cl_IdlingResources (view w)"
    proof -
      have apart: "\<And>c v k. cl_IdlingResources (ks_map ks (\<lambda>m. m(k := v)) c) = cl_IdlingResources c"
        by (rule workloads_apart)
      have "cl_IdlingResources (view w1) = cl_IdlingResources (view w)"
        using keeps_apartD [OF idler_calls_apart(1) [OF R(2) apart] sr] by blast
      moreover have "cl_IdlingResources (view w2) = cl_IdlingResources (view w1)"
        using keeps_apartD [OF idler_calls_apart(4) [OF R(2) apart] wk] by blast
      moreover have "cl_IdlingResources (view w4) = cl_IdlingResources (view w3)"
        using keeps_apartD [OF idler_calls_apart(2) [OF R(2) apart] rm] by blast
      ultimately show ?thesis using ev(2) by simp
    qed
    have "cl_IdlingResources (view ?w5) (meta_key (ir_meta instance)) = Some instance"
      using keep inst view_r_event [OF R(1)] by simp
    then obtain w6 where fin: "removeFinalizer R instance ?w5 = (Ret None, w6)"
      using removeFinalizer_available [OF R(1) av(2)] by blast
    with wk ev rm sr del that show ?thesis
      by (simp add: ReconcileWithIdler_def reconcileDeletion_def go_check_def
          go_try_def go_bind_def r_event_def Let_def)
  qed
qed

end

text \<open>The calls of the three idlers.\<close>

lemma DeploymentIdler_retries:
  "retries kc Deployments (\<lambda>_. {deployment_idle}) (DeploymentIdler_Idle kc)"
  "retries kc Deployments (\<lambda>d. {f. f = (\<lambda>obj. Ret (deployment_wake (deployment_prior d) obj)) \<and> deployment_wake_error d = None})
     (DeploymentIdler_Wakeup kc)"
  by (auto intro!: retriesI simp: DeploymentIdler_Idle_def DeploymentIdler_Wakeup_def go_check_state
      deployment_wake_error_def deployment_prior_def split: sum.splits)

lemma StatefulSetIdler_retries:
  "retries kc StatefulSets (\<lambda>_. {statefulset_idle}) (StatefulSetIdler_Idle kc)"
  "retries kc StatefulSets (\<lambda>s. {f. f = (\<lambda>obj. Ret (statefulset_wake (statefulset_prior s) obj)) \<and> statefulset_wake_error s = None})
     (StatefulSetIdler_Wakeup kc)"
  by (auto intro!: retriesI simp: StatefulSetIdler_Idle_def StatefulSetIdler_Wakeup_def go_check_state
      statefulset_wake_error_def statefulset_prior_def split: sum.splits)

lemma CronJobIdler_retries:
  "retries kc CronJobs (\<lambda>_. {\<lambda>obj. Ret (cronjob_suspend obj)}) (CronJobIdler_Idle kc)"
  "retries kc CronJobs (\<lambda>cj. {f. f = (\<lambda>obj. Ret (cronjob_resume obj)) \<and> cronjob_wake_error cj = None}) (CronJobIdler_Wakeup kc)"
proof -
  show "retries kc CronJobs (\<lambda>_. {\<lambda>obj. Ret (cronjob_suspend obj)}) (CronJobIdler_Idle kc)"
  proof (rule retriesI)
    fix w cj show "snd (CronJobIdler_Idle kc (w, cj)) = (w, cj) \<or> (\<exists>f \<in> {\<lambda>obj. Ret (cronjob_suspend obj)}.
        snd (CronJobIdler_Idle kc (w, cj)) = snd (kc_retry kc (refetch_update kc CronJobs f) (w, cj)))"
      by (cases "cj_Suspend cj") (auto simp: CronJobIdler_Idle_def go_check_state)
  qed
  show "retries kc CronJobs (\<lambda>cj. {f. f = (\<lambda>obj. Ret (cronjob_resume obj)) \<and> cronjob_wake_error cj = None}) (CronJobIdler_Wakeup kc)"
  proof (rule retriesI)
    fix w cj show "snd (CronJobIdler_Wakeup kc (w, cj)) = (w, cj) \<or>
        (\<exists>f \<in> {f. f = (\<lambda>obj. Ret (cronjob_resume obj)) \<and> cronjob_wake_error cj = None}.
          snd (CronJobIdler_Wakeup kc (w, cj)) = snd (kc_retry kc (refetch_update kc CronJobs f) (w, cj)))"
      by (cases "cj_Suspend cj") (auto simp: CronJobIdler_Wakeup_def go_check_state cronjob_wake_error_def)
  qed
qed

lemma idler_guards:
  "DeploymentIdler_NeedIdle i d = Ret True \<Longrightarrow> spec_Idle (ir_Spec i)"
  "DeploymentIdler_NeedWakeup i d = Ret True \<Longrightarrow> \<not> spec_Idle (ir_Spec i)"
  "StatefulSetIdler_NeedIdle i s = Ret True \<Longrightarrow> spec_Idle (ir_Spec i)"
  "StatefulSetIdler_NeedWakeup i s = Ret True \<Longrightarrow> \<not> spec_Idle (ir_Spec i)"
  "CronJobIdler_NeedIdle i cj = Ret True \<Longrightarrow> spec_Idle (ir_Spec i)"
  "CronJobIdler_NeedWakeup i cj = Ret True \<Longrightarrow> \<not> spec_Idle (ir_Spec i)"
  by (auto simp: DeploymentIdler_NeedIdle_def DeploymentIdler_NeedWakeup_def StatefulSetIdler_NeedIdle_def
      StatefulSetIdler_NeedWakeup_def CronJobIdler_NeedIdle_def CronJobIdler_NeedWakeup_def split: if_splits)

lemma deployment_wake_same:
  "annotation (d_meta x) MetadataPreviousReplicas = annotation (d_meta y) MetadataPreviousReplicas \<Longrightarrow>
     deployment_wake (deployment_prior x) = deployment_wake (deployment_prior y)"
  by (simp add: deployment_prior_def deployment_previous_cases)

lemma statefulset_wake_same:
  "annotation (s_meta x) MetadataPreviousReplicas = annotation (s_meta y) MetadataPreviousReplicas \<Longrightarrow>
     statefulset_wake (statefulset_prior x) = statefulset_wake (statefulset_prior y)"
  by (simp add: statefulset_prior_def statefulset_previous_cases)

interpretation dep: workload_reconciler Deployments DeploymentStore NewDeploymentIdler
  deployment_valid deployment_level "\<lambda>d. sint (deployment_prior d)" deployment_wake_error
  deployment_idle "\<lambda>d. deployment_wake (deployment_prior d)" "\<lambda>_. False"
  "\<lambda>d. Some (deployment_prior d)" deployment_text d_rest
  by unfold_locales (simp_all add: NewDeploymentIdler_def DeploymentIdler_retries idler_guards DeploymentStore_def,
      rule deployment_wake_same)

interpretation sts: workload_reconciler StatefulSets StatefulSetStore NewStatefulSetIdler
  statefulset_valid statefulset_level "\<lambda>s. sint (statefulset_prior s)" statefulset_wake_error
  statefulset_idle "\<lambda>s. statefulset_wake (statefulset_prior s)" "\<lambda>_. False"
  "\<lambda>s. Some (statefulset_prior s)" statefulset_text s_rest
  by unfold_locales (simp_all add: NewStatefulSetIdler_def StatefulSetIdler_retries idler_guards StatefulSetStore_def,
      rule statefulset_wake_same)

interpretation cron: workload_reconciler CronJobs CronJobStore NewCronJobIdler
  cronjob_valid cronjob_level cronjob_prior cronjob_wake_error
  "\<lambda>cj. Ret (cronjob_suspend cj)" "\<lambda>_. cronjob_resume" "\<lambda>cj. cj_Suspend cj = Some False"
  "\<lambda>_. None" cronjob_text cronjob_rest
  by unfold_locales (simp_all add: NewCronJobIdler_def CronJobIdler_retries [simplified] idler_guards CronJobStore_def)

end
