(* ===== verification/Watch.thy ===== *)
theory Watch
  imports Reconcile_Facts
begin

text \<open>
  What makes the controller run: \<open>SetupWithManager\<close> registers the watches, \<open>KidleChangedPredicate\<close>
  decides which updates of watched objects count, and \<open>objectForIdlingResourceMapper\<close> turns a workload into the request for its instance
  (both in \<open>src/pkg/controllers/idlingresource_controller.go\<close>). The lemmas say that the predicate
  compares the expected state kidle recorded with the state of the workload, so that kidle's own
  writes do not wake it up again and a change by anybody else does.
\<close>

section \<open>Events\<close>

text \<open>A watched object behind the interface \<open>client.Object\<close>, by its dynamic type.\<close>

datatype client_object =
    Obj_Deployment deployment
  | Obj_StatefulSet statefulset
  | Obj_CronJob cronjob
  | Obj_Other object_meta

definition object_metadata :: "client_object \<Rightarrow> object_meta" where
  "object_metadata obj =
     (case obj of Obj_Deployment d \<Rightarrow> d_meta d | Obj_StatefulSet s \<Rightarrow> s_meta s
      | Obj_CronJob cj \<Rightarrow> cj_meta cj | Obj_Other m \<Rightarrow> m)"

text \<open>The three type assertions \<open>e.(*T)\<close>; an interface that holds nil is no \<open>T\<close>.\<close>

definition as_Deployment :: "client_object option \<Rightarrow> deployment option" where
  "as_Deployment e = (case e of Some (Obj_Deployment d) \<Rightarrow> Some d | _ \<Rightarrow> None)"

definition as_StatefulSet :: "client_object option \<Rightarrow> statefulset option" where
  "as_StatefulSet e = (case e of Some (Obj_StatefulSet s) \<Rightarrow> Some s | _ \<Rightarrow> None)"

definition as_CronJob :: "client_object option \<Rightarrow> cronjob option" where
  "as_CronJob e = (case e of Some (Obj_CronJob cj) \<Rightarrow> Some cj | _ \<Rightarrow> None)"

record update_event =
  ue_ObjectOld :: "client_object option"
  ue_ObjectNew :: "client_object option"

text \<open>The body the three cases share: \<open>state\<close> is the text of the new object's state.\<close>

definition predicate_body :: "object_meta \<Rightarrow> object_meta \<Rightarrow> string outcome \<Rightarrow> bool outcome" where
  "predicate_body old new state =
     (if annotation old MetadataIdlingResourceReference = None then Ret False
      else case annotation new MetadataExpectedState of
        None \<Rightarrow> Ret False
      | Some expected \<Rightarrow>
          bind_outcome state (\<lambda>s. if s \<noteq> expected then Ret True else Ret False))"

definition KidleChangedPredicate_Update :: "update_event \<Rightarrow> bool outcome" where
  "KidleChangedPredicate_Update e =
     (case (as_Deployment (ue_ObjectOld e), as_Deployment (ue_ObjectNew e)) of
        (Some oldDeploy, Some newDeploy) \<Rightarrow>
          predicate_body (d_meta oldDeploy) (d_meta newDeploy)
            (bind_outcome (deref (d_Replicas newDeploy)) (\<lambda>r. Ret (Itoa (sint r))))
      | _ \<Rightarrow>
     (case (as_StatefulSet (ue_ObjectOld e), as_StatefulSet (ue_ObjectNew e)) of
        (Some oldSts, Some newSts) \<Rightarrow>
          predicate_body (s_meta oldSts) (s_meta newSts)
            (bind_outcome (deref (s_Replicas newSts)) (\<lambda>r. Ret (Itoa (sint r))))
      | _ \<Rightarrow>
     (case (as_CronJob (ue_ObjectOld e), as_CronJob (ue_ObjectNew e)) of
        (Some oldCj, Some newCj) \<Rightarrow>
          predicate_body (cj_meta oldCj) (cj_meta newCj)
            (bind_outcome (deref (cj_Suspend newCj)) (\<lambda>b. Ret (FormatBool b)))
      | _ \<Rightarrow> Ret True)))"

definition objectForIdlingResourceMapper :: "client_object \<Rightarrow> namespaced_name list" where
  "objectForIdlingResourceMapper obj =
     (case annotation (object_metadata obj) MetadataIdlingResourceReference of
        None \<Rightarrow> []
      | Some ref \<Rightarrow> [\<lparr> nn_Namespace = om_Namespace (object_metadata obj), nn_Name = ref \<rparr>])"

section \<open>The set-up\<close>

text \<open>
  \<open>SetupWithManager\<close> hands the controller runtime the kind that is reconciled, the kinds whose
  objects are owned by it, the filter of all events and the watched kinds with their mappers;
  \<open>complete\<close> is the builder's \<open>Complete\<close>.
\<close>

record controller_config =
  cc_For :: string
  cc_Owns :: "string list"
  cc_EventFilter :: "update_event \<Rightarrow> bool outcome"
  cc_Watches :: "(string \<times> (client_object \<Rightarrow> namespaced_name list)) list"

definition controller_setup :: controller_config where
  "controller_setup =
     \<lparr> cc_For = ''IdlingResource'',
       cc_Owns = [''CronJob'', ''ServiceAccount'', ''Role'', ''RoleBinding''],
       cc_EventFilter = KidleChangedPredicate_Update,
       cc_Watches =
         [(''Deployment'', objectForIdlingResourceMapper),
          (''StatefulSet'', objectForIdlingResourceMapper),
          (''CronJob'', objectForIdlingResourceMapper)] \<rparr>"

definition SetupWithManager ::
  "(controller_config \<Rightarrow> ('w, go_error option) go) \<Rightarrow> ('w, go_error option) go"
  where
  "SetupWithManager complete = complete controller_setup"

text \<open>The kind of a watched object; what is not a workload names its kind itself.\<close>

definition object_kind_name :: "client_object \<Rightarrow> string option" where
  "object_kind_name obj =
     (case obj of Obj_Deployment d \<Rightarrow> Some ''Deployment'' | Obj_StatefulSet s \<Rightarrow> Some ''StatefulSet''
      | Obj_CronJob cj \<Rightarrow> Some ''CronJob'' | Obj_Other m \<Rightarrow> None)"

text \<open>
  What the controller runtime documents of the requests an update event leads to: none when the
  filter rejects the event, and otherwise at least those the mapper of a watch on the kind of the new
  object gives for it.
\<close>

definition dispatch_contract :: "(controller_config \<Rightarrow> update_event \<Rightarrow> namespaced_name set) \<Rightarrow> bool" where
  "dispatch_contract requests \<longleftrightarrow>
     (\<forall>cfg e. (cc_EventFilter cfg e = Ret False \<longrightarrow> requests cfg e = {}) \<and>
        (\<forall>kind f obj. cc_EventFilter cfg e = Ret True \<longrightarrow> (kind, f) \<in> set (cc_Watches cfg) \<longrightarrow>
           ue_ObjectNew e = Some obj \<longrightarrow> object_kind_name obj = Some kind \<longrightarrow>
           set (f obj) \<subseteq> requests cfg e))"

lemma dispatch_contractD:
  assumes "dispatch_contract requests"
  shows "cc_EventFilter cfg e = Ret False \<Longrightarrow> requests cfg e = {}"
    and "cc_EventFilter cfg e = Ret True \<Longrightarrow> (kind, f) \<in> set (cc_Watches cfg) \<Longrightarrow>
           ue_ObjectNew e = Some obj \<Longrightarrow> object_kind_name obj = Some kind \<Longrightarrow> set (f obj) \<subseteq> requests cfg e"
  using assms unfolding dispatch_contract_def by blast+

section \<open>What the predicate compares\<close>

text \<open>The workload drifted from the state kidle expects.\<close>

definition drifted :: "object_meta \<Rightarrow> object_meta \<Rightarrow> string \<Rightarrow> bool" where
  "drifted old new state \<longleftrightarrow> annotation old MetadataIdlingResourceReference \<noteq> None \<and>
     (case annotation new MetadataExpectedState of None \<Rightarrow> False | Some expected \<Rightarrow> state \<noteq> expected)"

lemma predicate_body_eq [simp]: "predicate_body old new (Ret state) = Ret (drifted old new state)"
  by (simp add: predicate_body_def drifted_def split: option.splits)

definition updated :: "client_object \<Rightarrow> client_object \<Rightarrow> update_event" where
  "updated old new = \<lparr> ue_ObjectOld = Some old, ue_ObjectNew = Some new \<rparr>"

lemma KidleChangedPredicate_Update_workload:
  "d_Replicas d' \<noteq> None \<Longrightarrow> KidleChangedPredicate_Update (updated (Obj_Deployment d) (Obj_Deployment d'))
     = Ret (drifted (d_meta d) (d_meta d') (deployment_text d'))"
  "s_Replicas s' \<noteq> None \<Longrightarrow> KidleChangedPredicate_Update (updated (Obj_StatefulSet s) (Obj_StatefulSet s'))
     = Ret (drifted (s_meta s) (s_meta s') (statefulset_text s'))"
  "cj_Suspend cj' \<noteq> None \<Longrightarrow> KidleChangedPredicate_Update (updated (Obj_CronJob cj) (Obj_CronJob cj'))
     = Ret (drifted (cj_meta cj) (cj_meta cj') (cronjob_text cj'))"
  by (auto simp: KidleChangedPredicate_Update_def updated_def as_Deployment_def as_StatefulSet_def
      as_CronJob_def deployment_text_def
      statefulset_text_def cronjob_text_def deployment_level_def statefulset_level_def
      split: option.splits)

lemma KidleChangedPredicate_Update_other:
  "KidleChangedPredicate_Update (updated (Obj_Other m) obj) = Ret True"
  "KidleChangedPredicate_Update (updated obj (Obj_Other m)) = Ret True"
  by (simp_all add: KidleChangedPredicate_Update_def updated_def as_Deployment_def as_StatefulSet_def
      as_CronJob_def split: option.splits client_object.splits)

text \<open>
  kidle's own writes are no drift: the reference is new in the first, the expected state is the
  state after \<open>Idle\<close> and \<open>Wakeup\<close>, and gone after \<open>RemoveAnnotations\<close>. The metadata the server
  stamps makes no difference.
\<close>

context idler_contract
begin

lemma reference_no_drift: "reference_of ops x = None \<Longrightarrow> \<not> drifted (getMeta ops x) m state"
  by (simp add: drifted_def)

lemma sleep_no_drift:
  "sleep_step x = Ret y \<Longrightarrow> \<not> drifted m (getMeta ops (stamp ops v g y)) (state_text (stamp ops v g y))"
  using sleep_meta [of x y] by (auto simp: drifted_def)

lemma wake_no_drift:
  "wake_error x = None \<Longrightarrow>
     \<not> drifted m (getMeta ops (stamp ops v g (wake x y))) (state_text (stamp ops v g (wake x y)))"
  using wake_meta [of x y] by (auto simp: drifted_def)

lemma removal_no_drift: "\<not> drifted m (getMeta ops (stamp ops v g (without_annotations ops x))) state"
  by (simp add: drifted_def)

end

lemma objectForIdlingResourceMapper_iff:
  "req \<in> set (objectForIdlingResourceMapper obj) \<longleftrightarrow>
     annotation (object_metadata obj) MetadataIdlingResourceReference = Some (nn_Name req) \<and>
     om_Namespace (object_metadata obj) = nn_Namespace req"
  by (auto simp: objectForIdlingResourceMapper_def split: option.splits)

end
