(* ===== verification/Sim.thy ===== *)
theory Sim
  imports Reconciler
begin

text \<open>
  A concrete API server: a cluster in memory, a clock that numbers resource versions, and the list
  of recorded events. Its clients are instances of \<open>kind_client\<close>; the theory proves that they meet
  the contracts of \<open>KubeApi\<close>, with fresh reads and calls that fail only for a reason in the stored
  state. So the contracts are consistent, and every theorem that assumes them can be applied to a
  run of the code against this server.
\<close>

section \<open>The server\<close>

record sim_world =
  sw_cluster :: cluster
  sw_clock :: nat
  sw_events :: "event list"

text \<open>An entry the server would have stored; others are not visible.\<close>

definition genuine :: "'o object_ops \<Rightarrow> namespaced_name \<Rightarrow> 'o \<Rightarrow> bool" where
  "genuine ops key x \<longleftrightarrow> object_key ops x = key \<and> resource_version ops x \<noteq> '''' \<and>
     \<not> (meta_deleting (getMeta ops x) \<and> om_Finalizers (getMeta ops x) = [])"

definition visible :: "'o object_ops \<Rightarrow> (namespaced_name \<rightharpoonup> 'o) \<Rightarrow> (namespaced_name \<rightharpoonup> 'o)" where
  "visible ops m = (\<lambda>key. case m key of None \<Rightarrow> None | Some x \<Rightarrow> if genuine ops key x then Some x else None)"

definition visible_cluster :: "cluster \<Rightarrow> cluster" where
  "visible_cluster c =
     \<lparr> cl_Deployments = visible Deployments (cl_Deployments c),
       cl_StatefulSets = visible StatefulSets (cl_StatefulSets c),
       cl_CronJobs = visible CronJobs (cl_CronJobs c),
       cl_IdlingResources = visible IdlingResources (cl_IdlingResources c),
       cl_ServiceAccounts = visible ServiceAccounts (cl_ServiceAccounts c),
       cl_Roles = visible Roles (cl_Roles c),
       cl_RoleBindings = visible RoleBindings (cl_RoleBindings c) \<rparr>"

definition sim_view :: "sim_world \<Rightarrow> cluster" where
  "sim_view w = visible_cluster (sw_cluster w)"

text \<open>The version the next accepted write gets, and the write.\<close>

definition sim_stamp :: "'o object_ops \<Rightarrow> sim_world \<Rightarrow> 'o \<Rightarrow> 'o" where
  "sim_stamp ops w x = stamp ops (Itoa (int (sw_clock w))) (om_managed (getMeta ops x)) x"

definition sim_put :: "'o kind_store \<Rightarrow> namespaced_name \<Rightarrow> 'o option \<Rightarrow> sim_world \<Rightarrow> sim_world" where
  "sim_put ks key v w =
     w\<lparr> sw_cluster := ks_map ks (\<lambda>m. m(key := v)) (sw_cluster w), sw_clock := Suc (sw_clock w) \<rparr>"

definition sim_lookup :: "'o object_ops \<Rightarrow> 'o kind_store \<Rightarrow> sim_world \<Rightarrow> namespaced_name \<Rightarrow> 'o option" where
  "sim_lookup ops ks w key = visible ops (ks_get ks (sw_cluster w)) key"

section \<open>Its clients\<close>

definition sim_get ::
  "'o object_ops \<Rightarrow> 'o kind_store \<Rightarrow> namespaced_name \<Rightarrow> sim_world \<Rightarrow> (go_error + 'o) \<times> sim_world"
  where
  "sim_get ops ks key w =
     (case sim_lookup ops ks w key of None \<Rightarrow> Inl (ApiError NotFound) | Some x \<Rightarrow> Inr x, w)"

definition sim_update ::
  "'o object_ops \<Rightarrow> 'o kind_store \<Rightarrow> 'o \<Rightarrow> sim_world \<Rightarrow> (go_error + 'o) \<times> sim_world"
  where
  "sim_update ops ks x w =
     (case sim_lookup ops ks w (object_key ops x) of
        None \<Rightarrow> (Inl (ApiError NotFound), w)
      | Some cur \<Rightarrow>
          if resource_version ops x \<noteq> '''' \<and> resource_version ops x \<noteq> resource_version ops cur
          then (Inl (ApiError Conflict), w)
          else let y = sim_stamp ops w x in (Inr y, sim_put ks (object_key ops x) (persisted ops y) w))"

definition sim_create ::
  "'o object_ops \<Rightarrow> 'o kind_store \<Rightarrow> 'o \<Rightarrow> sim_world \<Rightarrow> (go_error + 'o) \<times> sim_world"
  where
  "sim_create ops ks x w =
     (if meta_deleting (getMeta ops x) then (Inl (ApiError (OtherReason ''Invalid'')), w)
      else case sim_lookup ops ks w (object_key ops x) of
        Some cur \<Rightarrow> (Inl (ApiError AlreadyExists), w)
      | None \<Rightarrow> let y = sim_stamp ops w x in (Inr y, sim_put ks (object_key ops x) (Some y) w))"

definition sim_delete ::
  "'o object_ops \<Rightarrow> 'o kind_store \<Rightarrow> 'o \<Rightarrow> string \<Rightarrow> sim_world \<Rightarrow> go_error option \<times> sim_world"
  where
  "sim_delete ops ks x policy w =
     (case sim_lookup ops ks w (object_key ops x) of
        None \<Rightarrow> (Some (ApiError NotFound), w)
      | Some cur \<Rightarrow>
          (None, sim_put ks (object_key ops x)
             (if om_Finalizers (getMeta ops cur) = [] then None
              else Some (sim_stamp ops w (terminating ops (sw_clock w) cur))) w))"

text \<open>\<open>retry.DefaultRetry\<close> has five steps.\<close>

fun retry_steps :: "nat \<Rightarrow> ('s, go_error option) go \<Rightarrow> ('s, go_error option) go" where
  "retry_steps 0 fn s = fn s"
| "retry_steps (Suc n) fn s =
     (case fn s of
        (Ret (Some e), t) \<Rightarrow> if IsConflict e then retry_steps n fn t else (Ret (Some e), t)
      | (Ret None, t) \<Rightarrow> (Ret None, t)
      | (Panic p, t) \<Rightarrow> (Panic p, t))"

definition sim_client :: "'o object_ops \<Rightarrow> 'o kind_store \<Rightarrow> (sim_world, 'o) kind_client" where
  "sim_client ops ks =
     \<lparr> kc_get = sim_get ops ks, kc_update = sim_update ops ks, kc_create = sim_create ops ks,
       kc_delete = sim_delete ops ks, kc_retry = retry_steps 4 \<rparr>"

lemma retry_steps_run: "retry_steps n fn s = (r, t) \<Longrightarrow> retry_run fn s r t"
proof (induction n arbitrary: s)
  case 0
  then show ?case
    by (cases r; cases "case r of Ret e \<Rightarrow> e | Panic p \<Rightarrow> None") (auto intro: retry_run.intros)
next
  case (Suc n)
  then show ?case
    by (auto split: prod.splits outcome.splits option.splits if_splits intro: retry_run.intros)
qed

lemma Itoa_not_Nil [simp]: "Itoa n \<noteq> []"
  unfolding Itoa_def by (metis itoa_nat_head list.distinct(1) not_Cons_self2)

section \<open>It meets the contracts\<close>

locale sim_kind = stored_kind +
  assumes clean_get: "ks_get ks (visible_cluster c) = visible ops (ks_get ks c)"
    and clean_put: "visible_cluster (ks_map ks (\<lambda>m. m(k := v)) c)
      = ks_map ks (\<lambda>m. m(k := (case v of None \<Rightarrow> None | Some x \<Rightarrow> if genuine ops k x then Some x else None)))
          (visible_cluster c)"
begin

lemma lookup_view: "sim_lookup ops ks w key = ks_get ks (sim_view w) key"
  by (simp add: sim_lookup_def sim_view_def clean_get)

lemma lookup_genuine: "ks_get ks (sim_view w) key = Some x \<Longrightarrow> genuine ops key x"
  by (auto simp: sim_view_def clean_get visible_def split: option.splits if_splits)

lemma genuine_persisted: "genuine ops key x \<Longrightarrow> persisted ops x = Some x"
  by (simp add: genuine_def persisted_def)

lemma view_put:
  "(\<And>x. v = Some x \<Longrightarrow> genuine ops key x) \<Longrightarrow>
     sim_view (sim_put ks key v w) = ks_map ks (\<lambda>m. m(key := v)) (sim_view w)"
  by (cases v) (simp_all add: sim_view_def sim_put_def clean_put)

lemma sim_stamp_form: "\<exists>v g. sim_stamp ops w x = stamp ops v g x \<and> v \<noteq> ''''"
proof (intro exI conjI)
  show "sim_stamp ops w x = stamp ops (Itoa (int (sw_clock w))) (om_managed (getMeta ops x)) x"
    by (rule sim_stamp_def)
qed simp

lemma genuine_stamp:
  "persisted ops (sim_stamp ops w x) = Some y \<Longrightarrow> genuine ops (object_key ops x) y"
  by (auto simp: sim_stamp_def genuine_def persisted_def getMeta_stamp split: if_splits)

lemma sim_get_contract: "get_contract sim_view ops ks (sim_client ops ks)"
  by (auto simp: get_contract_def sim_client_def sim_get_def lookup_view genuine_persisted
      dest: lookup_genuine simp: genuine_def split: option.splits)

lemma sim_update_contract: "update_contract sim_view ops ks (sim_client ops ks)"
proof -
  have "sim_view (sim_put ks (object_key ops x) (persisted ops (sim_stamp ops w x)) w)
      = ks_map ks (\<lambda>m. m(object_key ops x := persisted ops (sim_stamp ops w x))) (sim_view w)" for x w
    by (rule view_put) (rule genuine_stamp)
  with sim_stamp_form show ?thesis
    by (auto simp: update_contract_def sim_client_def sim_update_def lookup_view Let_def
        split: option.splits if_splits)
qed

lemma sim_create_contract: "create_contract sim_view ops ks (sim_client ops ks)"
proof -
  have "sim_view (sim_put ks (object_key ops x) (Some (sim_stamp ops w x)) w)
      = ks_map ks (\<lambda>m. m(object_key ops x := Some (sim_stamp ops w x))) (sim_view w)"
    if "\<not> meta_deleting (getMeta ops x)" for x w
    using that by (intro view_put) (auto simp: sim_stamp_def genuine_def getMeta_stamp meta_deleting_def)
  with sim_stamp_form show ?thesis
    by (auto simp: create_contract_def sim_client_def sim_create_def lookup_view Let_def
        split: option.splits if_splits)
qed

lemma view_put_deleted:
  assumes "object_key ops cur = key"
  shows "sim_view (sim_put ks key (if om_Finalizers (getMeta ops cur) = [] then None
          else Some (sim_stamp ops w (terminating ops n cur))) w)
      = ks_map ks (\<lambda>m. m(key := (if om_Finalizers (getMeta ops cur) = [] then None
          else Some (sim_stamp ops w (terminating ops n cur))))) (sim_view w)"
  using assms
  by (intro view_put)
    (auto simp: sim_stamp_def genuine_def terminating_def getMeta_stamp object_key_def meta_key_def
      resource_version_def split: if_splits)

lemma sim_delete_contract: "delete_contract sim_view ops ks (sim_client ops ks)"
proof -
  show ?thesis
    unfolding delete_contract_def
  proof (intro allI impI)
    fix x policy w r w'
    assume run: "kc_delete (sim_client ops ks) x policy w = (r, w')"
    let ?key = "object_key ops x"
    show "(\<forall>e. r = Some e \<longrightarrow> sim_view w' = sim_view w \<and>
           (IsNotFound e \<longrightarrow> ks_get ks (sim_view w) ?key = None)) \<and>
        (r = None \<longrightarrow> (\<exists>cur t v g. ks_get ks (sim_view w) ?key = Some cur \<and>
           sim_view w' = ks_map ks (\<lambda>m. m(?key :=
              (if om_Finalizers (getMeta ops cur) = [] then None
               else Some (stamp ops v g (terminating ops t cur))))) (sim_view w)))"
    proof (cases "ks_get ks (sim_view w) ?key")
      case None
      with run show ?thesis by (auto simp: sim_client_def sim_delete_def lookup_view)
    next
      case (Some cur)
      then have "object_key ops cur = ?key" using lookup_genuine by (simp add: genuine_def)
      note put = view_put_deleted [OF this, where n = "sw_clock w" and w = w]
      from Some run have "r = None" "w' = sim_put ks ?key (if om_Finalizers (getMeta ops cur) = [] then None
          else Some (sim_stamp ops w (terminating ops (sw_clock w) cur))) w"
        by (auto simp: sim_client_def sim_delete_def lookup_view)
      then have "sim_view w' = ks_map ks (\<lambda>m. m(?key := (if om_Finalizers (getMeta ops cur) = [] then None
          else Some (stamp ops (Itoa (int (sw_clock w)))
                 (om_managed (getMeta ops (terminating ops (sw_clock w) cur))) (terminating ops (sw_clock w) cur)))))
          (sim_view w)"
        using put by (simp only: sim_stamp_def)
      with Some \<open>r = None\<close> show ?thesis by (simp only: option.simps) (intro conjI allI impI exI; simp)
    qed
  qed
qed

lemma sim_kind_contract: "kind_contract sim_view ops ks (sim_client ops ks)"
  by (simp add: kind_contract_def sim_get_contract sim_update_contract sim_create_contract
      sim_delete_contract retry_contract_def)
    (simp add: sim_client_def retry_steps_run)

lemma sim_available: "available sim_view ops ks (sim_client ops ks)"
  by (auto simp: available_def sim_client_def sim_get_def sim_update_def sim_create_def sim_delete_def
      lookup_view Let_def split: option.splits)

end

interpretation sim_d: sim_kind Deployments DeploymentStore
  by unfold_locales (auto simp: visible_cluster_def visible_def store_defs fun_eq_iff split: option.splits)

interpretation sim_s: sim_kind StatefulSets StatefulSetStore
  by unfold_locales (auto simp: visible_cluster_def visible_def store_defs fun_eq_iff split: option.splits)

interpretation sim_c: sim_kind CronJobs CronJobStore
  by unfold_locales (auto simp: visible_cluster_def visible_def store_defs fun_eq_iff split: option.splits)

interpretation sim_i: sim_kind IdlingResources IdlingResourceStore
  by unfold_locales (auto simp: visible_cluster_def visible_def store_defs fun_eq_iff split: option.splits)

interpretation sim_a: sim_kind ServiceAccounts ServiceAccountStore
  by unfold_locales (auto simp: visible_cluster_def visible_def store_defs fun_eq_iff split: option.splits)

interpretation sim_r: sim_kind Roles RoleStore
  by unfold_locales (auto simp: visible_cluster_def visible_def store_defs fun_eq_iff split: option.splits)

interpretation sim_b: sim_kind RoleBindings RoleBindingStore
  by unfold_locales (auto simp: visible_cluster_def visible_def store_defs fun_eq_iff split: option.splits)

section \<open>The reconciler on this server\<close>

text \<open>
  Its \<open>controllerutil\<close>: the finalizer is appended when it is missing, every occurrence is removed,
  and the owner reference is put in front.
\<close>

definition sim_owner :: "IdlingResource \<Rightarrow> object_meta \<Rightarrow> go_error + object_meta" where
  "sim_owner instance m = Inr (m\<lparr> om_OwnerReferences :=
     \<lparr> or_APIVersion = tm_APIVersion (ir_TypeMeta instance), or_Kind = tm_Kind (ir_TypeMeta instance),
       or_Name = om_Name (ir_meta instance), or_Controller = True \<rparr> # om_OwnerReferences m \<rparr>)"

definition sim_reconciler :: "string \<Rightarrow> sim_world reconciler" where
  "sim_reconciler kidlectl =
     \<lparr> rc_Deployments = sim_client Deployments DeploymentStore,
       rc_StatefulSets = sim_client StatefulSets StatefulSetStore,
       rc_CronJobs = sim_client CronJobs CronJobStore,
       rc_IdlingResources = sim_client IdlingResources IdlingResourceStore,
       rc_ServiceAccounts = sim_client ServiceAccounts ServiceAccountStore,
       rc_Roles = sim_client Roles RoleStore,
       rc_RoleBindings = sim_client RoleBindings RoleBindingStore,
       rc_Event = (\<lambda>ev w. w\<lparr> sw_events := sw_events w @ [ev] \<rparr>),
       rc_SetControllerReference = sim_owner,
       rc_AddFinalizer = (\<lambda>fs f. if f \<in> set fs then fs else fs @ [f]),
       rc_RemoveFinalizer = (\<lambda>fs f. filter (\<lambda>g. g \<noteq> f) fs),
       rc_RoleGroup = (\<lambda>_. ''''),
       rc_KidlectlImage = kidlectl \<rparr>"

lemma sim_reconciler_contract: "reconciler_contract sim_view (sim_reconciler kidlectl)"
proof -
  have "controllerutil_contract (sim_reconciler kidlectl)"
    by (auto simp: controllerutil_contract_def sim_reconciler_def sim_owner_def)
  moreover have "sim_view (w\<lparr> sw_events := es \<rparr>) = sim_view w" for w es
    by (simp add: sim_view_def)
  ultimately show ?thesis
    by (simp add: reconciler_contract_def sim_d.sim_kind_contract sim_s.sim_kind_contract
        sim_c.sim_kind_contract sim_i.sim_kind_contract sim_a.sim_kind_contract
        sim_r.sim_kind_contract sim_b.sim_kind_contract)
      (simp add: sim_reconciler_def sim_d.sim_kind_contract sim_s.sim_kind_contract
        sim_c.sim_kind_contract sim_i.sim_kind_contract sim_a.sim_kind_contract
        sim_r.sim_kind_contract sim_b.sim_kind_contract)
qed

lemma sim_reconciler_available: "reconciler_available sim_view (sim_reconciler kidlectl)"
  by (simp add: reconciler_available_def sim_reconciler_def sim_owner_def sim_d.sim_available
      sim_s.sim_available sim_c.sim_available sim_i.sim_available sim_a.sim_available
      sim_r.sim_available sim_b.sim_available)

section \<open>A small cluster\<close>

text \<open>
  A Deployment, a StatefulSet and a CronJob named \<open>web\<close>, awake, and one instance that refers to
  the one of the given kind.
\<close>

definition demo_meta :: "string \<Rightarrow> object_meta" where
  "demo_meta name = (ObjectMeta ''default'' name)\<lparr> om_ResourceVersion := ''1'' \<rparr>"

definition demo_req :: namespaced_name where
  "demo_req = \<lparr> nn_Namespace = ''default'', nn_Name = ''web-idler'' \<rparr>"

definition demo_target :: namespaced_name where
  "demo_target = \<lparr> nn_Namespace = ''default'', nn_Name = ''web'' \<rparr>"

definition demo_instance :: "string \<Rightarrow> bool \<Rightarrow> IdlingResource" where
  "demo_instance kind idle =
     \<lparr> ir_TypeMeta = \<lparr> tm_Kind = ''IdlingResource'', tm_APIVersion = ''kidle.kidle.dev/v1beta1'' \<rparr>,
       ir_meta = demo_meta ''web-idler'',
       ir_Spec = \<lparr> spec_IdlingResourceRef = \<lparr> ref_Kind = kind, ref_Name = ''web'', ref_APIVersion = ''apps/v1'' \<rparr>,
                    spec_Idle = idle,
                    spec_IdlingStrategy = Some \<lparr> is_CronStrategy = Some \<lparr> cs_Schedule = ''0 20 * * *'' \<rparr>,
                                                 is_InactiveStrategy = None \<rparr>,
                    spec_WakeupStrategy = None \<rparr>,
       ir_Status = IdlingResourceStatus \<rparr>"

text \<open>The same instance after its deletion was requested.\<close>

definition demo_deleted :: "string \<Rightarrow> bool \<Rightarrow> IdlingResource" where
  "demo_deleted kind idle = (demo_instance kind idle)
     \<lparr> ir_meta := (demo_meta ''web-idler'')\<lparr> om_DeletionTimestamp := Some 5,
                     om_Finalizers := [IdlingResourceFinalizerName] \<rparr> \<rparr>"

definition demo_deployment :: deployment where
  "demo_deployment = \<lparr> d_meta = demo_meta ''web'', d_Replicas = Some 3, d_rest = ''web pods'' \<rparr>"

definition demo_statefulset :: statefulset where
  "demo_statefulset = \<lparr> s_meta = demo_meta ''web'', s_Replicas = Some 2, s_rest = ''web pods'' \<rparr>"

definition demo_cronjob :: cronjob where
  "demo_cronjob =
     \<lparr> cj_TypeMeta = \<lparr> tm_Kind = ''CronJob'', tm_APIVersion = ''batch/v1beta1'' \<rparr>,
       cj_meta = demo_meta ''web'', cj_Schedule = ''5 * * * *'', cj_Suspend = Some False,
       cj_ServiceAccountName = '''', cj_RestartPolicy = ''Never'', cj_Containers = [], cj_rest = '''' \<rparr>"

definition demo_world :: "IdlingResource \<Rightarrow> sim_world" where
  "demo_world i =
     \<lparr> sw_cluster =
         \<lparr> cl_Deployments = [demo_target \<mapsto> demo_deployment],
            cl_StatefulSets = [demo_target \<mapsto> demo_statefulset],
            cl_CronJobs = [demo_target \<mapsto> demo_cronjob],
            cl_IdlingResources = [demo_req \<mapsto> i],
            cl_ServiceAccounts = Map.empty, cl_Roles = Map.empty, cl_RoleBindings = Map.empty \<rparr>,
       sw_clock = 7, sw_events = [] \<rparr>"

abbreviation demo_reconciler :: "sim_world reconciler" where
  "demo_reconciler \<equiv> sim_reconciler ''kidledev/kidlectl:main''"

lemmas demo_defs = demo_meta_def demo_req_def demo_target_def demo_instance_def demo_deleted_def
  demo_deployment_def demo_statefulset_def demo_cronjob_def demo_world_def ObjectMeta_def

lemma demo_view [simp]:
  "cl_Deployments (sim_view (demo_world i)) = [demo_target \<mapsto> demo_deployment]"
  "cl_StatefulSets (sim_view (demo_world i)) = [demo_target \<mapsto> demo_statefulset]"
  "cl_CronJobs (sim_view (demo_world i)) = [demo_target \<mapsto> demo_cronjob]"
  "cl_ServiceAccounts (sim_view (demo_world i)) = Map.empty"
  "cl_Roles (sim_view (demo_world i)) = Map.empty"
  "cl_RoleBindings (sim_view (demo_world i)) = Map.empty"
  by (auto simp: sim_view_def visible_cluster_def visible_def demo_defs genuine_def object_key_def
      meta_key_def resource_version_def meta_deleting_def ops_defs fun_eq_iff)

lemma demo_view_instance [simp]:
  "cl_IdlingResources (sim_view (demo_world (demo_instance kind idle))) = [demo_req \<mapsto> demo_instance kind idle]"
  "cl_IdlingResources (sim_view (demo_world (demo_deleted kind idle))) = [demo_req \<mapsto> demo_deleted kind idle]"
  by (auto simp: sim_view_def visible_cluster_def visible_def demo_defs genuine_def object_key_def
      meta_key_def resource_version_def meta_deleting_def ops_defs fun_eq_iff)

end
