(* ===== verification/Reconcile_System.thy ===== *)
theory Reconcile_System
  imports Reconcile_Facts Sim
begin

text \<open>
  One whole run of \<open>Reconcile\<close>: the finalizer, the cron strategies, the workload. The three cases of
  the switch on the kind are instances of one lemma about \<open>workload_reconciler\<close>.
\<close>

section \<open>The finalizer\<close>

text \<open>The instance as it is after the finalizer stage.\<close>

definition same_instance :: "IdlingResource \<Rightarrow> IdlingResource \<Rightarrow> bool" where
  "same_instance i j \<longleftrightarrow> meta_key (ir_meta j) = meta_key (ir_meta i) \<and> ir_Spec j = ir_Spec i \<and>
     IsBeingDeleted j = IsBeingDeleted i"

lemma same_instanceD:
  "same_instance i j \<Longrightarrow> om_Namespace (ir_meta j) = om_Namespace (ir_meta i)"
  "same_instance i j \<Longrightarrow> om_Name (ir_meta j) = om_Name (ir_meta i)"
  "same_instance i j \<Longrightarrow> ref_of j = ref_of i"
  "same_instance i j \<Longrightarrow> owned_key j suffix = owned_key i suffix"
  by (simp_all add: same_instance_def meta_key_def ref_of_def owned_key_def instance_key_def
      split: outcome.splits)

lemma reconcileFinalizer_run:
  assumes R: "reconciler_contract view R"
    and read: "cl_IdlingResources (view w) (meta_key (ir_meta i)) = Some i"
    and run: "reconcileFinalizer R i w = (Ret (Inr j), w')"
  shows "same_instance i j \<and> HasFinalizer j IdlingResourceFinalizerName \<and>
     cl_IdlingResources (view w') (meta_key (ir_meta i)) = Some j"
proof (cases "HasFinalizer i IdlingResourceFinalizerName")
  case True
  with run read show ?thesis by (simp add: reconcileFinalizer_def same_instance_def)
next
  case False
  let ?fs = "rc_AddFinalizer R (om_Finalizers (ir_meta i)) IdlingResourceFinalizerName"
  have fs: "IdlingResourceFinalizerName \<in> set ?fs"
    using R by (simp add: reconciler_contract_def controllerutil_contract_def)
  obtain y w1 where upd: "kc_update (rc_IdlingResources R) (set_finalizers i ?fs) w = (Inr y, w1)"
    and j: "j = y" "view w' = view w1"
    using run False
    by (auto simp: reconcileFinalizer_def addFinalizer_def Let_def go_eq_Ret r_call_Ret
        dest: r_event_eq_Ret [OF R] split: option.splits)
  have uc: "update_contract view IdlingResources IdlingResourceStore (rc_IdlingResources R)"
    using R by (simp add: reconciler_contract_def kind_contract_def)
  note ud = ik.update_contractD [OF uc upd]
  obtain v g where y: "y = stamp IdlingResources v g (set_finalizers i ?fs)" using ud(2) by blast
  have "same_instance i j \<and> HasFinalizer j IdlingResourceFinalizerName"
    using fs unfolding j(1) y
    by (auto simp: same_instance_def stamp_def set_finalizers_def meta_key_def IsBeingDeleted_def meta_deleting_def)
  moreover have "persisted IdlingResources y = Some y"
    using fs unfolding y by (auto simp: persisted_def stamp_def set_finalizers_def)
  ultimately show ?thesis
    using ud(4) j by (auto simp: set_finalizers_def meta_key_def IdlingResourceStore_def)
qed

lemma reconcileFinalizer_frame:
  assumes F: "reconciler_keeps rel S R" and mine: "IdlingResourceSlot (meta_key (ir_meta i)) \<in> S"
  shows "go_keeps rel (reconcileFinalizer R i)"
proof -
  have "go_keeps rel (r_update (rc_IdlingResources R) (set_finalizers i fs))" for fs
    using mine by (intro calls_keep_update [OF reconciler_keepsD(7) [OF F]]) (simp add: set_finalizers_def meta_key_def)
  then show ?thesis
    unfolding reconcileFinalizer_def addFinalizer_def Let_def
    by (auto split: option.splits prod.splits intro!: frame_rules [OF F])
qed

text \<open>The instance after it, whatever others did: that of the request, as the server answered it.\<close>

lemma reconcileFinalizer_same:
  assumes F: "reconciler_keeps rel S R" and mine: "IdlingResourceSlot (meta_key (ir_meta i)) \<in> S"
    and run: "reconcileFinalizer R i w = (Ret (Inr j), w')"
  shows "same_instance i j"
proof (cases "HasFinalizer i IdlingResourceFinalizerName")
  case True
  with run show ?thesis by (simp add: reconcileFinalizer_def same_instance_def)
next
  case False
  let ?i = "set_finalizers i (rc_AddFinalizer R (om_Finalizers (ir_meta i)) IdlingResourceFinalizerName)"
  obtain w1 where upd: "kc_update (rc_IdlingResources R) ?i w = (Inr j, w1)"
    using run False
    by (auto simp: reconcileFinalizer_def addFinalizer_def Let_def go_eq_Ret r_call_Ret split: option.splits)
  have "meta_key (ir_meta ?i) = meta_key (ir_meta i)" by (simp add: set_finalizers_def meta_key_def)
  then obtain v g where "j = stamp IdlingResources v g ?i"
    using reconciler_keepsD(7) [OF F] mine upd unfolding calls_keep_def by fastforce
  then show ?thesis
    by (auto simp: same_instance_def stamp_def set_finalizers_def meta_key_def IsBeingDeleted_def meta_deleting_def)
qed

lemma reconcileFinalizer_keeps:
  assumes R: "reconciler_contract view R"
    and p: "\<And>c v. p (cl_IdlingResources_update (\<lambda>m. m(meta_key (ir_meta i) := v)) c) = p c"
  shows "keeps_part view p (reconcileFinalizer R i)"
  using p by (intro keeps_part_frame reconcileFinalizer_frame [OF reconciler_keeps_part [OF R]]) simp

lemma reconcileFinalizer_available:
  assumes R: "reconciler_contract view R" and av: "reconciler_available view R"
    and read: "cl_IdlingResources (view w) (meta_key (ir_meta i)) = Some i"
  obtains j w' where "reconcileFinalizer R i w = (Ret (Inr j), w')"
proof (cases "HasFinalizer i IdlingResourceFinalizerName")
  case True
  with that show ?thesis by (simp add: reconcileFinalizer_def)
next
  case False
  let ?i = "set_finalizers i (rc_AddFinalizer R (om_Finalizers (ir_meta i)) IdlingResourceFinalizerName)"
  have avi: "available view IdlingResources IdlingResourceStore (rc_IdlingResources R)"
    using av by (simp add: reconciler_available_def)
  obtain y w1 where "kc_update (rc_IdlingResources R) ?i w = (Inr y, w1)"
  proof (rule available_update [OF avi])
    show "ks_get IdlingResourceStore (view w) (object_key IdlingResources ?i) = Some i"
      using read by (simp add: set_finalizers_def meta_key_def IdlingResourceStore_def)
    show "resource_version IdlingResources i = resource_version IdlingResources ?i"
      by (simp add: set_finalizers_def resource_version_def)
  qed
  with False have "\<exists>w'. reconcileFinalizer R i w = (Ret (Inr y), w')"
    by (simp add: reconcileFinalizer_def addFinalizer_def Let_def go_try_def go_bind_def r_update_def r_event_def)
  with that show ?thesis by blast
qed

lemma removeFinalizer_run:
  assumes R: "reconciler_contract view R" and has: "HasFinalizer i IdlingResourceFinalizerName"
    and run: "removeFinalizer R i w = (Ret None, w')"
  shows "\<forall>j. cl_IdlingResources (view w') (meta_key (ir_meta i)) = Some j \<longrightarrow>
     same_instance i j \<and> set (om_Finalizers (ir_meta j)) =
       set (om_Finalizers (ir_meta i)) - {IdlingResourceFinalizerName} \<and>
     \<not> (IsBeingDeleted i \<and> set (om_Finalizers (ir_meta i)) = {IdlingResourceFinalizerName})"
proof -
  let ?fs = "rc_RemoveFinalizer R (om_Finalizers (ir_meta i)) IdlingResourceFinalizerName"
  have fs: "set ?fs = set (om_Finalizers (ir_meta i)) - {IdlingResourceFinalizerName}"
    using R by (simp add: reconciler_contract_def controllerutil_contract_def)
  obtain y where upd: "kc_update (rc_IdlingResources R) (set_finalizers i ?fs) w = (Inr y, w')"
    using run has by (auto simp: removeFinalizer_def Let_def go_eq_Ret r_call_Ret)
  have uc: "update_contract view IdlingResources IdlingResourceStore (rc_IdlingResources R)"
    using R by (simp add: reconciler_contract_def kind_contract_def)
  note ud = ik.update_contractD [OF uc upd]
  obtain v g where y: "y = stamp IdlingResources v g (set_finalizers i ?fs)" using ud(2) by blast
  have "cl_IdlingResources (view w') (meta_key (ir_meta i)) = persisted IdlingResources y"
    using ud(4) by (simp add: set_finalizers_def meta_key_def IdlingResourceStore_def)
  moreover have "same_instance i y" "set (om_Finalizers (ir_meta y)) = set ?fs"
    "meta_deleting (ir_meta y) = IsBeingDeleted i"
    unfolding y by (auto simp: same_instance_def stamp_def set_finalizers_def meta_key_def IsBeingDeleted_def
        meta_deleting_def)
  ultimately show ?thesis using fs by (auto simp: persisted_def split: if_splits)
qed

section \<open>The workload\<close>

definition target_key :: "IdlingResource \<Rightarrow> namespaced_name" where
  "target_key i = instance_key i (ref_Name (ref_of i))"

lemma go_local_eq: "go_local x m w = (r, w') \<longleftrightarrow> (\<exists>x'. m (w, x) = (r, (w', x')))"
  by (cases "m (w, x)") (auto simp: prod_eq_iff)

lemma target_key_same: "same_instance i j \<Longrightarrow> target_key j = target_key i"
  by (simp add: target_key_def instance_key_def same_instanceD)

text \<open>From the request to the workload.\<close>

lemma Reconcile_stages:
  assumes R: "reconciler_contract view R" and fresh: "fresh_reads view R"
    and inst: "cl_IdlingResources (view w) req = Some i"
    and run: "Reconcile R req w = (Ret (res, None), w')"
  obtains w1 j w2 w3 res' where "view w1 = view w" "meta_key (ir_meta i) = req" "same_instance i j"
    "HasFinalizer j IdlingResourceFinalizerName"
    "reconcileFinalizer R i w1 = (Ret (Inr j), w2)"
    "ReconcileCronStrategies R j w2 = (Ret (res', None), w3)"
    "reconcileWorkload R j w3 = (Ret (res, None), w')"
    "cl_IdlingResources (view w3) req = Some j"
proof -
  obtain g w1 where get: "kc_get (rc_IdlingResources R) req w = (g, w1)" by fastforce
  have gc: "get_contract view IdlingResources IdlingResourceStore (rc_IdlingResources R)"
    and co: "coherent view IdlingResourceStore (rc_IdlingResources R)"
    using R fresh by (simp_all add: reconciler_contract_def kind_contract_def fresh_reads_def)
  note gd = ik.get_contractD [OF gc get] and cd = ik.coherentD [OF co get]
  have g: "g = Inr i"
  proof (cases g)
    case (Inl e)
    then have "e \<noteq> ApiError NotFound" using cd(2) inst by (auto simp: IdlingResourceStore_def)
    with run get Inl show ?thesis by (auto simp: Reconcile_def go_eq_Ret r_call_Ret)
  next
    case (Inr k)
    then show ?thesis using cd(1) inst by (simp add: IdlingResourceStore_def)
  qed
  have key: "meta_key (ir_meta i) = req" using gd(2) [OF g] by simp
  obtain j w2 w3 res' where fin: "reconcileFinalizer R i w1 = (Ret (Inr j), w2)"
    and cron: "ReconcileCronStrategies R j w2 = (Ret (res', None), w3)"
    and wl: "reconcileWorkload R j w3 = (Ret (res, None), w')"
    using run get g
    by (auto simp: Reconcile_def go_eq_Ret r_call_Ret split: option.splits)
  have "cl_IdlingResources (view w1) (meta_key (ir_meta i)) = Some i"
    using inst key gd(1) by simp
  note fr = reconcileFinalizer_run [OF R this fin]
  have "cl_IdlingResources (view w3) = cl_IdlingResources (view w2)"
    using keeps_partD [OF ReconcileCronStrategies_keeps [OF R apart_from_owned_kinds(3)] cron] .
  with fr that [OF gd(1) key _ _ fin cron wl] key show ?thesis by simp
qed

lemma apart_from_owned_same: "same_instance i j \<Longrightarrow> apart_from_owned j p = apart_from_owned i p"
  by (simp add: apart_from_owned_def same_instanceD)

text \<open>
  With an available server a run reaches the workload: the finalizer is there, the strategies are
  reconciled, and nothing else was touched.
\<close>

lemma Reconcile_reaches_workload:
  assumes R: "reconciler_contract view R" and av: "reconciler_available view R"
    and inst: "cl_IdlingResources (view w) req = Some i"
    and rules: "\<And>r. cl_Roles (view w) (owned_key i ''role'') = Some r \<Longrightarrow> r_Rules r \<noteq> []"
  obtains j w3 where "Reconcile R req w = reconcileWorkload R j w3" "same_instance i j"
    "meta_key (ir_meta i) = req" "HasFinalizer j IdlingResourceFinalizerName"
    "cl_IdlingResources (view w3) req = Some j"
    "\<forall>p :: cluster \<Rightarrow> 'q. apart_from_owned i p \<longrightarrow> (\<forall>f c. p (cl_IdlingResources_update f c) = p c) \<longrightarrow>
       p (view w3) = p (view w)"
proof -
  have avi: "available view IdlingResources IdlingResourceStore (rc_IdlingResources R)"
    using av by (simp add: reconciler_available_def)
  have gi: "get_contract view IdlingResources IdlingResourceStore (rc_IdlingResources R)"
    using R by (simp add: reconciler_contract_def kind_contract_def)
  obtain g w1 where get: "kc_get (rc_IdlingResources R) req w = (g, w1)" by fastforce
  note gd = ik.get_contractD [OF gi get]
  have g: "g = Inr i" using available_getD [OF avi get] inst by (simp add: IdlingResourceStore_def)
  have key: "meta_key (ir_meta i) = req" using gd(2) [OF g] by simp
  have read: "cl_IdlingResources (view w1) (meta_key (ir_meta i)) = Some i" using inst key gd(1) by simp
  obtain j w2 where fin: "reconcileFinalizer R i w1 = (Ret (Inr j), w2)"
    using reconcileFinalizer_available [OF R av read] .
  note fr = reconcileFinalizer_run [OF R read fin]
  then have same: "same_instance i j" by simp
  have keep: "p (view w2) = p (view w1)" if "\<And>f c. p (cl_IdlingResources_update f c) = p c"
    for p :: "cluster \<Rightarrow> 'r"
    using keeps_partD [OF reconcileFinalizer_keeps [OF R] fin] that by blast
  have "cl_Roles (view w2) = cl_Roles (view w)" using keep [of cl_Roles] gd(1) by simp
  then obtain w3 where cron: "ReconcileCronStrategies R j w2 = (Ret (no_requeue, None), w3)"
    using ReconcileCronStrategies_succeeds [OF R av, of w2 j] rules same_instanceD(4) [OF same] by auto
  have run: "Reconcile R req w = reconcileWorkload R j w3"
    using get g fin cron by (simp add: Reconcile_def go_try_def go_bind_def r_get_def)
  have "cl_IdlingResources (view w3) req = Some j"
    using keeps_partD [OF ReconcileCronStrategies_keeps [OF R apart_from_owned_kinds(3)] cron] fr key by simp
  moreover have "p (view w3) = p (view w)"
    if "apart_from_owned i p" "\<And>f c. p (cl_IdlingResources_update f c) = p c" for p :: "cluster \<Rightarrow> 'q"
  proof -
    have "apart_from_owned j p" using that(1) same_instanceD(4) [OF same] by (simp add: apart_from_owned_def)
    from keeps_partD [OF ReconcileCronStrategies_keeps [OF R this] cron] keep [of p] that(2) gd(1)
    show ?thesis by simp
  qed
  ultimately show ?thesis using that [OF run same key] fr by blast
qed

text \<open>
  A kind of workload as \<open>Reconcile\<close> knows it: the name in the reference and the client.
\<close>

locale reconciled_kind = workload_reconciler +
  fixes kind_name :: string and client :: "'c reconciler \<Rightarrow> ('c, 'a) kind_client"
  assumes dispatch: "ref_Kind (ref_of i) = kind_name \<Longrightarrow>
      reconcileWorkload R i = reconcileKind R i (client R) New"
    and client_contract: "reconciler_contract view R \<Longrightarrow> kind_contract view ops ks (client R)"
    and client_coherent: "fresh_reads view R \<Longrightarrow> coherent view ks (client R)"
    and client_available: "reconciler_available view R \<Longrightarrow> available view ops ks (client R)"
begin

lemma target_read:
  assumes R: "reconciler_contract view R" and fresh: "fresh_reads view R"
    and x: "ks_get ks (view w) (target_key i) = Some x"
    and run: "reconcileKind R i (client R) New w = (Ret (res, None), w')"
  obtains w1 x1 where "view w1 = view w" "object_key ops x = target_key i" "persisted ops x = Some x"
    "ReconcileWithIdler R i (New (client R)) (w1, x) = (Ret (res, None), (w', x1))"
proof -
  obtain g w1 where get: "kc_get (client R) (target_key i) w = (g, w1)" by fastforce
  have gc: "get_contract view ops ks (client R)"
    using client_contract [OF R] by (simp add: kind_contract_def)
  note gd = get_contractD [OF gc get] and cd = coherentD [OF client_coherent [OF fresh] get]
  show ?thesis
  proof (cases g)
    case (Inl e)
    then have "e \<noteq> ApiError NotFound" using cd(2) x by auto
    with run get Inl show ?thesis
      by (auto simp: reconcileKind_def target_key_def instance_key_def Let_def go_eq_Ret r_call_Ret
          reconcileResourceNotFound_def)
  next
    case (Inr y)
    then have y: "y = x" using cd(1) x by simp
    obtain x1 where "ReconcileWithIdler R i (New (client R)) (w1, x) = (Ret (res, None), (w', x1))"
      using run get Inr y
      by (auto simp: reconcileKind_def target_key_def instance_key_def Let_def go_eq_Ret r_call_Ret
          go_local_eq simp del: go_local_apply)
    then show ?thesis using that gd(1,2,4) Inr y by blast
  qed
qed

lemma reconcileKind_refines:
  assumes R: "reconciler_contract view R" and fresh: "fresh_reads view R"
    and x: "ks_get ks (view w) (target_key i) = Some x" "valid x"
    and run: "reconcileKind R i (client R) New w = (Ret (res, None), w')"
  shows "\<exists>x'. ks_get ks (view w') (target_key i) = Some x' \<and> rest x' = rest x \<and>
     (0 \<le> level x' \<longrightarrow> valid x') \<and>
     workload_view ops level prior_level x' = reconcile_spec (IsBeingDeleted i) (spec_Idle (ir_Spec i))
        (om_Name (ir_meta i)) (workload_view ops level prior_level x)"
proof -
  obtain w1 x1 where w1: "view w1 = view w" and key: "object_key ops x = target_key i"
    and p: "persisted ops x = Some x"
    and run1: "ReconcileWithIdler R i (New (client R)) (w1, x) = (Ret (res, None), (w', x1))"
    using target_read [OF R fresh x(1) run] .
  have "stored view ops ks w1 x" using x(1) w1 key p by (simp add: stored_def)
  from ReconcileWithIdler_refines [OF R client_contract [OF R] this x(2) run1]
  show ?thesis using key by (auto simp: stored_def)
qed

lemma reconcileKind_frame:
  assumes F: "reconciler_keeps rel S R" and mine: "IdlingResourceSlot (meta_key (ir_meta i)) \<in> S"
    and c: "calls_keep rel ops K (client R)" "target_key i \<in> K"
  shows "go_keeps rel (reconcileKind R i (client R) New)"
  unfolding reconcileKind_def Let_def
proof (rule calls_keep_get_try [OF c(1) reconciler_keepsD(2) [OF F]])
  show "go_keeps rel (reconcileResourceNotFound R i e)" for e
    unfolding reconcileResourceNotFound_def
    by (intro frame_rules [OF F] removeFinalizer_frame [OF F mine])
  fix x assume "object_key ops x = \<lparr>nn_Namespace = om_Namespace (ir_meta i), nn_Name = ref_Name (ref_of i)\<rparr>"
  then have key: "object_key ops x = target_key i" by (simp add: target_key_def instance_key_def)
  show "go_keeps rel (go_local x (ReconcileWithIdler R i (New (client R))))"
  proof (rule go_keepsI)
    fix w r w' assume "go_local x (ReconcileWithIdler R i (New (client R))) w = (r, w')"
    then obtain x' where "ReconcileWithIdler R i (New (client R)) (w, x) = (r, (w', x'))"
      by (auto simp: go_local_eq simp del: go_local_apply)
    from go_keepsD [OF ReconcileWithIdler_frame [OF F mine c] this] key show "rel w w'"
      by (simp add: owning_def)
  qed
qed

lemma Reconcile_refines:
  fixes R :: "'c reconciler"
  assumes R: "reconciler_contract view R" and fresh: "fresh_reads view R"
    and inst: "cl_IdlingResources (view w) req = Some i" "ref_Kind (ref_of i) = kind_name"
    and apart: "apart_from_owned i (\<lambda>c. ks_get ks c (target_key i))"
    and x: "ks_get ks (view w) (target_key i) = Some x" "valid x"
    and run: "Reconcile R req w = (Ret (res, None), w')"
  shows "\<exists>x'. ks_get ks (view w') (target_key i) = Some x' \<and> rest x' = rest x \<and>
     (0 \<le> level x' \<longrightarrow> valid x') \<and>
     workload_view ops level prior_level x' = reconcile_spec (IsBeingDeleted i) (spec_Idle (ir_Spec i))
        (nn_Name req) (workload_view ops level prior_level x)"
proof -
  obtain w1 j w2 w3 res' where w1: "view w1 = view w" and key: "meta_key (ir_meta i) = req"
    and same: "same_instance i j" and fin: "reconcileFinalizer R i w1 = (Ret (Inr j), w2)"
    and cron: "ReconcileCronStrategies R j w2 = (Ret (res', None), w3)"
    and wl: "reconcileWorkload R j w3 = (Ret (res, None), w')"
    using Reconcile_stages [OF R fresh inst(1) run] .
  have "apart_from_owned j (\<lambda>c. ks_get ks c (target_key i))"
    using apart by (simp add: apart_from_owned_same [OF same])
  from keeps_partD [OF ReconcileCronStrategies_keeps [OF R this] cron]
  have "ks_get ks (view w3) (target_key i) = ks_get ks (view w2) (target_key i)" by simp
  also have "\<dots> = ks_get ks (view w1) (target_key i)"
    using keeps_partD [OF reconcileFinalizer_keeps [OF R, of "\<lambda>c. ks_get ks c (target_key i)"] fin]
    by (simp add: instances_apart)
  finally have "ks_get ks (view w3) (target_key j) = Some x"
    using x(1) w1 target_key_same [OF same] by simp
  moreover have "reconcileKind R j (client R) New w3 = (Ret (res, None), w')"
    using wl dispatch [of j R] inst(2) same_instanceD(3) [OF same] by simp
  ultimately have "\<exists>x'. ks_get ks (view w') (target_key j) = Some x' \<and> rest x' = rest x \<and>
     (0 \<le> level x' \<longrightarrow> valid x') \<and>
     workload_view ops level prior_level x' = reconcile_spec (IsBeingDeleted j) (spec_Idle (ir_Spec j))
        (om_Name (ir_meta j)) (workload_view ops level prior_level x)"
    using reconcileKind_refines [OF R fresh _ x(2)] by blast
  moreover have "om_Name (ir_meta j) = nn_Name req"
    using key same_instanceD(2) [OF same] by (auto simp: meta_key_def)
  ultimately show ?thesis
    using same target_key_same [OF same] by (simp add: same_instance_def)
qed

text \<open>The instance after the run of its workload: it keeps its finalizer until it is deleted.\<close>

lemma ReconcileWithIdler_instances:
  assumes R: "reconciler_contract view R" and kc: "kind_contract view ops ks kc"
    and run: "ReconcileWithIdler R i (New kc) (w, x) = (Ret (res, None), (w', x'))"
  shows "if IsBeingDeleted i
     then \<exists>w5 w6. removeFinalizer R i w5 = (Ret None, w6) \<and> view w' = view w6
     else cl_IdlingResources (view w') = cl_IdlingResources (view w)"
proof (cases "IsBeingDeleted i")
  case True
  then show ?thesis
    using run
    by (auto simp: ReconcileWithIdler_def reconcileDeletion_def Let_def go_eq_Ret go_outer_eq_Ret
        simp del: go_outer_apply dest!: r_event_eq_Ret [OF R])
next
  case False
  have apart: "\<And>c v. cl_IdlingResources (ks_map ks (\<lambda>m. m(object_key ops x := v)) c) = cl_IdlingResources c"
    by (rule workloads_apart)
  note F = reconciler_keeps_part [OF R, of cl_IdlingResources]
  have "keeps_apart view ops (object_key ops x) cl_IdlingResources (ReconcileWithIdler R i (New kc))"
    unfolding ReconcileWithIdler_def reconcileWakeup_def reconcileIdle_def Let_def if_not_P [OF False]
      keeps_apart_def
    by (intro owning_rules [OF F] frame_rules(7) [OF F] wakeup_event_frame [OF F]
        idler_calls_apart [OF kc apart, unfolded keeps_apart_def])
  from keeps_apartD [OF this run] False show ?thesis by simp
qed

lemma reconcileKind_instances:
  assumes R: "reconciler_contract view R"
    and run: "reconcileKind R i (client R) New w = (Ret (res, None), w')"
  shows "if IsBeingDeleted i
     then \<exists>w5 w6. removeFinalizer R i w5 = (Ret None, w6) \<and> view w' = view w6
     else cl_IdlingResources (view w') = cl_IdlingResources (view w)"
proof -
  have gc: "get_contract view ops ks (client R)"
    using client_contract [OF R] by (simp add: kind_contract_def)
  obtain g w1 where get: "kc_get (client R) (target_key i) w = (g, w1)" by fastforce
  note gd = get_contractD [OF gc get]
  show ?thesis
  proof (cases g)
    case (Inl e)
    with run get gd(1) show ?thesis
      by (auto simp: reconcileKind_def target_key_def instance_key_def Let_def go_eq_Ret r_call_Ret
          reconcileResourceNotFound_def split: if_splits)
  next
    case (Inr y)
    then obtain x1 where "ReconcileWithIdler R i (New (client R)) (w1, y) = (Ret (res, None), (w', x1))"
      using run get
      by (auto simp: reconcileKind_def target_key_def instance_key_def Let_def go_eq_Ret r_call_Ret
          go_local_eq simp del: go_local_apply)
    from ReconcileWithIdler_instances [OF R client_contract [OF R] this] gd(1) show ?thesis by simp
  qed
qed

lemma Reconcile_instance:
  fixes R :: "'c reconciler"
  assumes R: "reconciler_contract view R" and fresh: "fresh_reads view R"
    and inst: "cl_IdlingResources (view w) req = Some i" "ref_Kind (ref_of i) = kind_name"
    and run: "Reconcile R req w = (Ret (res, None), w')"
  shows "if IsBeingDeleted i
     then (\<forall>j. cl_IdlingResources (view w') req = Some j \<longrightarrow>
             same_instance i j \<and> \<not> HasFinalizer j IdlingResourceFinalizerName \<and> om_Finalizers (ir_meta j) \<noteq> [])
     else (\<exists>j. cl_IdlingResources (view w') req = Some j \<and>
             same_instance i j \<and> HasFinalizer j IdlingResourceFinalizerName)"
proof -
  obtain w3 j where key: "meta_key (ir_meta i) = req" and same: "same_instance i j"
    and has: "HasFinalizer j IdlingResourceFinalizerName"
    and wl: "reconcileWorkload R j w3 = (Ret (res, None), w')"
    and j: "cl_IdlingResources (view w3) req = Some j"
    using Reconcile_stages [OF R fresh inst(1) run] by metis
  have run1: "reconcileKind R j (client R) New w3 = (Ret (res, None), w')"
    using wl dispatch [of j R] inst(2) same_instanceD(3) [OF same] by simp
  have key_j: "meta_key (ir_meta j) = req" and del: "IsBeingDeleted j = IsBeingDeleted i"
    using same key by (simp_all add: same_instance_def)
  show ?thesis
  proof (cases "IsBeingDeleted i")
    case True
    then obtain w5 w6 where "removeFinalizer R j w5 = (Ret None, w6)" "view w' = view w6"
      using reconcileKind_instances [OF R run1] del by auto
    then have rel: "same_instance j k" "set (om_Finalizers (ir_meta k)) =
          set (om_Finalizers (ir_meta j)) - {IdlingResourceFinalizerName}"
        "set (om_Finalizers (ir_meta j)) \<noteq> {IdlingResourceFinalizerName}"
      if "cl_IdlingResources (view w') req = Some k" for k
      using removeFinalizer_run [OF R has, of w5 w6] that key_j del True by auto
    have "same_instance i k \<and> \<not> HasFinalizer k IdlingResourceFinalizerName \<and> om_Finalizers (ir_meta k) \<noteq> []"
      if "cl_IdlingResources (view w') req = Some k" for k
    proof -
      have "om_Finalizers (ir_meta k) \<noteq> []"
      proof
        assume "om_Finalizers (ir_meta k) = []"
        with rel(2) [OF that] have "set (om_Finalizers (ir_meta j)) \<subseteq> {IdlingResourceFinalizerName}" by simp
        moreover have "IdlingResourceFinalizerName \<in> set (om_Finalizers (ir_meta j))" using has by simp
        ultimately have "set (om_Finalizers (ir_meta j)) = {IdlingResourceFinalizerName}" by blast
        with rel(3) [OF that] show False ..
      qed
      moreover have "\<not> HasFinalizer k IdlingResourceFinalizerName" using rel(2) [OF that] by simp
      moreover have "same_instance i k"
        using rel(1) [OF that] same by (simp add: same_instance_def)
      ultimately show ?thesis by blast
    qed
    with True show ?thesis by simp
  next
    case False
    then show ?thesis using reconcileKind_instances [OF R run1] del j same has by auto
  qed
qed

text \<open>A target that is not there: try again in two seconds, and let a deleted instance go.\<close>

lemma Reconcile_missing:
  fixes R :: "'c reconciler"
  assumes R: "reconciler_contract view R" and fresh: "fresh_reads view R"
    and inst: "cl_IdlingResources (view w) req = Some i" "ref_Kind (ref_of i) = kind_name"
    and apart: "apart_from_owned i (\<lambda>c. ks_get ks c (target_key i))"
    and x: "ks_get ks (view w) (target_key i) = None"
    and run: "Reconcile R req w = (Ret (res, None), w')"
  shows "res = (if IsBeingDeleted i then no_requeue else no_requeue\<lparr> res_RequeueAfter := 2 * second \<rparr>) \<and>
     ks_get ks (view w') (target_key i) = None"
proof -
  obtain w1 j w2 w3 res' where w1: "view w1 = view w" and key: "meta_key (ir_meta i) = req"
    and same: "same_instance i j" and fin: "reconcileFinalizer R i w1 = (Ret (Inr j), w2)"
    and cron: "ReconcileCronStrategies R j w2 = (Ret (res', None), w3)"
    and wl: "reconcileWorkload R j w3 = (Ret (res, None), w')"
    using Reconcile_stages [OF R fresh inst(1) run] .
  have "apart_from_owned j (\<lambda>c. ks_get ks c (target_key i))"
    using apart by (simp add: apart_from_owned_same [OF same])
  from keeps_partD [OF ReconcileCronStrategies_keeps [OF R this] cron]
  have "ks_get ks (view w3) (target_key i) = ks_get ks (view w2) (target_key i)" by simp
  also have "\<dots> = ks_get ks (view w1) (target_key i)"
    using keeps_partD [OF reconcileFinalizer_keeps [OF R, of "\<lambda>c. ks_get ks c (target_key i)"] fin]
    by (simp add: instances_apart)
  finally have none: "ks_get ks (view w3) (target_key j) = None"
    using x(1) w1 target_key_same [OF same] by simp
  have run1: "reconcileKind R j (client R) New w3 = (Ret (res, None), w')"
    using wl dispatch [of j R] inst(2) same_instanceD(3) [OF same] by simp
  have gc: "get_contract view ops ks (client R)"
    using client_contract [OF R] by (simp add: kind_contract_def)
  obtain g w4 where get: "kc_get (client R) (target_key j) w3 = (g, w4)" by fastforce
  note gd = get_contractD [OF gc get] and cd = coherentD [OF client_coherent [OF fresh] get]
  obtain e where "g = Inl e" using cd(1) none by (cases g) auto
  with run1 get have run2: "reconcileResourceNotFound R j e w4 = (Ret (res, None), w')"
    by (auto simp: reconcileKind_def target_key_def instance_key_def Let_def go_eq_Ret r_call_Ret)
  have "keeps_part view (\<lambda>c. ks_get ks c (target_key j)) (reconcileResourceNotFound R j e)"
    unfolding reconcileResourceNotFound_def
    by (intro keeps_part_if keeps_part_check keeps_part_return removeFinalizer_keeps_part [OF R])
      (simp add: instances_apart)
  from keeps_partD [OF this run2] have "ks_get ks (view w') (target_key i) = None"
    using none gd(1) target_key_same [OF same] by simp
  then show ?thesis
    using run2 same
    by (auto simp: reconcileResourceNotFound_def go_eq_Ret same_instance_def split: if_splits)
qed

text \<open>When the server is available, the run succeeds.\<close>

lemma Reconcile_available:
  fixes R :: "'c reconciler"
  assumes R: "reconciler_contract view R" and av: "reconciler_available view R"
    and inst: "cl_IdlingResources (view w) req = Some i" "ref_Kind (ref_of i) = kind_name"
    and apart: "apart_from_owned i (\<lambda>c. ks_get ks c (target_key i))"
    and x: "ks_get ks (view w) (target_key i) = Some x" "valid x" "wake_error x = None"
    and rules: "\<And>r. cl_Roles (view w) (owned_key i ''role'') = Some r \<Longrightarrow> r_Rules r \<noteq> []"
  obtains w' where "Reconcile R req w = (Ret (no_requeue, None), w')"
proof -
  obtain j w3 where run: "Reconcile R req w = reconcileWorkload R j w3" and same: "same_instance i j"
    and key: "meta_key (ir_meta i) = req" and has: "HasFinalizer j IdlingResourceFinalizerName"
    and inst3: "cl_IdlingResources (view w3) req = Some j"
    and keep: "\<forall>p :: cluster \<Rightarrow> 'a option. apart_from_owned i p \<longrightarrow> (\<forall>f c. p (cl_IdlingResources_update f c) = p c) \<longrightarrow>
       p (view w3) = p (view w)"
    using Reconcile_reaches_workload [OF R av inst(1) rules] .
  have avi: "available view IdlingResources IdlingResourceStore (rc_IdlingResources R)"
    using av by (simp add: reconciler_available_def)
  have target: "ks_get ks (view w3) (target_key j) = Some x"
    using keep [rule_format, OF apart] x(1) target_key_same [OF same] by (simp add: instances_apart)
  have kc: "kind_contract view ops ks (client R)" and avk: "available view ops ks (client R)"
    using client_contract [OF R] client_available [OF av] .
  obtain h w4 where get4: "kc_get (client R) (target_key j) w3 = (h, w4)" by fastforce
  have gk: "get_contract view ops ks (client R)" using kc by (simp add: kind_contract_def)
  note hd = get_contractD [OF gk get4]
  have h: "h = Inr x" using available_getD [OF avk get4] target by simp
  have "stored view ops ks w4 x" using hd(1) hd(2,4) [OF h] target by (simp add: stored_def)
  moreover have "cl_IdlingResources (view w4) (meta_key (ir_meta j)) = Some j"
    using inst3 hd(1) key same by (simp add: same_instance_def)
  ultimately obtain w' x' where "ReconcileWithIdler R j (New (client R)) (w4, x) = (Ret (no_requeue, None), (w', x'))"
    using ReconcileWithIdler_available [OF R kc avk avi _ x(2,3)] by blast
  then have "reconcileKind R j (client R) New w3 = (Ret (no_requeue, None), w')"
    using get4 h by (simp add: reconcileKind_def target_key_def instance_key_def go_try_def go_bind_def
        r_get_def Let_def)
  then have "reconcileWorkload R j w3 = (Ret (no_requeue, None), w')"
    using dispatch [of j R] inst(2) same_instanceD(3) [OF same] by simp
  with run that show ?thesis by simp
qed

lemma Reconcile_missing_available:
  fixes R :: "'c reconciler"
  assumes R: "reconciler_contract view R" and av: "reconciler_available view R"
    and inst: "cl_IdlingResources (view w) req = Some i" "ref_Kind (ref_of i) = kind_name"
    and apart: "apart_from_owned i (\<lambda>c. ks_get ks c (target_key i))"
    and x: "ks_get ks (view w) (target_key i) = None"
    and rules: "\<And>r. cl_Roles (view w) (owned_key i ''role'') = Some r \<Longrightarrow> r_Rules r \<noteq> []"
  obtains res w' where "Reconcile R req w = (Ret (res, None), w')"
proof -
  obtain j w3 where run: "Reconcile R req w = reconcileWorkload R j w3" and same: "same_instance i j"
    and key: "meta_key (ir_meta i) = req" and has: "HasFinalizer j IdlingResourceFinalizerName"
    and inst3: "cl_IdlingResources (view w3) req = Some j"
    and keep: "\<forall>p :: cluster \<Rightarrow> 'a option. apart_from_owned i p \<longrightarrow> (\<forall>f c. p (cl_IdlingResources_update f c) = p c) \<longrightarrow>
       p (view w3) = p (view w)"
    using Reconcile_reaches_workload [OF R av inst(1) rules] .
  have avi: "available view IdlingResources IdlingResourceStore (rc_IdlingResources R)"
    using av by (simp add: reconciler_available_def)
  have none: "ks_get ks (view w3) (target_key j) = None"
    using keep [rule_format, OF apart] x target_key_same [OF same] by (simp add: instances_apart)
  obtain h w4 where get4: "kc_get (client R) (target_key j) w3 = (h, w4)" by fastforce
  have gk: "get_contract view ops ks (client R)" using client_contract [OF R] by (simp add: kind_contract_def)
  have v4: "view w4 = view w3" by (rule get_contractD(1) [OF gk get4])
  obtain e where h: "h = Inl e" "IsNotFound e"
    using available_getD [OF client_available [OF av] get4] none by (auto split: option.splits)
  have "cl_IdlingResources (view w4) (meta_key (ir_meta j)) = Some j"
    using inst3 v4 key same by (simp add: same_instance_def)
  then obtain w5 where rem: "removeFinalizer R j w4 = (Ret None, w5)"
    using removeFinalizer_available [OF R avi] by blast
  have "\<exists>res w'. reconcileResourceNotFound R j e w4 = (Ret (res, None), w')"
    using h(2) rem by (simp add: reconcileResourceNotFound_def)
  then have "\<exists>res w'. reconcileKind R j (client R) New w3 = (Ret (res, None), w')"
    using get4 h by (simp add: reconcileKind_def target_key_def instance_key_def go_try_def go_bind_def
        r_get_def Let_def)
  then show ?thesis
    using that run dispatch [of j R] inst(2) same_instanceD(3) [OF same] by auto
qed

text \<open>A workload that is as the instance wants it is not written.\<close>

definition settled :: "IdlingResource \<Rightarrow> 'a \<Rightarrow> bool" where
  "settled i x \<longleftrightarrow> \<not> IsBeingDeleted i \<and> reference_of ops x \<noteq> None \<and>
     (if spec_Idle (ir_Spec i) then level x = 0 else 0 < level x)"

lemma ReconcileWithIdler_settled:
  assumes "settled i x" "valid x"
  shows "ReconcileWithIdler R i (New kc) (w, x) = (Ret (no_requeue, None), (w, x))"
proof -
  have "SetReference (New kc) (om_Name (ir_meta i)) (w, x) = (Ret None, (w, x))"
    using assms by (auto simp: settled_def New_SetReference ObjectIdler_SetReference_def HasAnnotation_iff)
  then show ?thesis
    using assms
    by (simp add: settled_def ReconcileWithIdler_def on_object_def New_NeedWakeup New_NeedIdle go_check_def
        go_bind_def split: if_splits)
qed

lemma Reconcile_settled:
  fixes R :: "'c reconciler"
  assumes R: "reconciler_contract view R" and fresh: "fresh_reads view R"
    and inst: "cl_IdlingResources (view w) req = Some i" "ref_Kind (ref_of i) = kind_name"
    and apart: "apart_from_owned i (\<lambda>c. ks_get ks c (target_key i))" "apart_from_owned i p"
      "\<And>f c. p (cl_IdlingResources_update f c) = p c"
    and x: "ks_get ks (view w) (target_key i) = Some x" "valid x" "settled i x"
    and run: "Reconcile R req w = (Ret (res, None), w')"
  shows "p (view w') = p (view w)"
proof -
  obtain w1 j w2 w3 res' where w1: "view w1 = view w" and key: "meta_key (ir_meta i) = req"
    and same: "same_instance i j" and fin: "reconcileFinalizer R i w1 = (Ret (Inr j), w2)"
    and cron: "ReconcileCronStrategies R j w2 = (Ret (res', None), w3)"
    and wl: "reconcileWorkload R j w3 = (Ret (res, None), w')"
    using Reconcile_stages [OF R fresh inst(1) run] .
  have keep: "q (view w3) = q (view w)"
    if "apart_from_owned i q" "\<And>f c. q (cl_IdlingResources_update f c) = q c" for q :: "cluster \<Rightarrow> 'q"
  proof -
    have "apart_from_owned j q"
      using that(1) same_instanceD(4) [OF same] by (simp add: apart_from_owned_def)
    from keeps_partD [OF ReconcileCronStrategies_keeps [OF R this] cron]
      keeps_partD [OF reconcileFinalizer_keeps [OF R, of q] fin] that(2) w1
    show ?thesis by simp
  qed
  have "ks_get ks (view w3) (target_key j) = Some x"
    using keep [OF apart(1)] x(1) target_key_same [OF same] by (simp add: instances_apart)
  moreover have run1: "reconcileKind R j (client R) New w3 = (Ret (res, None), w')"
    using wl dispatch [of j R] inst(2) same_instanceD(3) [OF same] by simp
  ultimately obtain w4 x1 where w4: "view w4 = view w3"
    "ReconcileWithIdler R j (New (client R)) (w4, x) = (Ret (res, None), (w', x1))"
    using target_read [OF R fresh] by metis
  have "settled j x" using x(3) same by (simp add: settled_def same_instance_def)
  then have "w' = w4" using w4(2) ReconcileWithIdler_settled [OF _ x(2)] by simp
  with w4(1) keep [OF apart(2,3)] show ?thesis by simp
qed

text \<open>A run that succeeds settles its workload, when there is somewhere to wake up to.\<close>

lemma Reconcile_settles:
  fixes R :: "'c reconciler"
  assumes R: "reconciler_contract view R" and fresh: "fresh_reads view R"
    and inst: "cl_IdlingResources (view w) req = Some i" "ref_Kind (ref_of i) = kind_name" "\<not> IsBeingDeleted i"
    and apart: "apart_from_owned i (\<lambda>c. ks_get ks c (target_key i))"
    and x: "ks_get ks (view w) (target_key i) = Some x" "valid x"
    and awake: "spec_Idle (ir_Spec i) \<or> 0 < prior_level x \<or> 0 < level x"
    and run: "Reconcile R req w = (Ret (res, None), w')"
  obtains j y where "cl_IdlingResources (view w') req = Some j" "same_instance i j"
    "ks_get ks (view w') (target_key i) = Some y" "valid y" "settled j y"
proof -
  obtain y where y: "ks_get ks (view w') (target_key i) = Some y" "0 \<le> level y \<longrightarrow> valid y"
      "workload_view ops level prior_level y = reconcile_spec False (spec_Idle (ir_Spec i)) (nn_Name req)
         (workload_view ops level prior_level x)"
    using Reconcile_refines [OF R fresh inst(1,2) apart x run] inst(3) by auto
  let ?a = "workload_view ops level prior_level y"
  have "wl_reference ?a \<noteq> None" "if spec_Idle (ir_Spec i) then wl_level ?a = 0 else 0 < wl_level ?a"
    using awake valid_level [OF x(2)] unfolding y(3)
    by (auto simp: reconcile_spec_def workload_view_def Let_def split: option.splits)
  then have lv: "reference_of ops y \<noteq> None" "if spec_Idle (ir_Spec i) then level y = 0 else 0 < level y"
    by (auto simp: workload_view_def split: if_splits)
  obtain j where j: "cl_IdlingResources (view w') req = Some j" "same_instance i j"
    using Reconcile_instance [OF R fresh inst(1,2) run] inst(3) by auto
  have "valid y" using y(2) lv(2) by (auto split: if_splits)
  moreover have "settled j y" using lv inst(3) j(2) by (simp add: settled_def same_instance_def)
  ultimately show ?thesis using that j y(1) by blast
qed

lemma Reconcile_twice:
  fixes R :: "'c reconciler"
  assumes R: "reconciler_contract view R" and fresh: "fresh_reads view R"
    and inst: "cl_IdlingResources (view w) req = Some i" "ref_Kind (ref_of i) = kind_name" "\<not> IsBeingDeleted i"
    and apart: "apart_from_owned i (\<lambda>c. ks_get ks c (target_key i))" "apart_from_owned i p"
      "\<And>f c. p (cl_IdlingResources_update f c) = p c"
    and x: "ks_get ks (view w) (target_key i) = Some x" "valid x"
    and awake: "spec_Idle (ir_Spec i) \<or> 0 < prior_level x \<or> 0 < level x"
    and run1: "Reconcile R req w = (Ret (res1, None), w1)"
    and run2: "Reconcile R req w1 = (Ret (res2, None), w2)"
  shows "p (view w2) = p (view w1)"
proof -
  obtain j y where j: "cl_IdlingResources (view w1) req = Some j" "same_instance i j"
    and y: "ks_get ks (view w1) (target_key i) = Some y" "valid y" "settled j y"
    using Reconcile_settles [OF R fresh inst apart(1) x awake run1] .
  have "apart_from_owned j (\<lambda>c. ks_get ks c (target_key j))" "apart_from_owned j p"
    using apart target_key_same [OF j(2)] by (simp_all add: apart_from_owned_same [OF j(2)])
  then show ?thesis
    using Reconcile_settled [OF R fresh j(1) _ _ _ apart(3) _ y(2,3) run2] y(1) inst(2)
      same_instanceD(3) [OF j(2)] target_key_same [OF j(2)] by simp
qed

end

section \<open>The three kinds\<close>

interpretation rec_d: reconciled_kind Deployments DeploymentStore NewDeploymentIdler
  deployment_valid deployment_level "\<lambda>d. sint (deployment_prior d)" deployment_wake_error
  deployment_idle "\<lambda>d. deployment_wake (deployment_prior d)" "\<lambda>_. False"
  "\<lambda>d. Some (deployment_prior d)" deployment_text d_rest "''Deployment''" rc_Deployments
  by unfold_locales (simp_all add: reconcileWorkload_def reconciler_contract_def fresh_reads_def
      reconciler_available_def)

interpretation rec_s: reconciled_kind StatefulSets StatefulSetStore NewStatefulSetIdler
  statefulset_valid statefulset_level "\<lambda>s. sint (statefulset_prior s)" statefulset_wake_error
  statefulset_idle "\<lambda>s. statefulset_wake (statefulset_prior s)" "\<lambda>_. False"
  "\<lambda>s. Some (statefulset_prior s)" statefulset_text s_rest "''StatefulSet''" rc_StatefulSets
  by unfold_locales (simp_all add: reconcileWorkload_def reconciler_contract_def fresh_reads_def
      reconciler_available_def)

interpretation rec_c: reconciled_kind CronJobs CronJobStore NewCronJobIdler
  cronjob_valid cronjob_level cronjob_prior cronjob_wake_error
  "\<lambda>cj. Ret (cronjob_suspend cj)" "\<lambda>_. cronjob_resume" "\<lambda>cj. cj_Suspend cj = Some False"
  "\<lambda>_. None" cronjob_text cronjob_rest "''CronJob''" rc_CronJobs
  by unfold_locales (simp_all add: reconcileWorkload_def reconciler_contract_def fresh_reads_def
      reconciler_available_def)

section \<open>What a run leaves alone\<close>

text \<open>
  A part of the cluster that depends neither on the instance nor on its workload, and one that
  depends on none of the objects a run for this instance owns.
\<close>

definition apart_from_workload :: "IdlingResource \<Rightarrow> (cluster \<Rightarrow> 'b) \<Rightarrow> bool" where
  "apart_from_workload i p \<longleftrightarrow>
     (\<forall>c v. p (cl_IdlingResources_update (\<lambda>m. m(meta_key (ir_meta i) := v)) c) = p c) \<and>
     (ref_Kind (ref_of i) = ''Deployment'' \<longrightarrow>
        (\<forall>c v. p (cl_Deployments_update (\<lambda>m. m(target_key i := v)) c) = p c)) \<and>
     (ref_Kind (ref_of i) = ''StatefulSet'' \<longrightarrow>
        (\<forall>c v. p (cl_StatefulSets_update (\<lambda>m. m(target_key i := v)) c) = p c)) \<and>
     (ref_Kind (ref_of i) = ''CronJob'' \<longrightarrow>
        (\<forall>c v. p (cl_CronJobs_update (\<lambda>m. m(target_key i := v)) c) = p c))"

definition apart_from_run :: "IdlingResource \<Rightarrow> (cluster \<Rightarrow> 'b) \<Rightarrow> bool" where
  "apart_from_run i p \<longleftrightarrow> apart_from_owned i p \<and> apart_from_workload i p"

lemma apart_from_run_same:
  assumes "same_instance i j"
  shows "apart_from_workload j p = apart_from_workload i p" "apart_from_run j p = apart_from_run i p"
proof -
  have "meta_key (ir_meta j) = meta_key (ir_meta i)" using assms by (simp add: same_instance_def)
  then show "apart_from_workload j p = apart_from_workload i p"
    by (simp add: apart_from_workload_def same_instanceD [OF assms] target_key_same [OF assms])
  then show "apart_from_run j p = apart_from_run i p"
    by (simp add: apart_from_run_def apart_from_owned_def same_instanceD [OF assms])
qed

text \<open>The objects a run for the instance may write.\<close>

definition target_slots :: "IdlingResource \<Rightarrow> slot set" where
  "target_slots i =
     (if ref_Kind (ref_of i) = ''Deployment'' then {DeploymentSlot (target_key i)}
      else if ref_Kind (ref_of i) = ''StatefulSet'' then {StatefulSetSlot (target_key i)}
      else if ref_Kind (ref_of i) = ''CronJob'' then {CronJobSlot (target_key i)}
      else {})"

definition run_slots :: "IdlingResource \<Rightarrow> slot set" where
  "run_slots i = insert (IdlingResourceSlot (meta_key (ir_meta i))) (owned_slots i \<union> target_slots i)"

lemma run_slots_same: "same_instance i j \<Longrightarrow> run_slots j = run_slots i"
  by (simp add: run_slots_def owned_slots_def target_slots_def same_instanceD target_key_same)
    (simp add: same_instance_def)

lemma reconcileWorkload_frame:
  assumes F: "reconciler_keeps rel S R" and mine: "IdlingResourceSlot (meta_key (ir_meta i)) \<in> S"
    "target_slots i \<subseteq> S"
  shows "go_keeps rel (reconcileWorkload R i)"
  using mine(2) unfolding reconcileWorkload_def target_slots_def
  by (auto intro!: frame_rules(1) [OF F] rec_d.reconcileKind_frame [OF F mine(1) reconciler_keepsD(4) [OF F]]
      rec_s.reconcileKind_frame [OF F mine(1) reconciler_keepsD(5) [OF F]]
      rec_c.reconcileKind_frame [OF F mine(1) reconciler_keepsD(6) [OF F]] split: if_splits)

text \<open>
  A run, whatever it ends with and whoever else acts, keeps what its calls keep until it comes to the
  workload, if it does.
\<close>

lemma Reconcile_until_workload:
  assumes F: "reconciler_keeps rel S R" and get: "kc_get (rc_IdlingResources R) req w = (g, w1)"
    and mine: "\<And>i. g = Inr i \<Longrightarrow> insert (IdlingResourceSlot (meta_key (ir_meta i))) (owned_slots i) \<subseteq> S"
    and run: "Reconcile R req w = (r, w')"
  shows "rel w w' \<or> (\<exists>i j w3. g = Inr i \<and> same_instance i j \<and> rel w w3 \<and> reconcileWorkload R j w3 = (r, w'))"
proof -
  have read: "rel w w1"
    using reconciler_keepsD(7) [OF F] get unfolding calls_keep_def by blast
  note trans = transpD [OF reconciler_keepsD(2) [OF F]]
  show ?thesis
  proof (cases g)
    case (Inl e)
    with run get read show ?thesis by (auto simp: Reconcile_def go_try_def go_bind_def r_get_def split: if_splits)
  next
    case (Inr i)
    let ?rest = "\<lambda>j. go_bind (ReconcileCronStrategies R j) (\<lambda>(result, err). case err of
               Some err \<Rightarrow> go_return (result, Some err)
             | None \<Rightarrow> reconcileWorkload R j)"
    have run2: "go_try (reconcileFinalizer R i) (\<lambda>err. go_return (no_requeue, Some err)) ?rest w1 = (r, w')"
      using run get Inr by (simp add: Reconcile_def go_try_def go_bind_def r_get_def)
    have mine1: "IdlingResourceSlot (meta_key (ir_meta i)) \<in> S" using mine [OF Inr] by simp
    obtain f w2 where fin: "reconcileFinalizer R i w1 = (f, w2)" by fastforce
    have w2: "rel w w2" using trans [OF read] go_keepsD [OF reconcileFinalizer_frame [OF F mine1] fin] .
    consider (stop) "w' = w2" | (go) j where "f = Ret (Inr j)" "?rest j w2 = (r, w')"
      using run2 fin by (auto simp: go_try_def go_bind_def split: outcome.splits sum.splits)
    then show ?thesis
    proof cases
      case go
      then have same: "same_instance i j" using reconcileFinalizer_same [OF F mine1] fin by blast
      have "owned_slots j \<subseteq> S" using mine [OF Inr] same_instanceD(4) [OF same] by (simp add: owned_slots_def)
      obtain q w3 where cron: "ReconcileCronStrategies R j w2 = (q, w3)" by fastforce
      have w3: "rel w w3"
        using trans [OF w2] go_keepsD [OF ReconcileCronStrategies_frame [OF F \<open>owned_slots j \<subseteq> S\<close>] cron] .
      have "w' = w3 \<or> reconcileWorkload R j w3 = (r, w')"
        using go(2) cron by (auto simp: go_bind_def split: outcome.splits option.splits prod.splits)
      with w3 Inr same show ?thesis by auto
    qed (use w2 in simp)
  qed
qed

lemma Reconcile_frame_calls:
  assumes F: "reconciler_keeps rel S R" and get: "kc_get (rc_IdlingResources R) req w = (g, w1)"
    and mine: "\<And>i. g = Inr i \<Longrightarrow> run_slots i \<subseteq> S"
    and run: "Reconcile R req w = (r, w')"
  shows "rel w w'"
proof -
  consider "rel w w'" | (reach) i j w3 where "g = Inr i" "same_instance i j" "rel w w3"
      "reconcileWorkload R j w3 = (r, w')"
    using Reconcile_until_workload [OF F get _ run] mine by (auto simp: run_slots_def)
  then show ?thesis
  proof cases
    case reach
    then have "run_slots j \<subseteq> S" using mine [OF reach(1)] run_slots_same [OF reach(2)] by simp
    then have "IdlingResourceSlot (meta_key (ir_meta j)) \<in> S" "target_slots j \<subseteq> S"
      by (simp_all add: run_slots_def)
    from go_keepsD [OF reconcileWorkload_frame [OF F this] reach(4)] reach(3) reconciler_keepsD(2) [OF F]
    show ?thesis by (blast dest: transpD)
  qed
qed

lemma apart_from_workload_slots:
  "apart_from_workload i p \<longleftrightarrow> independent p (IdlingResourceSlot (meta_key (ir_meta i))) \<and>
     target_slots i \<subseteq> Collect (independent p)"
  by (auto simp: apart_from_workload_def target_slots_def)

lemma apart_from_owned_slots: "apart_from_owned i p \<longleftrightarrow> owned_slots i \<subseteq> Collect (independent p)"
  by (auto simp: apart_from_owned_def owned_slots_def)

lemma reconcileWorkload_keeps:
  assumes R: "reconciler_contract view R" and p: "apart_from_workload i p"
  shows "keeps_part view p (reconcileWorkload R i)"
  using p by (intro keeps_part_frame reconcileWorkload_frame [OF reconciler_keeps_part [OF R]])
    (simp_all add: apart_from_workload_slots)

text \<open>The instance that was read, when reads are fresh.\<close>

lemma fresh_instance:
  assumes "reconciler_contract view R" "fresh_reads view R"
    and "kc_get (rc_IdlingResources R) req w = (Inr i, w1)"
  shows "cl_IdlingResources (view w) req = Some i"
  using ik.coherentD(1) [of view "rc_IdlingResources R" req w "Inr i" w1 i] assms
  by (simp add: fresh_reads_def IdlingResourceStore_def)

lemma Reconcile_prefix:
  assumes R: "reconciler_contract view R" and fresh: "fresh_reads view R"
    and p: "\<And>i. cl_IdlingResources (view w) req = Some i \<Longrightarrow> apart_from_owned i p"
      "\<And>i c v. cl_IdlingResources (view w) req = Some i \<Longrightarrow>
         p (cl_IdlingResources_update (\<lambda>m. m(meta_key (ir_meta i) := v)) c) = p c"
    and run: "Reconcile R req w = (r, w')"
  shows "p (view w') = p (view w) \<or>
     (\<exists>i j w3. cl_IdlingResources (view w) req = Some i \<and> same_instance i j \<and> p (view w3) = p (view w) \<and>
        reconcileWorkload R j w3 = (r, w'))"
proof -
  obtain g w1 where get: "kc_get (rc_IdlingResources R) req w = (g, w1)" by fastforce
  note stored = fresh_instance [OF R fresh, of req w _ w1]
  show ?thesis
    using Reconcile_until_workload [OF reconciler_keeps_part [OF R, of p] get _ run] get stored p
    by (auto simp: apart_from_owned_slots)
qed

lemma Reconcile_keeps:
  assumes R: "reconciler_contract view R" and fresh: "fresh_reads view R"
    and p: "\<And>i. cl_IdlingResources (view w) req = Some i \<Longrightarrow> apart_from_run i p"
    and run: "Reconcile R req w = (r, w')"
  shows "p (view w') = p (view w)"
proof -
  obtain g w1 where get: "kc_get (rc_IdlingResources R) req w = (g, w1)" by fastforce
  have "run_slots i \<subseteq> Collect (independent p)" if "g = Inr i" for i
    using p [OF fresh_instance [OF R fresh get[unfolded that]]]
    by (simp add: run_slots_def apart_from_run_def apart_from_owned_slots apart_from_workload_slots)
  from Reconcile_frame_calls [OF reconciler_keeps_part [OF R, of p] get this run] show ?thesis .
qed

text \<open>The strategies of the instance are in place after a run.\<close>

lemma role_for_same: "same_instance i j \<Longrightarrow> role_for j r = role_for i r"
  by (simp add: role_for_def policyRule_def same_instanceD split: list.splits)

lemma owned_by_same: "same_instance i j \<Longrightarrow> owned_by j m = owned_by i m"
  by (simp add: owned_by_def same_instanceD)

lemma access_ready_same: "same_instance i j \<Longrightarrow> access_ready j c c' = access_ready i c c'"
  by (simp add: access_ready_def role_for_same owned_by_same same_instanceD cong: option.case_cong)

lemma cron_ready_same:
  assumes "same_instance i j"
  shows "cron_ready R j command strategy c = cron_ready R i command strategy c"
  using assms by (simp add: cron_ready_def cron_values_def same_instanceD cong: option.case_cong)

lemma cron_same:
  assumes "same_instance i j"
  shows "idle_cron j = idle_cron i" "wakeup_cron j = wakeup_cron i"
  using assms by (simp_all add: idle_cron_def wakeup_cron_def same_instance_def)

text \<open>The target of an instance is none of the cron jobs kidle makes for it.\<close>

definition target_apart :: "IdlingResource \<Rightarrow> bool" where
  "target_apart i \<longleftrightarrow> (ref_Kind (ref_of i) = ''CronJob'' \<longrightarrow>
     target_key i \<noteq> owned_key i CommandIdle \<and> target_key i \<noteq> owned_key i CommandWakeup)"

lemma Reconcile_access:
  assumes R: "reconciler_contract view R" and fresh: "fresh_reads view R"
    and inst: "cl_IdlingResources (view w) req = Some i"
    and run: "Reconcile R req w = (Ret (res, None), w')"
  shows "access_ready i (view w) (view w')"
proof -
  obtain w1 j w2 w3 res' where w1: "view w1 = view w" and same: "same_instance i j"
    and fin: "reconcileFinalizer R i w1 = (Ret (Inr j), w2)"
    and cron: "ReconcileCronStrategies R j w2 = (Ret (res', None), w3)"
    and wl: "reconcileWorkload R j w3 = (Ret (res, None), w')"
    using Reconcile_stages [OF R fresh inst run] by metis
  have "access_ready j (view w2) (view w3)" by (rule ReconcileCronStrategies_access [OF R fresh cron])
  moreover have "cl_RoleBindings (view w2) = cl_RoleBindings (view w)"
    using keeps_partD [OF reconcileFinalizer_keeps [OF R, of cl_RoleBindings] fin] w1 by simp
  moreover have later: "q (view w') = q (view w3)" if "apart_from_workload i q" for q :: "cluster \<Rightarrow> 'q"
    using keeps_partD [OF reconcileWorkload_keeps [OF R] wl] that apart_from_run_same(1) [OF same, of q] by blast
  have "cl_ServiceAccounts (view w') = cl_ServiceAccounts (view w3)"
    "cl_Roles (view w') = cl_Roles (view w3)" "cl_RoleBindings (view w') = cl_RoleBindings (view w3)"
    by (rule later; simp add: apart_from_workload_def)+
  ultimately show ?thesis
    using access_ready_same [OF same] by (simp add: access_ready_def)
qed

lemma Reconcile_strategies:
  assumes R: "reconciler_contract view R" and av: "reconciler_available view R"
    and inst: "cl_IdlingResources (view w) req = Some i" and apart: "target_apart i"
    and sane: "\<And>command cj. command \<in> {CommandIdle, CommandWakeup} \<Longrightarrow>
        cl_CronJobs (view w) (owned_key i command) = Some cj \<Longrightarrow> has_kidlectl cj"
    and run: "Reconcile R req w = (Ret (res, None), w')"
  shows "access_ready i (view w) (view w') \<and>
     cron_ready R i CommandIdle (idle_cron i) (view w') \<and>
     cron_ready R i CommandWakeup (wakeup_cron i) (view w')"
proof -
  obtain w1 j w2 w3 res' where w1: "view w1 = view w" and key: "meta_key (ir_meta i) = req"
    and same: "same_instance i j" and fin: "reconcileFinalizer R i w1 = (Ret (Inr j), w2)"
    and cron: "ReconcileCronStrategies R j w2 = (Ret (res', None), w3)"
    and wl: "reconcileWorkload R j w3 = (Ret (res, None), w')"
    using Reconcile_stages [OF R reconciler_available_fresh [OF av] inst run] .
  have keep: "q (view w2) = q (view w)" if "\<And>f c. q (cl_IdlingResources_update f c) = q c"
    for q :: "cluster \<Rightarrow> 'q"
    using keeps_partD [OF reconcileFinalizer_keeps [OF R, of q] fin] that w1 by simp
  have keep2: "cl_CronJobs (view w2) = cl_CronJobs (view w)"
    by (rule keep) simp
  have sane2: "has_kidlectl cj" if "command \<in> {CommandIdle, CommandWakeup}"
      "cl_CronJobs (view w2) (owned_key j command) = Some cj" for command cj
    using sane [OF that(1)] that(2) keep2 same_instanceD(4) [OF same] by simp
  have run3: "cron_ready R j CommandIdle (idle_cron j) (view w3)"
    "cron_ready R j CommandWakeup (wakeup_cron j) (view w3)"
    using ReconcileCronStrategies_run [OF R av _ cron] sane2 by blast+
  have access: "access_ready i (view w) (view w')"
    by (rule Reconcile_access [OF R reconciler_available_fresh [OF av] inst run])
  have cron_jobs: "cron_ready R i CommandIdle (idle_cron i) (view w3)"
    "cron_ready R i CommandWakeup (wakeup_cron i) (view w3)"
    using run3 by (simp_all add: cron_ready_same [OF same] cron_same [OF same])
  have later: "q (view w') = q (view w3)" if "apart_from_workload i q" for q :: "cluster \<Rightarrow> 'q"
    using keeps_partD [OF reconcileWorkload_keeps [OF R] wl] that apart_from_run_same(1) [OF same, of q] by blast
  have kept_jobs: "cl_CronJobs (view w') (owned_key i CommandIdle) = cl_CronJobs (view w3) (owned_key i CommandIdle)"
    "cl_CronJobs (view w') (owned_key i CommandWakeup) = cl_CronJobs (view w3) (owned_key i CommandWakeup)"
    using apart by (auto intro!: later simp: apart_from_workload_def target_apart_def)
  show ?thesis
    using access cron_jobs unfolding cron_ready_def kept_jobs by blast
qed

end
