(* ===== verification/Workloads.thy ===== *)
theory Workloads
  imports Reconcile_System
begin

text \<open>
  The workload an instance refers to, whichever of the three kinds it is of: its abstraction, whether
  it is there, and what the locale \<open>reconciled_kind\<close> says of a run for it, put together for the three
  kinds.
\<close>

section \<open>The workload of an instance\<close>

definition deployment_view :: "deployment \<Rightarrow> workload" where
  "deployment_view = workload_view Deployments deployment_level (\<lambda>d. sint (deployment_prior d))"

definition statefulset_view :: "statefulset \<Rightarrow> workload" where
  "statefulset_view = workload_view StatefulSets statefulset_level (\<lambda>s. sint (statefulset_prior s))"

definition cronjob_view :: "cronjob \<Rightarrow> workload" where
  "cronjob_view = workload_view CronJobs cronjob_level cronjob_prior"

text \<open>
  The workload an instance refers to is there, is valid, and its record can be read; it is not there;
  it is there, and has somewhere to wake up to when the instance wants it awake.
\<close>

definition workload_ready :: "cluster \<Rightarrow> IdlingResource \<Rightarrow> bool" where
  "workload_ready c i =
     (if ref_Kind (ref_of i) = ''Deployment'' then
        (case cl_Deployments c (target_key i) of None \<Rightarrow> False
         | Some d \<Rightarrow> deployment_valid d \<and> deployment_wake_error d = None)
      else if ref_Kind (ref_of i) = ''StatefulSet'' then
        (case cl_StatefulSets c (target_key i) of None \<Rightarrow> False
         | Some s \<Rightarrow> statefulset_valid s \<and> statefulset_wake_error s = None)
      else if ref_Kind (ref_of i) = ''CronJob'' then
        (case cl_CronJobs c (target_key i) of None \<Rightarrow> False | Some cj \<Rightarrow> cronjob_valid cj)
      else False)"

definition workload_missing :: "cluster \<Rightarrow> IdlingResource \<Rightarrow> bool" where
  "workload_missing c i =
     (if ref_Kind (ref_of i) = ''Deployment'' then cl_Deployments c (target_key i) = None
      else if ref_Kind (ref_of i) = ''StatefulSet'' then cl_StatefulSets c (target_key i) = None
      else if ref_Kind (ref_of i) = ''CronJob'' then cl_CronJobs c (target_key i) = None
      else False)"

definition workload_steady :: "cluster \<Rightarrow> IdlingResource \<Rightarrow> bool" where
  "workload_steady c i =
     (if ref_Kind (ref_of i) = ''Deployment'' then
        (case cl_Deployments c (target_key i) of None \<Rightarrow> False
         | Some d \<Rightarrow> deployment_valid d \<and>
             (spec_Idle (ir_Spec i) \<or> 0 < sint (deployment_prior d) \<or> 0 < deployment_level d))
      else if ref_Kind (ref_of i) = ''StatefulSet'' then
        (case cl_StatefulSets c (target_key i) of None \<Rightarrow> False
         | Some s \<Rightarrow> statefulset_valid s \<and>
             (spec_Idle (ir_Spec i) \<or> 0 < sint (statefulset_prior s) \<or> 0 < statefulset_level s))
      else if ref_Kind (ref_of i) = ''CronJob'' then
        (case cl_CronJobs c (target_key i) of None \<Rightarrow> False | Some cj \<Rightarrow> cronjob_valid cj)
      else False)"

text \<open>Its abstraction; whether it is valid; and that it is the same in two states.\<close>

definition workload_at :: "cluster \<Rightarrow> IdlingResource \<Rightarrow> workload option" where
  "workload_at c i =
     (if ref_Kind (ref_of i) = ''Deployment'' then map_option deployment_view (cl_Deployments c (target_key i))
      else if ref_Kind (ref_of i) = ''StatefulSet'' then map_option statefulset_view (cl_StatefulSets c (target_key i))
      else if ref_Kind (ref_of i) = ''CronJob'' then map_option cronjob_view (cl_CronJobs c (target_key i))
      else None)"

definition workload_valid :: "cluster \<Rightarrow> IdlingResource \<Rightarrow> bool" where
  "workload_valid c i =
     (if ref_Kind (ref_of i) = ''Deployment'' then
        (case cl_Deployments c (target_key i) of None \<Rightarrow> False | Some d \<Rightarrow> deployment_valid d)
      else if ref_Kind (ref_of i) = ''StatefulSet'' then
        (case cl_StatefulSets c (target_key i) of None \<Rightarrow> False | Some s \<Rightarrow> statefulset_valid s)
      else if ref_Kind (ref_of i) = ''CronJob'' then
        (case cl_CronJobs c (target_key i) of None \<Rightarrow> False | Some cj \<Rightarrow> cronjob_valid cj)
      else False)"

definition target_unchanged :: "IdlingResource \<Rightarrow> cluster \<Rightarrow> cluster \<Rightarrow> bool" where
  "target_unchanged i c c' \<longleftrightarrow>
     (ref_Kind (ref_of i) = ''Deployment'' \<longrightarrow> cl_Deployments c' (target_key i) = cl_Deployments c (target_key i)) \<and>
     (ref_Kind (ref_of i) = ''StatefulSet'' \<longrightarrow> cl_StatefulSets c' (target_key i) = cl_StatefulSets c (target_key i)) \<and>
     (ref_Kind (ref_of i) = ''CronJob'' \<longrightarrow> cl_CronJobs c' (target_key i) = cl_CronJobs c (target_key i))"

definition idleable_kinds :: "string list" where
  "idleable_kinds = [''Deployment'', ''StatefulSet'', ''CronJob'']"

lemma apart_target:
  assumes "target_apart i"
  shows "ref_Kind (ref_of i) = ''Deployment'' \<Longrightarrow> apart_from_owned i (\<lambda>c. ks_get DeploymentStore c (target_key i))"
    "ref_Kind (ref_of i) = ''StatefulSet'' \<Longrightarrow> apart_from_owned i (\<lambda>c. ks_get StatefulSetStore c (target_key i))"
    "ref_Kind (ref_of i) = ''CronJob'' \<Longrightarrow> apart_from_owned i (\<lambda>c. ks_get CronJobStore c (target_key i))"
  using assms
  by (simp_all add: store_defs apart_from_owned_def target_apart_def)

lemma workload_same:
  assumes "same_instance i j"
  shows "workload_ready c j = workload_ready c i" "workload_missing c j = workload_missing c i"
    "target_apart j = target_apart i"
  by (simp_all add: workload_ready_def workload_missing_def target_apart_def same_instanceD [OF assms]
      target_key_same [OF assms])

lemma workload_level: "workload_valid c i \<Longrightarrow> workload_at c i = Some a \<Longrightarrow> 0 \<le> wl_level a"
  by (auto simp: workload_valid_def workload_at_def deployment_view_def statefulset_view_def cronjob_view_def
      workload_view_def cronjob_level_def dep.valid_level sts.valid_level split: if_splits option.splits)

lemma workload_unchanged:
  assumes "target_unchanged i c c'" "ref_of j = ref_of i" "target_key j = target_key i"
  shows "workload_at c' j = workload_at c i" "workload_valid c' j = workload_valid c i"
  using assms by (simp_all add: target_unchanged_def workload_at_def workload_valid_def)

section \<open>Runs\<close>

lemma run_refines:
  assumes R: "reconciler_contract view R" and fresh: "fresh_reads view R"
    and inst: "cl_IdlingResources (view w) req = Some i" and apart: "target_apart i"
    and valid: "workload_valid (view w) i"
    and run: "Reconcile R req w = (Ret (res, None), w')"
  obtains a where "workload_at (view w) i = Some a"
    "workload_at (view w') i
       = Some (reconcile_spec (IsBeingDeleted i) (spec_Idle (ir_Spec i)) (nn_Name req) a)"
    "0 \<le> wl_level (reconcile_spec (IsBeingDeleted i) (spec_Idle (ir_Spec i)) (nn_Name req) a) \<Longrightarrow>
       workload_valid (view w') i"
proof -
  consider d where "ref_Kind (ref_of i) = ''Deployment''" "ks_get DeploymentStore (view w) (target_key i) = Some d"
      "deployment_valid d"
    | s where "ref_Kind (ref_of i) = ''StatefulSet''" "ks_get StatefulSetStore (view w) (target_key i) = Some s"
      "statefulset_valid s"
    | cj where "ref_Kind (ref_of i) = ''CronJob''" "ks_get CronJobStore (view w) (target_key i) = Some cj"
      "cronjob_valid cj"
    using valid by (auto simp: workload_valid_def store_defs split: if_splits option.splits)
  then have "\<exists>a. workload_at (view w) i = Some a \<and> workload_at (view w') i
       = Some (reconcile_spec (IsBeingDeleted i) (spec_Idle (ir_Spec i)) (nn_Name req) a) \<and>
     (0 \<le> wl_level (reconcile_spec (IsBeingDeleted i) (spec_Idle (ir_Spec i)) (nn_Name req) a) \<longrightarrow>
       workload_valid (view w') i)"
  proof cases
    case 1
    then obtain y where "ks_get DeploymentStore (view w') (target_key i) = Some y" "0 \<le> deployment_level y \<longrightarrow> deployment_valid y"
        "deployment_view y = reconcile_spec (IsBeingDeleted i) (spec_Idle (ir_Spec i)) (nn_Name req) (deployment_view d)"
      using rec_d.Reconcile_refines [OF R fresh inst 1(1) apart_target(1) [OF apart 1(1)] 1(2,3) run]
      unfolding deployment_view_def by blast
    moreover have "wl_level (deployment_view y) = deployment_level y" by (simp add: deployment_view_def workload_view_def)
    ultimately show ?thesis using 1 by (auto simp: workload_at_def workload_valid_def store_defs)
  next
    case 2
    then obtain y where "ks_get StatefulSetStore (view w') (target_key i) = Some y" "0 \<le> statefulset_level y \<longrightarrow> statefulset_valid y"
        "statefulset_view y = reconcile_spec (IsBeingDeleted i) (spec_Idle (ir_Spec i)) (nn_Name req) (statefulset_view s)"
      using rec_s.Reconcile_refines [OF R fresh inst 2(1) apart_target(2) [OF apart 2(1)] 2(2,3) run]
      unfolding statefulset_view_def by blast
    moreover have "wl_level (statefulset_view y) = statefulset_level y" by (simp add: statefulset_view_def workload_view_def)
    ultimately show ?thesis using 2 by (auto simp: workload_at_def workload_valid_def store_defs)
  next
    case 3
    then obtain y where "ks_get CronJobStore (view w') (target_key i) = Some y" "0 \<le> cronjob_level y \<longrightarrow> cronjob_valid y"
        "cronjob_view y = reconcile_spec (IsBeingDeleted i) (spec_Idle (ir_Spec i)) (nn_Name req) (cronjob_view cj)"
      using rec_c.Reconcile_refines [OF R fresh inst 3(1) apart_target(3) [OF apart 3(1)] 3(2,3) run]
      unfolding cronjob_view_def by blast
    moreover have "wl_level (cronjob_view y) = cronjob_level y" by (simp add: cronjob_view_def workload_view_def)
    ultimately show ?thesis using 3 by (auto simp: workload_at_def workload_valid_def store_defs)
  qed
  with that show ?thesis by blast
qed

lemma ready_run:
  assumes R: "reconciler_contract view R" and av: "reconciler_available view R"
    and inst: "cl_IdlingResources (view w) req = Some i" and apart: "target_apart i"
    and ready: "workload_ready (view w) i"
    and rules: "\<And>r. cl_Roles (view w) (owned_key i ''role'') = Some r \<Longrightarrow> r_Rules r \<noteq> []"
  obtains w' where "Reconcile R req w = (Ret (no_requeue, None), w')"
proof -
  consider d where "ref_Kind (ref_of i) = ''Deployment''" "ks_get DeploymentStore (view w) (target_key i) = Some d"
      "deployment_valid d" "deployment_wake_error d = None"
    | s where "ref_Kind (ref_of i) = ''StatefulSet''" "ks_get StatefulSetStore (view w) (target_key i) = Some s"
      "statefulset_valid s" "statefulset_wake_error s = None"
    | cj where "ref_Kind (ref_of i) = ''CronJob''" "ks_get CronJobStore (view w) (target_key i) = Some cj"
      "cronjob_valid cj"
    using ready by (auto simp: workload_ready_def store_defs split: if_splits option.splits)
  then show ?thesis
  proof cases
    case 1
    show ?thesis
      by (rule rec_d.Reconcile_available [OF R av inst 1(1) apart_target(1) [OF apart 1(1)] 1(2-4)])
        (fact rules, fact that)
  next
    case 2
    show ?thesis
      by (rule rec_s.Reconcile_available [OF R av inst 2(1) apart_target(2) [OF apart 2(1)] 2(2-4)])
        (fact rules, fact that)
  next
    case 3
    show ?thesis
      by (rule rec_c.Reconcile_available [OF R av inst 3(1) apart_target(3) [OF apart 3(1)] 3(2,3)])
        (fact cronjob_wake_error_def, fact rules, fact that)
  qed
qed

lemma missing_kind:
  assumes "workload_missing c i"
  obtains (deployment) "ref_Kind (ref_of i) = ''Deployment''" "ks_get DeploymentStore c (target_key i) = None"
    | (statefulset) "ref_Kind (ref_of i) = ''StatefulSet''" "ks_get StatefulSetStore c (target_key i) = None"
    | (cronjob) "ref_Kind (ref_of i) = ''CronJob''" "ks_get CronJobStore c (target_key i) = None"
  using assms by (auto simp: workload_missing_def store_defs split: if_splits)

lemma missing_run:
  assumes R: "reconciler_contract view R" and fresh: "fresh_reads view R"
    and inst: "cl_IdlingResources (view w) req = Some i" and apart: "target_apart i"
    and missing: "workload_missing (view w) i"
    and run: "Reconcile R req w = (Ret (res, None), w')"
  shows "workload_missing (view w') i"
    "res = (if IsBeingDeleted i then no_requeue else no_requeue\<lparr> res_RequeueAfter := 2 * second \<rparr>)"
  using missing_kind [OF missing]
    rec_d.Reconcile_missing [OF R fresh inst _ apart_target(1) [OF apart] _ run]
    rec_s.Reconcile_missing [OF R fresh inst _ apart_target(2) [OF apart] _ run]
    rec_c.Reconcile_missing [OF R fresh inst _ apart_target(3) [OF apart] _ run]
  by (cases; simp add: workload_missing_def store_defs)+

lemma missing_available:
  assumes R: "reconciler_contract view R" and av: "reconciler_available view R"
    and inst: "cl_IdlingResources (view w) req = Some i" and apart: "target_apart i"
    and missing: "workload_missing (view w) i"
    and rules: "\<And>r. cl_Roles (view w) (owned_key i ''role'') = Some r \<Longrightarrow> r_Rules r \<noteq> []"
  obtains res w' where "Reconcile R req w = (Ret (res, None), w')"
  using missing
proof (cases rule: missing_kind)
  case deployment
  show ?thesis
    by (rule rec_d.Reconcile_missing_available [OF R av inst deployment(1) apart_target(1) [OF apart deployment(1)]
          deployment(2)]) (fact rules, fact that)
next
  case statefulset
  show ?thesis
    by (rule rec_s.Reconcile_missing_available [OF R av inst statefulset(1) apart_target(2) [OF apart statefulset(1)]
          statefulset(2)]) (fact rules, fact that)
next
  case cronjob
  show ?thesis
    by (rule rec_c.Reconcile_missing_available [OF R av inst cronjob(1) apart_target(3) [OF apart cronjob(1)]
          cronjob(2)]) (fact rules, fact that)
qed

text \<open>The instance after a run that succeeded.\<close>

lemma instance_run:
  assumes R: "reconciler_contract view R" and fresh: "fresh_reads view R"
    and inst: "cl_IdlingResources (view w) req = Some i" "ref_Kind (ref_of i) \<in> set idleable_kinds"
    and run: "Reconcile R req w = (Ret (res, None), w')"
  shows "if IsBeingDeleted i
     then (\<forall>j. cl_IdlingResources (view w') req = Some j \<longrightarrow>
             same_instance i j \<and> \<not> HasFinalizer j IdlingResourceFinalizerName \<and> om_Finalizers (ir_meta j) \<noteq> [])
     else (\<exists>j. cl_IdlingResources (view w') req = Some j \<and>
             same_instance i j \<and> HasFinalizer j IdlingResourceFinalizerName)"
proof -
  consider "ref_Kind (ref_of i) = ''Deployment''" | "ref_Kind (ref_of i) = ''StatefulSet''"
    | "ref_Kind (ref_of i) = ''CronJob''"
    using inst(2) by (auto simp: idleable_kinds_def)
  then show ?thesis
    using rec_d.Reconcile_instance [OF R fresh inst(1) _ run] rec_s.Reconcile_instance [OF R fresh inst(1) _ run]
      rec_c.Reconcile_instance [OF R fresh inst(1) _ run] by cases blast+
qed

text \<open>A second run leaves the workloads alone.\<close>

lemma steady_twice:
  assumes R: "reconciler_contract view R" and fresh: "fresh_reads view R"
    and inst: "cl_IdlingResources (view w) req = Some i" "\<not> IsBeingDeleted i"
    and apart: "target_apart i" "apart_from_owned i p" "\<And>f c. p (cl_IdlingResources_update f c) = p c"
    and steady: "workload_steady (view w) i"
    and run1: "Reconcile R req w = (Ret (res1, None), w1)"
    and run2: "Reconcile R req w1 = (Ret (res2, None), w2)"
  shows "p (view w2) = p (view w1)"
proof -
  consider d where "ref_Kind (ref_of i) = ''Deployment''" "ks_get DeploymentStore (view w) (target_key i) = Some d"
      "deployment_valid d" "spec_Idle (ir_Spec i) \<or> 0 < sint (deployment_prior d) \<or> 0 < deployment_level d"
    | s where "ref_Kind (ref_of i) = ''StatefulSet''" "ks_get StatefulSetStore (view w) (target_key i) = Some s"
      "statefulset_valid s" "spec_Idle (ir_Spec i) \<or> 0 < sint (statefulset_prior s) \<or> 0 < statefulset_level s"
    | cj where "ref_Kind (ref_of i) = ''CronJob''" "ks_get CronJobStore (view w) (target_key i) = Some cj"
      "cronjob_valid cj" "spec_Idle (ir_Spec i) \<or> 0 < cronjob_prior cj \<or> 0 < cronjob_level cj"
    using steady by (auto simp: workload_steady_def store_defs cronjob_prior_def split: if_splits option.splits)
  then show ?thesis
  proof cases
    case 1
    from rec_d.Reconcile_twice [where p = p, OF R fresh inst(1) 1(1) inst(2) apart_target(1) [OF apart(1) 1(1)]
        apart(2,3) 1(2-4) run1 run2] show ?thesis .
  next
    case 2
    from rec_s.Reconcile_twice [where p = p, OF R fresh inst(1) 2(1) inst(2) apart_target(2) [OF apart(1) 2(1)]
        apart(2,3) 2(2-4) run1 run2] show ?thesis .
  next
    case 3
    from rec_c.Reconcile_twice [where p = p, OF R fresh inst(1) 3(1) inst(2) apart_target(3) [OF apart(1) 3(1)]
        apart(2,3) 3(2-4) run1 run2] show ?thesis .
  qed
qed

end
