(* ===== verification/Demo.thy ===== *)
theory Demo
  imports Workloads
begin

text \<open>
  The runs of \<open>Reconcile\<close> on the small cluster of \<open>Sim\<close>, to which the properties are applied.
\<close>

lemma sim_fresh_reads: "fresh_reads sim_view (sim_reconciler kidlectl)"
  by (rule reconciler_available_fresh [OF sim_reconciler_available])

lemma demo_objects:
  "ref_of (demo_instance kind idle) = \<lparr> ref_Kind = kind, ref_Name = ''web'', ref_APIVersion = ''apps/v1'' \<rparr>"
  "ref_of (demo_deleted kind idle) = \<lparr> ref_Kind = kind, ref_Name = ''web'', ref_APIVersion = ''apps/v1'' \<rparr>"
  "target_key (demo_instance kind idle) = demo_target" "target_key (demo_deleted kind idle) = demo_target"
  "\<not> IsBeingDeleted (demo_instance kind idle)" "IsBeingDeleted (demo_deleted kind idle)"
  "spec_Idle (ir_Spec (demo_instance kind idle)) = idle" "spec_Idle (ir_Spec (demo_deleted kind idle)) = idle"
  "nn_Name demo_req = ''web-idler''" "nn_Namespace demo_req = ''default''"
  by (simp_all add: demo_defs ref_of_def target_key_def instance_key_def IsBeingDeleted_def meta_deleting_def)

lemma demo_workloads:
  "deployment_valid demo_deployment" "deployment_wake_error demo_deployment = None"
  "deployment_level demo_deployment = 3" "d_Replicas demo_deployment = Some 3"
  "sint (deployment_prior demo_deployment) = 1" "d_rest demo_deployment = ''web pods''"
  "deployment_view demo_deployment = \<lparr> wl_level = 3, wl_prior = 1, wl_reference = None \<rparr>"
  "statefulset_valid demo_statefulset" "statefulset_wake_error demo_statefulset = None"
  "sint (statefulset_prior demo_statefulset) = 1" "s_rest demo_statefulset = ''web pods''"
  "statefulset_view demo_statefulset = \<lparr> wl_level = 2, wl_prior = 1, wl_reference = None \<rparr>"
  "cronjob_valid demo_cronjob" "cronjob_view demo_cronjob = \<lparr> wl_level = 1, wl_prior = 1, wl_reference = None \<rparr>"
  by (simp_all add: demo_defs deployment_valid_def deployment_wake_error_def deployment_prior_def
      deployment_previous_cases deployment_view_def workload_view_def deployment_level_def
      statefulset_valid_def statefulset_wake_error_def statefulset_prior_def
      statefulset_previous_cases statefulset_view_def statefulset_level_def cronjob_valid_def
      cronjob_view_def cronjob_level_def cronjob_prior_def annotation_def)

lemmas demo_simps = demo_objects demo_workloads

text \<open>The small CronJob is none of those kidle makes: their names begin with \<open>kidle-\<close>.\<close>

lemma ToDNSName_prefix:
  assumes "ToDNSName ''kidle'' name suffix = Ret s"
  shows "take 6 s = ''kidle-''"
proof (cases "Suc (length ''kidle'') + length name + length (dashed suffix) \<le> 63")
  case True
  with assms show ?thesis by (auto simp: ToDNSName_short)
next
  case False
  then have "Suc (length ''kidle'') + length (dashed suffix) \<le> 56"
    using assms ToDNSName_no_room [of "''kidle''" name suffix] by force
  with False assms show ?thesis
    by (auto simp: ToDNSName_long to_lower_def)
qed

lemma demo_target_not_owned [simp]: "owned_key i suffix \<noteq> demo_target" "demo_target \<noteq> owned_key i suffix"
proof -
  have "s \<noteq> ''web''" if "ToDNSName ''kidle'' (om_Name (ir_meta i)) suffix = Ret s" for s
    using ToDNSName_prefix [OF that] by auto
  then show "owned_key i suffix \<noteq> demo_target"
    by (auto simp: owned_key_def instance_key_def demo_target_def split: outcome.splits)
  then show "demo_target \<noteq> owned_key i suffix" by simp
qed

lemma demo_target_apart [simp]: "target_apart (demo_instance kind idle)" "target_apart (demo_deleted kind idle)"
  by (simp_all add: target_apart_def demo_objects)

text \<open>The runs succeed.\<close>

definition demo_case :: "string \<Rightarrow> bool \<Rightarrow> IdlingResource \<Rightarrow> bool" where
  "demo_case kind idle i \<longleftrightarrow> i = demo_instance kind idle \<or> i = demo_deleted kind idle"

lemma demo_cases [simp]: "demo_case kind idle (demo_instance kind idle)" "demo_case kind idle (demo_deleted kind idle)"
  by (simp_all add: demo_case_def)

lemma demo_run:
  assumes "demo_case kind idle i" "kind \<in> {''Deployment'', ''StatefulSet'', ''CronJob''}"
  obtains w' where "Reconcile demo_reconciler demo_req (demo_world i) = (Ret (no_requeue, None), w')"
proof -
  have i: "cl_IdlingResources (sim_view (demo_world i)) demo_req = Some i" "ref_Kind (ref_of i) = kind"
    "target_key i = demo_target"
    using assms(1) by (auto simp: demo_case_def demo_objects)
  note av = sim_reconciler_contract sim_reconciler_available
  consider "kind = ''Deployment''" | "kind = ''StatefulSet''" | "kind = ''CronJob''" using assms(2) by blast
  then show ?thesis
  proof cases
    case 1
    have "\<exists>w'. Reconcile demo_reconciler demo_req (demo_world i) = (Ret (no_requeue, None), w')"
      by (rule rec_d.Reconcile_available [OF av, of "demo_world i" demo_req i demo_deployment])
        (auto simp: i 1 demo_workloads DeploymentStore_def apart_from_owned_def)
    then show ?thesis using that by blast
  next
    case 2
    have "\<exists>w'. Reconcile demo_reconciler demo_req (demo_world i) = (Ret (no_requeue, None), w')"
      by (rule rec_s.Reconcile_available [OF av, of "demo_world i" demo_req i demo_statefulset])
        (auto simp: i 2 demo_workloads StatefulSetStore_def apart_from_owned_def)
    then show ?thesis using that by blast
  next
    case 3
    have "\<exists>w'. Reconcile demo_reconciler demo_req (demo_world i) = (Ret (no_requeue, None), w')"
      by (rule rec_c.Reconcile_available [OF av, of "demo_world i" demo_req i demo_cronjob])
        (auto simp: i 3 demo_workloads CronJobStore_def apart_from_owned_def cronjob_wake_error_def)
    then show ?thesis using that by blast
  qed
qed

text \<open>
  A second run, after the instance was replaced by the same one with another wish. The role the
  first run left has a rule, and the Deployment has a readable record.
\<close>

definition put_instance :: "IdlingResource \<Rightarrow> sim_world \<Rightarrow> sim_world" where
  "put_instance i w = w\<lparr> sw_cluster := (sw_cluster w)\<lparr> cl_IdlingResources := [demo_req \<mapsto> i] \<rparr> \<rparr>"

lemma put_instance_view [simp]:
  "cl_Deployments (sim_view (put_instance i w)) = cl_Deployments (sim_view w)"
  "cl_Roles (sim_view (put_instance i w)) = cl_Roles (sim_view w)"
  "cl_CronJobs (sim_view (put_instance i w)) = cl_CronJobs (sim_view w)"
  by (simp_all add: sim_view_def put_instance_def visible_cluster_def)

lemma put_instance_instances [simp]:
  "cl_IdlingResources (sim_view (put_instance (demo_instance kind idle) w)) demo_req = Some (demo_instance kind idle)"
  "cl_IdlingResources (sim_view (put_instance (demo_deleted kind idle) w)) demo_req = Some (demo_deleted kind idle)"
  by (auto simp: sim_view_def put_instance_def visible_cluster_def visible_def demo_defs genuine_def
      object_key_def meta_key_def resource_version_def meta_deleting_def ops_defs)

lemma demo_owned_key: "owned_key (demo_instance kind idle) suffix = owned_key (demo_instance kind' idle') suffix"
  "owned_key (demo_deleted kind idle) suffix = owned_key (demo_instance kind' idle') suffix"
  by (simp_all add: owned_key_def instance_key_def demo_defs split: outcome.splits)

lemma role_for_rules: "role_for i r \<Longrightarrow> r_Rules r \<noteq> []"
  by (auto simp: role_for_def)

lemma demo_first_run:
  assumes run: "Reconcile demo_reconciler demo_req (demo_world (demo_instance ''Deployment'' True))
      = (Ret (no_requeue, None), w1)"
  obtains r d where "cl_Roles (sim_view w1) (owned_key (demo_instance ''Deployment'' True) ''role'') = Some r"
    "r_Rules r \<noteq> []" "cl_Deployments (sim_view w1) demo_target = Some d" "deployment_valid d"
    "deployment_wake_error d = None"
proof -
  let ?i = "demo_instance ''Deployment'' True"
  note av = sim_reconciler_contract sim_reconciler_available and co = sim_reconciler_contract sim_fresh_reads
  have i: "cl_IdlingResources (sim_view (demo_world ?i)) demo_req = Some ?i" by simp
  have "access_ready ?i (sim_view (demo_world ?i)) (sim_view w1)"
    using Reconcile_strategies [OF av i demo_target_apart(1) _ run] by auto
  then obtain r where r: "cl_Roles (sim_view w1) (owned_key ?i ''role'') = Some r" "r_Rules r \<noteq> []"
    by (auto simp: access_ready_def dest: role_for_rules)
  obtain d where d: "cl_Deployments (sim_view w1) demo_target = Some d" "0 \<le> deployment_level d \<longrightarrow> deployment_valid d"
      "deployment_view d = reconcile_spec False True ''web-idler'' (deployment_view demo_deployment)"
    using rec_d.Reconcile_refines [OF co i _ _ _ _ run, of demo_deployment]
    by (auto simp: demo_simps DeploymentStore_def apart_from_owned_def deployment_view_def)
  have lv: "deployment_level d = 0" "sint (deployment_prior d) = 3"
    using d(3) by (simp_all add: demo_workloads reconcile_spec_def) (simp_all add: deployment_view_def workload_view_def)
  then have "deployment_wake_error d = None"
    by (auto simp: deployment_prior_def deployment_wake_error_def split: sum.splits)
  with that r d(1,2) lv show ?thesis by simp
qed

lemma demo_run_again:
  assumes run: "Reconcile demo_reconciler demo_req (demo_world (demo_instance ''Deployment'' True))
      = (Ret (no_requeue, None), w1)"
    and j: "j = demo_instance ''Deployment'' idle \<or> j = demo_deleted ''Deployment'' idle"
  obtains w2 where "Reconcile demo_reconciler demo_req (put_instance j w1) = (Ret (no_requeue, None), w2)"
proof -
  obtain r d where r: "cl_Roles (sim_view w1) (owned_key (demo_instance ''Deployment'' True) ''role'') = Some r"
    "r_Rules r \<noteq> []" and d: "cl_Deployments (sim_view w1) demo_target = Some d" "deployment_valid d"
    "deployment_wake_error d = None"
    using demo_first_run [OF run] .
  have "owned_key j ''role'' = owned_key (demo_instance ''Deployment'' True) ''role''"
    using j by (auto intro: demo_owned_key)
  then have rules: "r_Rules r' \<noteq> []"
    if "cl_Roles (sim_view (put_instance j w1)) (owned_key j ''role'') = Some r'" for r'
    using that r by simp
  have "\<exists>w2. Reconcile demo_reconciler demo_req (put_instance j w1) = (Ret (no_requeue, None), w2)"
    by (rule rec_d.Reconcile_available [OF sim_reconciler_contract sim_reconciler_available, of "put_instance j w1" demo_req j d])
      (use j d rules in \<open>auto simp: demo_objects DeploymentStore_def apart_from_owned_def\<close>)
  then show ?thesis using that by blast
qed

text \<open>And a second run for the instance as the first one left it.\<close>

lemma demo_run_next:
  assumes run: "Reconcile demo_reconciler demo_req (demo_world (demo_instance ''Deployment'' True))
      = (Ret (no_requeue, None), w1)"
  obtains w2 where "Reconcile demo_reconciler demo_req w1 = (Ret (no_requeue, None), w2)"
proof -
  let ?i = "demo_instance ''Deployment'' True"
  note av = sim_reconciler_contract sim_reconciler_available and co = sim_reconciler_contract sim_fresh_reads
  obtain r d where r: "cl_Roles (sim_view w1) (owned_key ?i ''role'') = Some r"
    "r_Rules r \<noteq> []" and d: "cl_Deployments (sim_view w1) demo_target = Some d" "deployment_valid d"
    "deployment_wake_error d = None"
    using demo_first_run [OF run] .
  obtain j where j: "cl_IdlingResources (sim_view w1) demo_req = Some j" "same_instance ?i j"
    using rec_d.Reconcile_instance [OF co _ _ run, of ?i] by (auto simp: demo_objects)
  have "\<exists>w2. Reconcile demo_reconciler demo_req w1 = (Ret (no_requeue, None), w2)"
    by (rule rec_d.Reconcile_available [OF av, of w1 demo_req j d])
      (use j d r same_instanceD(3,4) [OF j(2)] target_key_same [OF j(2)]
       in \<open>auto simp: demo_objects DeploymentStore_def apart_from_owned_def\<close>)
  then show ?thesis using that by blast
qed

text \<open>The small cluster without its Deployment.\<close>

definition demo_missing_world :: "IdlingResource \<Rightarrow> sim_world" where
  "demo_missing_world i = (demo_world i)\<lparr> sw_cluster := (sw_cluster (demo_world i))\<lparr> cl_Deployments := Map.empty \<rparr> \<rparr>"

lemma demo_missing_view [simp]:
  "cl_Deployments (sim_view (demo_missing_world i)) = Map.empty"
  "cl_IdlingResources (sim_view (demo_missing_world i)) = cl_IdlingResources (sim_view (demo_world i))"
  "cl_Roles (sim_view (demo_missing_world i)) = Map.empty"
  by (auto simp: demo_missing_world_def sim_view_def visible_cluster_def visible_def demo_world_def)

lemma demo_missing [simp]: "workload_missing (sim_view (demo_missing_world i)) (demo_instance ''Deployment'' idle)"
  by (simp add: workload_missing_def demo_objects)

end
