(* ===== verification/Idler_Properties.thy ===== *)
theory Idler_Properties
  imports Demo
begin

text \<open>
  The properties of the three idlers on their own, under the contract of the API server alone: reads
  may be stale, updates may conflict, and \<open>RetryOnConflict\<close> may give up at any time.
\<close>

section \<open>Objects as the server answers them\<close>

lemma annotation_server [simp]:
  "annotation (m\<lparr> om_ResourceVersion := v, om_managed := g \<rparr>) a = annotation m a"
  by (simp add: annotation_def)

lemma stamped_workload [simp]:
  "d_Replicas (stamp Deployments v g d) = d_Replicas d" "d_rest (stamp Deployments v g d) = d_rest d"
  "d_meta (stamp Deployments v g d) = (d_meta d)\<lparr> om_ResourceVersion := v, om_managed := g \<rparr>"
  "s_Replicas (stamp StatefulSets v g s) = s_Replicas s" "s_rest (stamp StatefulSets v g s) = s_rest s"
  "s_meta (stamp StatefulSets v g s) = (s_meta s)\<lparr> om_ResourceVersion := v, om_managed := g \<rparr>"
  "cj_Suspend (stamp CronJobs v g cj) = cj_Suspend cj"
  "cronjob_rest (stamp CronJobs v g cj) = cronjob_rest cj"
  "cj_meta (stamp CronJobs v g cj) = (cj_meta cj)\<lparr> om_ResourceVersion := v, om_managed := g \<rparr>"
  by (simp_all add: stamp_def cronjob_rest_def)

text \<open>One run of a retry closure on the store of a kind, in the terms of the cluster.\<close>

context stored_kind
begin

lemma retry_outcome:
  assumes "kind_contract view ops ks kc" "keeps_identity ops f"
    and "kc_retry kc (refetch_update kc ops f) (w, x) = (r, (w', x'))"
  obtains (wrote) cur y v g where "r = Ret None" "ks_get ks (view w) (object_key ops x) = Some cur"
      "f cur = Ret y" "x' = stamp ops v g y"
      "view w' = ks_map ks (\<lambda>m. m(object_key ops x := persisted ops x')) (view w)"
    | (nothing) "r \<noteq> Ret None" "view w' = view w"
  using refetch_update_retry [OF assms(1) assms(2)[unfolded keeps_identity_def, rule_format] assms(3)]
  by (cases "r = Ret None") auto

end

text \<open>The workloads of the small cluster are stored in it.\<close>

lemma demo_stored:
  "meta_key (d_meta demo_deployment) = demo_target"
  "stored sim_view Deployments DeploymentStore (demo_world i) demo_deployment"
  "meta_key (s_meta demo_statefulset) = demo_target"
  "stored sim_view StatefulSets StatefulSetStore (demo_world i) demo_statefulset"
  "meta_key (cj_meta demo_cronjob) = demo_target"
  "stored sim_view CronJobs CronJobStore (demo_world i) demo_cronjob"
proof -
  show key: "meta_key (d_meta demo_deployment) = demo_target" "meta_key (s_meta demo_statefulset) = demo_target"
    "meta_key (cj_meta demo_cronjob) = demo_target"
    by (simp_all add: demo_defs meta_key_def)
  have "resource_version Deployments demo_deployment \<noteq> ''''" "resource_version StatefulSets demo_statefulset \<noteq> ''''"
    "resource_version CronJobs demo_cronjob \<noteq> ''''"
    by (simp_all add: demo_defs resource_version_def)
  moreover have "persisted Deployments demo_deployment = Some demo_deployment"
    "persisted StatefulSets demo_statefulset = Some demo_statefulset"
    "persisted CronJobs demo_cronjob = Some demo_cronjob"
    by (simp_all add: demo_defs persisted_def meta_deleting_def)
  ultimately show "stored sim_view Deployments DeploymentStore (demo_world i) demo_deployment"
    "stored sim_view StatefulSets StatefulSetStore (demo_world i) demo_statefulset"
    "stored sim_view CronJobs CronJobStore (demo_world i) demo_cronjob"
    using key by (simp_all add: stored_def store_defs object_key_def)
qed

lemma demo_clients:
  "kind_contract sim_view Deployments DeploymentStore (rc_Deployments (sim_reconciler k))"
  "available sim_view Deployments DeploymentStore (rc_Deployments (sim_reconciler k))"
  "kind_contract sim_view StatefulSets StatefulSetStore (rc_StatefulSets (sim_reconciler k))"
  "available sim_view StatefulSets StatefulSetStore (rc_StatefulSets (sim_reconciler k))"
  "kind_contract sim_view CronJobs CronJobStore (rc_CronJobs (sim_reconciler k))"
  "available sim_view CronJobs CronJobStore (rc_CronJobs (sim_reconciler k))"
  by (simp_all add: sim_reconciler_def sim_d.sim_kind_contract sim_d.sim_available
      sim_s.sim_kind_contract sim_s.sim_available sim_c.sim_kind_contract sim_c.sim_available)

section \<open>Writes are atomic\<close>

text \<open>
  \<open>DeploymentIdler.Idle\<close> is atomic however stale the reads were and however often the update
  conflicted: when it returns no error it has written the stored Deployment once, with 0 replicas,
  recording the number the stored Deployment had, not the one the idler had read; when it returns an
  error or panics it has written nothing.
\<close>

theorem DeploymentIdler_Idle_atomic:
  assumes "kind_contract view Deployments DeploymentStore kc"
    and "DeploymentIdler_Idle kc (w, d) = (r, (w', d'))"
  shows "if r = Ret None
     then \<exists>cur n. cl_Deployments (view w) (meta_key (d_meta d)) = Some cur \<and> d_Replicas cur = Some n \<and>
            d_Replicas d' = Some 0 \<and> d_rest d' = d_rest cur \<and>
            previous_of Deployments d' = Some (Itoa (sint n)) \<and> expected_of Deployments d' = Some ''0'' \<and>
            reference_of Deployments d' = reference_of Deployments cur \<and>
            view w' = cl_Deployments_update
              (\<lambda>m. m(meta_key (d_meta d) := persisted Deployments d')) (view w)
     else view w' = view w"
proof -
  have "kc_retry kc (refetch_update kc Deployments deployment_idle) (w, d) = (r, (w', d'))"
    using assms(2) by (simp add: DeploymentIdler_Idle_def)
  with assms(1) dep.keeps_identity_sleep show ?thesis
    by (cases rule: dk.retry_outcome)
      (auto simp: deployment_idle_eq DeploymentStore_def object_key_def)
qed

theorem DeploymentIdler_Idle_atomic_witness:
  "\<exists>w' d'. DeploymentIdler_Idle (rc_Deployments demo_reconciler)
       (demo_world (demo_instance ''Deployment'' True), demo_deployment) = (Ret None, (w', d')) \<and>
     previous_of Deployments d' = Some ''3'' \<and> d_Replicas d' = Some 0"
proof -
  let ?kc = "rc_Deployments demo_reconciler" and ?w = "demo_world (demo_instance ''Deployment'' True)"
  note kc = demo_clients(1,2)
  note key = demo_stored(1)
  from dep.Idle_available [OF kc demo_stored(2), of "''kidledev/kidlectl:main''"] obtain w' d' where
    run: "DeploymentIdler_Idle ?kc (?w, demo_deployment) = (Ret None, (w', d'))"
    by (auto simp: demo_workloads NewDeploymentIdler_def)
  have "Itoa (sint (3 :: int32)) = ''3''" by code_simp
  then show ?thesis
    using run DeploymentIdler_Idle_atomic [OF kc(1) run] key by (auto simp: demo_workloads)
qed

text \<open>
  Every way \<open>StatefulSetIdler.Wakeup\<close> can end. A record that is no number is an error that touches
  nothing. Otherwise it wakes up to the number recorded on the StatefulSet the idler had read, cut to
  32 bits, or to 1 when there is no record, and writes the stored StatefulSet once; an error of the
  API server or a panic means that nothing was written.
\<close>

theorem StatefulSetIdler_Wakeup_cases:
  assumes "kind_contract view StatefulSets StatefulSetStore kc"
    and "StatefulSetIdler_Wakeup kc (w, s) = (r, (w', s'))"
  shows "case (case previous_of StatefulSets s of None \<Rightarrow> Inr 1 | Some text \<Rightarrow> Atoi text) of
       Inl e \<Rightarrow> r = Ret (Inl (NumError e)) \<and> w' = w \<and> s' = s
     | Inr v \<Rightarrow>
         (case r of
            Ret (Inr reported) \<Rightarrow> reported = Some (int32_of_int v) \<and>
              (\<exists>cur. cl_StatefulSets (view w) (meta_key (s_meta s)) = Some cur \<and>
                 s_Replicas s' = Some (int32_of_int v) \<and> s_rest s' = s_rest cur \<and>
                 previous_of StatefulSets s' = previous_of StatefulSets cur \<and>
                 expected_of StatefulSets s' = Some (Itoa (sint (int32_of_int v))) \<and>
                 view w' = cl_StatefulSets_update
                   (\<lambda>m. m(meta_key (s_meta s) := persisted StatefulSets s')) (view w))
          | _ \<Rightarrow> view w' = view w)"
proof (cases "statefulset_previous s")
  case (Inl e)
  then show ?thesis
    using assms(2) by (auto simp: StatefulSetIdler_Wakeup_def statefulset_previous_cases
        split: option.splits sum.splits)
next
  case (Inr n)
  then obtain v where v: "(case previous_of StatefulSets s of None \<Rightarrow> Inr 1 | Some text \<Rightarrow> Atoi text) = Inr v"
      "n = int32_of_int v"
    by (cases "previous_of StatefulSets s"; cases "Atoi (the (previous_of StatefulSets s))")
      (auto simp: statefulset_previous_cases int32_of_int_def)
  let ?f = "\<lambda>obj. Ret (statefulset_wake n obj)"
  obtain q u where run: "kc_retry kc (refetch_update kc StatefulSets ?f) (w, s) = (q, u)" by (metis surj_pair)
  obtain w1 s1 where u: "u = (w1, s1)" by (metis surj_pair)
  have r: "(r, (w', s')) = (case q of Ret None \<Rightarrow> Ret (Inr (Some n)) | Ret (Some e) \<Rightarrow> Ret (Inl e)
      | Panic p \<Rightarrow> Panic p, (w1, s1))"
    using assms(2) Inr run u
    by (auto simp: StatefulSetIdler_Wakeup_def go_check_def go_bind_def split: outcome.splits option.splits)
  have keeps: "keeps_identity StatefulSets ?f"
    by (auto simp: keeps_identity_def statefulset_wake_def object_key_def resource_version_def Let_def)
  from assms(1) keeps run [unfolded u] show ?thesis
  proof (cases rule: sk.retry_outcome)
    case (wrote cur y ver g)
    then show ?thesis
      using r v by (auto simp: statefulset_wake_def StatefulSetStore_def object_key_def Let_def)
  next
    case nothing
    then show ?thesis
      using r v by (auto split: outcome.splits option.splits)
  qed
qed


theorem StatefulSetIdler_Wakeup_cases_witness:
  "\<exists>w' s'. StatefulSetIdler_Wakeup (rc_StatefulSets demo_reconciler)
       (demo_world (demo_instance ''StatefulSet'' False), demo_statefulset)
         = (Ret (Inr (Some 1)), (w', s')) \<and> s_Replicas s' = Some 1"
proof -
  let ?kc = "rc_StatefulSets demo_reconciler" and ?w = "demo_world (demo_instance ''StatefulSet'' False)"
  obtain n w' s' where run: "StatefulSetIdler_Wakeup ?kc (?w, demo_statefulset) = (Ret (Inr n), (w', s'))"
    using sts.Wakeup_available [OF demo_clients(3,4) demo_stored(4),
        of "''kidledev/kidlectl:main''" "demo_instance ''StatefulSet'' False"]
    by (auto simp: demo_workloads NewStatefulSetIdler_def)
  have "previous_of StatefulSets demo_statefulset = None" by (simp add: demo_defs annotation_def)
  then show ?thesis
    using run StatefulSetIdler_Wakeup_cases [OF demo_clients(3) run] demo_stored(3)
    by (auto simp: int32_of_int_def)
qed

text \<open>
  Every way \<open>CronJobIdler.Idle\<close> can end. A CronJob whose \<open>suspend\<close> is nil makes it panic; one the
  idler has read as suspended is left alone; otherwise it writes the stored CronJob once, suspended,
  with all but its metadata as it was, or returns an error and has written nothing.
\<close>

theorem CronJobIdler_Idle_cases:
  assumes "kind_contract view CronJobs CronJobStore kc"
    and "CronJobIdler_Idle kc (w, cj) = (r, (w', cj'))"
  shows "case cj_Suspend cj of
       None \<Rightarrow> r = Panic NilDereference \<and> w' = w
     | Some True \<Rightarrow> r = Ret None \<and> w' = w \<and> cj' = cj
     | Some False \<Rightarrow>
         if r = Ret None
         then \<exists>cur. cl_CronJobs (view w) (meta_key (cj_meta cj)) = Some cur \<and>
                cj_Suspend cj' = Some True \<and> cronjob_rest cj' = cronjob_rest cur \<and>
                expected_of CronJobs cj' = Some ''true'' \<and>
                reference_of CronJobs cj' = reference_of CronJobs cur \<and>
                view w' = cl_CronJobs_update (\<lambda>m. m(meta_key (cj_meta cj) := persisted CronJobs cj')) (view w)
         else view w' = view w"
proof -
  consider "cj_Suspend cj = None" | "cj_Suspend cj = Some True" | (awake) "cj_Suspend cj = Some False" by fastforce
  then show ?thesis
  proof cases
    case awake
    let ?f = "\<lambda>obj. Ret (cronjob_suspend obj)"
    have keeps: "keeps_identity CronJobs ?f"
      by (auto simp: keeps_identity_def cronjob_suspend_def object_key_def resource_version_def)
    have "kc_retry kc (refetch_update kc CronJobs ?f) (w, cj) = (r, (w', cj'))"
      using assms(2) awake by (simp add: CronJobIdler_Idle_def go_bind_def)
    with assms(1) keeps show ?thesis
    proof (cases rule: ck.retry_outcome)
      case (wrote cur y v g)
      have "cronjob_rest cj' = cronjob_rest cur" using wrote cron.sleep_level [of cur] by auto
      moreover have "cj_Suspend cj' = Some True" "expected_of CronJobs cj' = Some ''true''"
        "reference_of CronJobs cj' = reference_of CronJobs cur"
        using wrote by (auto simp: cronjob_suspend_def)
      ultimately show ?thesis
        using awake wrote by (simp add: CronJobStore_def object_key_def)
    next
      case nothing
      then show ?thesis using awake by simp
    qed
  qed (use assms(2) in \<open>auto simp: CronJobIdler_Idle_def go_bind_def\<close>)
qed

theorem CronJobIdler_Idle_cases_witness:
  "\<exists>w' cj'. CronJobIdler_Idle (rc_CronJobs demo_reconciler)
       (demo_world (demo_instance ''CronJob'' True), demo_cronjob) = (Ret None, (w', cj')) \<and>
     cj_Suspend cj' = Some True"
proof -
  let ?kc = "rc_CronJobs demo_reconciler" and ?w = "demo_world (demo_instance ''CronJob'' True)"
  have s: "cj_Suspend demo_cronjob = Some False" by (simp add: demo_defs)
  then have "cronjob_valid demo_cronjob" "0 < cronjob_level demo_cronjob"
    by (simp_all add: cronjob_valid_def cronjob_level_def)
  then obtain w' cj' where run: "CronJobIdler_Idle ?kc (?w, demo_cronjob) = (Ret None, (w', cj'))"
    using cron.Idle_available [OF demo_clients(5,6) demo_stored(6), of "''kidledev/kidlectl:main''"] by (auto simp: NewCronJobIdler_def)
  then show ?thesis
    using CronJobIdler_Idle_cases [OF demo_clients(5) run] s by auto
qed

text \<open>
  C26: \<open>SetReference\<close>, for any kind of object. An object the idler has read with a reference is left
  alone, so the first instance that refers to a workload keeps it; one read without gets the
  reference in one write. The closure does not look again: when the read was stale, the write
  replaces a reference that somebody else has set in between.
\<close>

theorem ObjectIdler_SetReference_cases:
  assumes "stored_kind ops ks" "kind_contract view ops ks kc"
    and "ObjectIdler_SetReference (NewObjectIdler kc ops) name (w, x) = (r, (w', x'))"
  shows "if reference_of ops x \<noteq> None then r = Ret None \<and> w' = w \<and> x' = x
     else if r = Ret None
     then \<exists>cur. ks_get ks (view w) (object_key ops x) = Some cur \<and>
            reference_of ops x' = Some name \<and> previous_of ops x' = previous_of ops cur \<and>
            expected_of ops x' = expected_of ops cur \<and>
            view w' = ks_map ks (\<lambda>m. m(object_key ops x := persisted ops x')) (view w)
     else view w' = view w"
proof -
  have ok: "object_kind ops" by (rule stored_kind.axioms(1) [OF assms(1)])
  show ?thesis
    using stored_kind.ObjectIdler_SetReference_run [OF assms]
    by (auto simp: wrote_def untouched_def object_kind.annotation_stamp [OF ok]
        object_kind.with_reference_simps [OF ok])
qed


theorem ObjectIdler_SetReference_cases_witness:
  "\<exists>w' d'. ObjectIdler_SetReference (NewObjectIdler (rc_Deployments demo_reconciler) Deployments) ''web-idler''
       (demo_world (demo_instance ''Deployment'' True), demo_deployment) = (Ret None, (w', d')) \<and>
     reference_of Deployments d' = Some ''web-idler'' \<and>
     ObjectIdler_SetReference (NewObjectIdler (rc_Deployments demo_reconciler) Deployments) ''other'' (w', d') = (Ret None, (w', d'))"
proof -
  let ?kc = "rc_Deployments demo_reconciler" and ?w = "demo_world (demo_instance ''Deployment'' True)"
  note cases = ObjectIdler_SetReference_cases [OF dk.stored_kind_axioms demo_clients(1)]
  obtain w' d' where run: "ObjectIdler_SetReference (NewObjectIdler ?kc Deployments) ''web-idler'' (?w, demo_deployment) = (Ret None, (w', d'))"
    using dep.SetReference_available [OF demo_clients(1,2) demo_stored(2), of "''kidledev/kidlectl:main''"]
    by (metis dep.New_SetReference)
  have "reference_of Deployments demo_deployment = None" by (simp add: demo_defs annotation_def)
  with cases [OF run] have ref: "reference_of Deployments d' = Some ''web-idler''" by auto
  obtain r w2 d2 where again: "ObjectIdler_SetReference (NewObjectIdler ?kc Deployments) ''other'' (w', d') = (r, (w2, d2))"
    by (metis surj_pair)
  from cases [OF this] run ref again show ?thesis by auto
qed

section \<open>The recorded number\<close>

text \<open>
  C27: What \<open>Idle\<close> records, \<open>Wakeup\<close> reads back, for every one of the 2^32 values a number of
  replicas can have: waking up what \<open>Idle\<close> has written restores the number and all but the
  annotations.
\<close>

theorem recorded_replicas_roundtrip:
  assumes "deployment_idle d = Ret e"
  shows "\<exists>n. d_Replicas d = Some n \<and> d_Replicas e = Some 0 \<and> deployment_previous e = Inr n \<and>
     d_Replicas (deployment_wake n e) = Some n \<and> d_rest (deployment_wake n e) = d_rest d \<and>
     unannotated (d_meta (deployment_wake n e)) = unannotated (d_meta d)"
proof -
  obtain n where "d_Replicas d = Some n"
      "e = d\<lparr> d_meta := AddAnnotation (AddAnnotation (d_meta d) MetadataPreviousReplicas (Itoa (sint n)))
                         MetadataExpectedState ''0'', d_Replicas := Some 0 \<rparr>"
    using assms by (auto simp: deployment_idle_eq)
  then show ?thesis by (simp add: deployment_previous_cases deployment_wake_def Let_def)
qed

theorem recorded_replicas_roundtrip_witness:
  "\<exists>e. deployment_idle demo_deployment = Ret e \<and> deployment_previous e = Inr 3"
proof -
  obtain e where "deployment_idle demo_deployment = Ret e"
    using dep.sleep_defined [of demo_deployment] by (auto simp: demo_workloads)
  then show ?thesis
    using recorded_replicas_roundtrip [of demo_deployment e] by (auto simp: demo_workloads)
qed

text \<open>
  C28: A record written by somebody else is read as a 64-bit number and cut to 32 bits without a check:
  the number a Deployment or a StatefulSet wakes up to is the recorded one exactly when that fits, and
  differs from it by a multiple of 2^32 otherwise.
\<close>

theorem recorded_replicas_cut:
  assumes "previous_of Deployments d = Some text" "Atoi text = Inr v"
  shows "\<exists>n. deployment_previous d = Inr n \<and> (sint n = v \<longleftrightarrow> - (2 ^ 31) \<le> v \<and> v < 2 ^ 31) \<and>
     (2 ^ 32 dvd sint n - v)"
proof -
  have "deployment_previous d = Inr (int32_of_int v)" using assms by (simp add: deployment_previous_cases)
  moreover have "sint (int32_of_int v) = signed_take_bit 31 v"
    by (simp add: int32_of_int_def sint_sbintrunc')
  moreover have "signed_take_bit 31 v = v \<longleftrightarrow> - (2 ^ 31) \<le> v \<and> v < 2 ^ 31"
    by (rule signed_take_bit_int_eq_self_iff)
  moreover have "take_bit 32 (signed_take_bit 31 v) = take_bit 32 v"
    by (rule take_bit_signed_take_bit) simp
  then have "2 ^ 32 dvd signed_take_bit 31 v - v"
    by (simp add: take_bit_eq_mod mod_eq_dvd_iff)
  ultimately show ?thesis by auto
qed


theorem recorded_replicas_cut_witness:
  "\<exists>n. deployment_previous
     (demo_deployment\<lparr> d_meta := AddAnnotation (d_meta demo_deployment) MetadataPreviousReplicas ''4294967296'' \<rparr>)
       = Inr n \<and> sint n \<noteq> 4294967296"
proof -
  let ?d = "demo_deployment\<lparr> d_meta := AddAnnotation (d_meta demo_deployment) MetadataPreviousReplicas ''4294967296'' \<rparr>"
  have lit: "Atoi ''4294967296'' = Inr 4294967296" by (simp add: Atoi_def ParseUint_def digit_value_def)
  have "previous_of Deployments ?d = Some ''4294967296''" by simp
  from recorded_replicas_cut [OF this lit] obtain n where
    "deployment_previous ?d = Inr n" "sint n = 4294967296 \<longleftrightarrow> - (2 ^ 31) \<le> (4294967296 :: int) \<and> (4294967296 :: int) < 2 ^ 31"
    by blast
  then show ?thesis by simp
qed

end
