(* ===== verification/Watch_Properties.thy ===== *)
theory Watch_Properties
  imports Watch Idler_Properties
begin

text \<open>
  The properties of the watches: which updates of a workload lead to a run of \<open>Reconcile\<close>, and for
  which instance.
\<close>

section \<open>kidle's own writes\<close>


lemma annotation_steps_state [simp]:
  "d_Replicas (with_reference Deployments i d) = d_Replicas d"
  "d_Replicas (without_annotations Deployments d) = d_Replicas d"
  "s_Replicas (with_reference StatefulSets i s) = s_Replicas s"
  "s_Replicas (without_annotations StatefulSets s) = s_Replicas s"
  "cj_Suspend (with_reference CronJobs i cj) = cj_Suspend cj"
  "cj_Suspend (without_annotations CronJobs cj) = cj_Suspend cj"
  by (simp_all add: with_reference_def without_annotations_def Let_def)

text \<open>A dispatcher that does nothing but what the contract asks for.\<close>

definition demo_requests :: "controller_config \<Rightarrow> update_event \<Rightarrow> namespaced_name set" where
  "demo_requests cfg e =
     (if cc_EventFilter cfg e = Ret True
      then \<Union>(kind, f) \<in> set (cc_Watches cfg).
             (case ue_ObjectNew e of None \<Rightarrow> {}
              | Some obj \<Rightarrow> if object_kind_name obj = Some kind then set (f obj) else {})
      else {})"

lemma demo_dispatch: "dispatch_contract demo_requests"
  by (fastforce simp: dispatch_contract_def demo_requests_def)




section \<open>Everybody else's writes\<close>

text \<open>
  C30: A change of the number of replicas by anybody else does lead to a run, for the instance the
  Deployment refers to: an update of a referring Deployment in which kidle expects \<open>n\<close> replicas and
  which has \<open>m\<close> passes the filter exactly when \<open>m\<close> is not \<open>n\<close>.
\<close>

theorem drift_requests_run:
  assumes "dispatch_contract requests"
    and "reference_of Deployments old \<noteq> None" "reference_of Deployments new = Some name"
    and "expected_of Deployments new = Some (Itoa (sint n))" "d_Replicas new = Some m"
  shows "KidleChangedPredicate_Update (updated (Obj_Deployment old) (Obj_Deployment new)) = Ret (m \<noteq> n) \<and>
     (if m = n then requests controller_setup (updated (Obj_Deployment old) (Obj_Deployment new)) = {}
      else \<lparr> nn_Namespace = om_Namespace (d_meta new), nn_Name = name \<rparr>
             \<in> requests controller_setup (updated (Obj_Deployment old) (Obj_Deployment new)))"
proof -
  let ?e = "updated (Obj_Deployment old) (Obj_Deployment new)"
  have filter: "KidleChangedPredicate_Update ?e = Ret (m \<noteq> n)"
    using assms(2,4,5)
    by (simp add: KidleChangedPredicate_Update_workload drifted_def deployment_text_def deployment_level_def)
  have "\<lparr> nn_Namespace = om_Namespace (d_meta new), nn_Name = name \<rparr>
      \<in> set (objectForIdlingResourceMapper (Obj_Deployment new))"
    using assms(3) by (simp add: objectForIdlingResourceMapper_iff object_metadata_def)
  moreover have "set (objectForIdlingResourceMapper (Obj_Deployment new)) \<subseteq> requests controller_setup ?e" if "m \<noteq> n"
    by (rule dispatch_contractD(2) [OF assms(1), of _ _ "''Deployment''"])
      (use filter that in \<open>simp_all add: controller_setup_def updated_def object_kind_name_def\<close>)
  moreover have "requests controller_setup ?e = {}" if "m = n"
    using assms(1) filter that by (simp add: dispatch_contract_def controller_setup_def)
  ultimately show ?thesis using filter by auto
qed

text \<open>A Deployment kidle has idled, and somebody has scaled up.\<close>

definition demo_idled :: "int32 \<Rightarrow> deployment" where
  "demo_idled m = demo_deployment\<lparr> d_Replicas := Some m,
     d_meta := AddAnnotation (AddAnnotation (d_meta demo_deployment) MetadataIdlingResourceReference ''web-idler'')
                 MetadataExpectedState ''0'' \<rparr>"

theorem drift_requests_run_witness:
  "demo_req \<in> demo_requests controller_setup
     (updated (Obj_Deployment (demo_idled 0)) (Obj_Deployment (demo_idled 4)))"
  using drift_requests_run [OF demo_dispatch, of "demo_idled 0" "demo_idled 4" "''web-idler''" 0 4]
  by (simp add: demo_idled_def) (simp add: demo_defs AddAnnotation_def Let_def)

text \<open>
  C31: The cron jobs kidle owns are watched with the same filter, and no update of a cron job that
  carries no reference passes it. So an edit of one of them is not undone until something else
  triggers a run.
\<close>

theorem owned_cron_job_updates_ignored:
  assumes "dispatch_contract requests" "reference_of CronJobs old = None"
  shows "KidleChangedPredicate_Update (updated (Obj_CronJob old) (Obj_CronJob new)) = Ret False \<and>
     requests controller_setup (updated (Obj_CronJob old) (Obj_CronJob new)) = {}"
proof -
  have "KidleChangedPredicate_Update (updated (Obj_CronJob old) (Obj_CronJob new)) = Ret False"
    using assms(2)
    by (simp add: KidleChangedPredicate_Update_def updated_def as_Deployment_def as_StatefulSet_def
        as_CronJob_def predicate_body_def)
  with assms(1) show ?thesis by (simp add: dispatch_contract_def controller_setup_def)
qed

theorem owned_cron_job_updates_ignored_witness:
  "demo_requests controller_setup (updated (Obj_CronJob (NewCronJob demo_req))
     (Obj_CronJob ((NewCronJob demo_req)\<lparr> cj_Schedule := ''0 0 1 1 *'' \<rparr>))) = {}"
  using owned_cron_job_updates_ignored [OF demo_dispatch, of "NewCronJob demo_req"]
  by (simp add: NewCronJob_def ObjectMeta_def annotation_def)

end
