(* ===== verification/Cron_Properties.thy ===== *)
theory Cron_Properties
  imports Idler_Properties
begin

text \<open>
  The properties of the cron strategies on their own: the cron job object, the test whether it needs
  an update, its removal, and the role.
\<close>

section \<open>The cron job\<close>

lemma getSaName_defined: obtains sa where "getSaName name = Ret sa"
  using ToDNSName_kidle [of "''sa''" name] by (auto simp: getSaName_def kidle_suffixes_def)

text \<open>
  C32: What \<open>setCronjobValues\<close> makes of a cron job that has a container for kidlectl: it runs kidlectl
  with the command and the instance at the times of the strategy, is not suspended, and every other
  container and field is as it was. Applying it again changes nothing.
\<close>

theorem setCronjobValues_correct:
  assumes "has_kidlectl cj"
  shows "\<exists>cj'. setCronjobValues R cj v = Ret cj' \<and> cron_job_for R v cj' \<and> cj_meta cj' = cj_meta cj \<and>
     cj_RestartPolicy cj' = cj_RestartPolicy cj \<and> cj_rest cj' = cj_rest cj \<and>
     map c_Name (cj_Containers cj') = map c_Name (cj_Containers cj) \<and>
     (\<forall>name. name \<noteq> CronJobContainerName \<longrightarrow>
        ContainersToMap (cj_Containers cj') name = ContainersToMap (cj_Containers cj) name) \<and>
     setCronjobValues R cj' v = Ret cj'"
proof -
  obtain sa where sa: "getSaName (cv_instanceName v) = Ret sa" by (rule getSaName_defined)
  obtain c0 where c0: "ContainersToMap (cj_Containers cj) CronJobContainerName = Some c0"
    using assms ContainersToMap_None unfolding has_kidlectl_def by fastforce
  then have n: "c_Name c0 = CronJobContainerName" using ContainersToMap_Some by blast
  define c where "c = c0\<lparr> c_Image := rc_KidlectlImage R, c_Args := [cv_command v, cv_instanceName v] \<rparr>"
  define cj' where "cj' = cj\<lparr> cj_ServiceAccountName := sa, cj_Suspend := Some False,
      cj_Schedule := cs_Schedule (cv_strategy v), cj_Containers := SetContainer (cj_Containers cj) c \<rparr>"
  have set: "setCronjobValues R cj v = Ret cj'"
    using sa c0 by (simp add: setCronjobValues_def container_at_def c_def cj'_def)
  have map: "ContainersToMap (SetContainer (cj_Containers cj) c) = (ContainersToMap (cj_Containers cj))(c_Name c \<mapsto> c)"
    using assms n by (intro ContainersToMap_SetContainer) (simp_all add: has_kidlectl_def c_def)
  have twice: "SetContainer (SetContainer cs c) c = SetContainer cs c" for cs by (induction cs) auto
  have "c\<lparr> c_Image := rc_KidlectlImage R, c_Args := [cv_command v, cv_instanceName v] \<rparr> = c"
    by (simp add: c_def)
  then have "setCronjobValues R cj' v = Ret cj'"
    using sa map n by (simp add: setCronjobValues_def container_at_def cj'_def twice) (simp add: c_def)
  with set setCronjobValues_for(1) [OF set assms] map n show ?thesis
    by (auto simp: cj'_def c_def)
qed

theorem setCronjobValues_correct_witness:
  "\<exists>cj. setCronjobValues demo_reconciler (NewCronJob demo_req)
       (cron_values (demo_instance ''Deployment'' True) CommandIdle \<lparr> cs_Schedule = ''0 20 * * *'' \<rparr>) = Ret cj \<and>
     cj_Suspend cj = Some False"
  using setCronjobValues_correct [OF has_kidlectl_NewCronJob, of demo_reconciler demo_req
      "cron_values (demo_instance ''Deployment'' True) CommandIdle \<lparr> cs_Schedule = ''0 20 * * *'' \<rparr>"]
  by (auto simp: cron_job_for_def)

text \<open>
  \<open>cronJobNeedChanges\<close> never answers no: for any cron job at all, also for one
  \<open>setCronjobValues\<close> has just made, it asks for an update.
\<close>

theorem cron_jobs_always_need_changes: "cronJobNeedChanges R cj v = Ret True"
proof -
  obtain sa where "getSaName (cv_instanceName v) = Ret sa" by (rule getSaName_defined)
  then show ?thesis by (rule cronJobNeedChanges_always)
qed

section \<open>Removal\<close>

text \<open>
  C33: When the instance has no strategy for a command, \<open>ReconcileCronStrategies\<close> gives up without
  an error as soon as the cron job cannot be read, whatever the error of the read: it returns success,
  leaves the cluster as it is, and the cron job goes on running.
\<close>

theorem unread_cron_job_stays:
  assumes "reconciler_contract view R" "command \<in> {CommandIdle, CommandWakeup}"
    and "kc_get (rc_CronJobs R) (owned_key i command) w = (Inl err, w')"
  shows "reconcileCron R i command None w = (Ret None, w') \<and> view w' = view w"
proof -
  have "get_contract view CronJobs CronJobStore (rc_CronJobs R)"
    using assms(1) by (simp add: reconciler_contract_def kind_contract_def)
  then have "view w' = view w" using assms(3) by (rule ck.get_contractD(1))
  moreover have "command \<in> set kidle_suffixes" using assms(2) by (auto simp: kidle_suffixes_def CommandIdle_def CommandWakeup_def)
  moreover have "r_get (rc_CronJobs R) (owned_key i command) w = (Ret (Inl err), w')"
    using assms(3) by (simp add: r_call_Ret)
  ultimately show ?thesis by (simp add: reconcileCron_def owned_name Let_def)
qed

text \<open>
  A server that answers every read of a cron job with an internal error, and is otherwise the one of
  the small cluster.
\<close>

definition broken_reconciler :: "sim_world reconciler" where
  "broken_reconciler = demo_reconciler
     \<lparr> rc_CronJobs := (rc_CronJobs demo_reconciler)
         \<lparr> kc_get := (\<lambda>key w. (Inl (ApiError (OtherReason ''etcdserver: request timed out'')), w)) \<rparr> \<rparr>"

lemma kind_contract_unreadable:
  "kind_contract view ops ks kc \<Longrightarrow> kind_contract view ops ks (kc\<lparr> kc_get := (\<lambda>key w. (Inl e, w)) \<rparr>)"
  by (simp add: kind_contract_def get_contract_def update_contract_def create_contract_def
      delete_contract_def retry_contract_def)

lemma broken_contract: "reconciler_contract sim_view broken_reconciler"
proof -
  have "reconciler_contract sim_view demo_reconciler" by (rule sim_reconciler_contract)
  then show ?thesis
    unfolding reconciler_contract_def controllerutil_contract_def broken_reconciler_def
    by (simp add: kind_contract_unreadable)
qed

theorem unread_cron_job_stays_witness:
  "reconcileCron broken_reconciler (demo_instance ''CronJob'' True) CommandIdle None
     (demo_world (demo_instance ''CronJob'' True))
   = (Ret None, demo_world (demo_instance ''CronJob'' True))"
  using unread_cron_job_stays [OF broken_contract, of CommandIdle "demo_instance ''CronJob'' True"
      "demo_world (demo_instance ''CronJob'' True)" "ApiError (OtherReason ''etcdserver: request timed out'')"]
  by (simp add: broken_reconciler_def)

section \<open>The role\<close>

text \<open>
  The role kidle keeps for an instance is overwritten at index 0: when somebody has emptied its
  rules, the run panics there, with nothing written by this step.
\<close>

theorem empty_role_panics:
  assumes "reconciler_contract view R" "available view Roles RoleStore (rc_Roles R)"
    and "cl_Roles (view w) (owned_key i ''role'') = Some r" "r_Rules r = []"
  shows "\<exists>w'. createRBAC_role R i w = (Panic IndexOutOfRange, w') \<and> view w' = view w"
proof -
  obtain g w' where get: "kc_get (rc_Roles R) (owned_key i ''role'') w = (g, w')" by fastforce
  have "get_contract view Roles RoleStore (rc_Roles R)"
    using assms(1) by (simp add: reconciler_contract_def kind_contract_def)
  then have "view w' = view w" using get by (rule rk.get_contractD(1))
  moreover have "g = Inr r"
    using available_getD [OF assms(2) get] assms(3) by (simp add: RoleStore_def)
  ultimately show ?thesis
    using get assms(4) by (simp add: createRBAC_role_def owned_name r_get_def set_first_rule_def go_bind_def)
qed


text \<open>The small cluster with such a role.\<close>

definition demo_empty_role :: "IdlingResource \<Rightarrow> role" where
  "demo_empty_role i = \<lparr> r_meta = (ObjectMeta (nn_Namespace (owned_key i ''role'')) (nn_Name (owned_key i ''role'')))
     \<lparr> om_ResourceVersion := ''1'' \<rparr>, r_Rules = [] \<rparr>"

definition demo_role_world :: "IdlingResource \<Rightarrow> sim_world" where
  "demo_role_world i = (demo_world i)\<lparr> sw_cluster :=
     (sw_cluster (demo_world i))\<lparr> cl_Roles := [owned_key i ''role'' \<mapsto> demo_empty_role i] \<rparr> \<rparr>"

lemma demo_role_view:
  "cl_Roles (sim_view (demo_role_world i)) (owned_key i ''role'') = Some (demo_empty_role i)"
  by (simp add: demo_role_world_def sim_view_def visible_cluster_def visible_def genuine_def demo_empty_role_def
      object_key_def resource_version_def Roles_def meta_key_def ObjectMeta_def meta_deleting_def)

theorem empty_role_panics_witness:
  "\<exists>w'. createRBAC_role demo_reconciler (demo_instance ''Deployment'' True)
     (demo_role_world (demo_instance ''Deployment'' True)) = (Panic IndexOutOfRange, w')"
  using empty_role_panics [OF sim_reconciler_contract _ demo_role_view, of "''kidledev/kidlectl:main''"
      "demo_instance ''Deployment'' True"]
  by (auto simp: sim_reconciler_def sim_r.sim_available demo_empty_role_def)

end
