(* ===== verification/Kidlectl.thy ===== *)
theory Kidlectl
  imports Kinds "HOL-Library.List_Lexorder" "HOL-Library.Char_ord"
begin

text \<open>
  The command line tool: \<open>src/cmd/kidlectl/pkg/kidleclient.go\<close>, the commands of
  \<open>src/cmd/kidlectl/cmd\<close> and the dispatch of \<open>src/cmd/kidlectl/main.go\<close>. Parsing the flags,
  the client libraries, discovery, \<open>schema.ParseGroupVersion\<close> and
  \<open>meta.UnsafeGuessKindToResource\<close> are libraries: they are arguments, or fields of the client.
\<close>

section \<open>The client\<close>

record group_version_kind =
  gvk_Group :: string
  gvk_Version :: string
  gvk_Kind :: string

record api_resource =
  ar_Name :: string
  ar_Kind :: string
  ar_ShortNames :: "string list"

record api_resource_list =
  al_GroupVersion :: string
  al_APIResources :: "api_resource list"

text \<open>
  \<open>kd_singular gv kind\<close> is the resource of the singular that \<open>UnsafeGuessKindToResource\<close> answers,
  \<open>kd_range\<close> the order in which Go ranges over the keys of a map, which the language leaves open.
\<close>

record 'w kidle_client =
  kd_IdlingResources :: "('w, IdlingResource) kind_client"
  kd_ServerGroupsAndResources :: "'w \<Rightarrow> (go_error + api_resource_list list) \<times> 'w"
  kd_ParseGroupVersion :: "string \<Rightarrow> go_error + group_version"
  kd_singular :: "group_version \<Rightarrow> string \<Rightarrow> string"
  kd_range :: "(string \<rightharpoonup> bool) \<Rightarrow> string list"
  kd_Namespace :: string

text \<open>
  The libraries \<open>NewKidleClient\<close> calls: the kubeconfig loader with the namespace as an override, the
  registration of kidle's types with the client scheme, and the constructors of the two clients.
\<close>

record ('w, 'rest) client_library =
  lib_Namespace :: "string \<Rightarrow> 'w \<Rightarrow> (go_error + string) \<times> 'w"
  lib_ClientConfig :: "string \<Rightarrow> 'w \<Rightarrow> (go_error + 'rest) \<times> 'w"
  lib_AddToScheme :: "'w \<Rightarrow> go_error option \<times> 'w"
  lib_New :: "'rest \<Rightarrow> 'w \<Rightarrow> (go_error + ('w, IdlingResource) kind_client) \<times> 'w"
  lib_NewDiscovery :: "'rest \<Rightarrow> 'w \<Rightarrow> (go_error + ('w \<Rightarrow> (go_error + api_resource_list list) \<times> 'w)) \<times> 'w"
  lib_ParseGroupVersion :: "string \<Rightarrow> go_error + group_version"
  lib_singular :: "group_version \<Rightarrow> string \<Rightarrow> string"
  lib_range :: "(string \<rightharpoonup> bool) \<Rightarrow> string list"

definition NewKidleClient ::
  "('w, 'rest) client_library \<Rightarrow> string \<Rightarrow> ('w, go_error + 'w kidle_client) go"
  where
  "NewKidleClient lib namespace =
     go_try (go_call (lib_Namespace lib namespace))
       (\<lambda>err. go_return (Inl (Errorf ''error when getting current namespace'' err)))
       (\<lambda>currentNamespace.
     go_try (go_call (lib_ClientConfig lib namespace))
       (\<lambda>err. go_return (Inl (Errorf ''error when creating restConfig'' err)))
       (\<lambda>restConfig.
     go_check (go_call (lib_AddToScheme lib))
       (\<lambda>err. go_return (Inl (Errorf ''error when adding kidle to Scheme'' err)))
       (go_try (go_call (lib_New lib restConfig))
         (\<lambda>err. go_return (Inl (Errorf ''error when creating client'' err)))
         (\<lambda>c.
       go_try (go_call (lib_NewDiscovery lib restConfig))
         (\<lambda>err. go_return (Inl (Errorf ''error when creating discoveryclient'' err)))
         (\<lambda>discoveryClient.
           go_return (Inr \<lparr> kd_IdlingResources = c,
                            kd_ServerGroupsAndResources = discoveryClient,
                            kd_ParseGroupVersion = lib_ParseGroupVersion lib,
                            kd_singular = lib_singular lib,
                            kd_range = lib_range lib,
                            kd_Namespace = currentNamespace \<rparr>))))))"

section \<open>Allowed resources\<close>

definition AllowedGVK :: "group_version_kind list" where
  "AllowedGVK =
     [\<lparr> gvk_Group = ''apps'', gvk_Version = ''v1'', gvk_Kind = ''deployments'' \<rparr>,
      \<lparr> gvk_Group = ''apps'', gvk_Version = ''v1'', gvk_Kind = ''statefulsets'' \<rparr>,
      \<lparr> gvk_Group = ''batch'', gvk_Version = ''v1beta1'', gvk_Kind = ''cronjobs'' \<rparr>,
      \<lparr> gvk_Group = ''batch'', gvk_Version = ''v1'', gvk_Kind = ''cronjobs'' \<rparr>]"

text \<open>The two nested loops of \<open>getAllowedPrefixes\<close>.\<close>

fun allowed_resources ::
  "'w kidle_client \<Rightarrow> group_version_kind \<Rightarrow> group_version \<Rightarrow> api_resource list \<Rightarrow> string list \<Rightarrow> string list"
  where
  "allowed_resources k gvk gv [] allowedPrefixes = allowedPrefixes"
| "allowed_resources k gvk gv (resource # resources) allowedPrefixes =
     (if gvk_Kind gvk = ar_Name resource
      then allowed_resources k gvk gv resources
             (((allowedPrefixes @ ar_ShortNames resource) @ [kd_singular k gv (ar_Kind resource)])
                @ [ar_Name resource])
      else allowed_resources k gvk gv resources allowedPrefixes)"

fun allowed_kinds ::
  "'w kidle_client \<Rightarrow> group_version_kind list \<Rightarrow> api_resource_list \<Rightarrow> string list \<Rightarrow> go_error + string list"
  where
  "allowed_kinds k [] resourceList allowedPrefixes = Inr allowedPrefixes"
| "allowed_kinds k (gvk # gvks) resourceList allowedPrefixes =
     (case kd_ParseGroupVersion k (al_GroupVersion resourceList) of
        Inl err \<Rightarrow> Inl err
      | Inr gv \<Rightarrow>
          if gvk_Group gvk = gv_Group gv \<and> gvk_Version gvk = gv_Version gv
          then allowed_kinds k gvks resourceList
                 (allowed_resources k gvk gv (al_APIResources resourceList) allowedPrefixes)
          else allowed_kinds k gvks resourceList allowedPrefixes)"

definition getAllowedPrefixes ::
  "'w kidle_client \<Rightarrow> api_resource_list \<Rightarrow> string list \<Rightarrow> go_error + string list"
  where
  "getAllowedPrefixes k resourceList allowedPrefixes = allowed_kinds k AllowedGVK resourceList allowedPrefixes"

text \<open>The loop over the resource lists, and the loop that fills the map.\<close>

fun allowed_prefixes ::
  "'w kidle_client \<Rightarrow> api_resource_list list \<Rightarrow> string list \<Rightarrow> go_error + string list"
  where
  "allowed_prefixes k [] allowedPrefixes = Inr allowedPrefixes"
| "allowed_prefixes k (resourceList # rest) allowedPrefixes =
     (case getAllowedPrefixes k resourceList allowedPrefixes of
        Inl err \<Rightarrow> Inl (Errorf ''unable to get allowed prefixes'' err)
      | Inr prefixes \<Rightarrow> allowed_prefixes k rest prefixes)"

fun prefixes_map :: "string list \<Rightarrow> (string \<rightharpoonup> bool) \<Rightarrow> (string \<rightharpoonup> bool)" where
  "prefixes_map [] m = m"
| "prefixes_map (a # as) m = prefixes_map as (m(a \<mapsto> True))"

definition GetAllowedResources :: "'w kidle_client \<Rightarrow> ('w, go_error + (string \<rightharpoonup> bool)) go" where
  "GetAllowedResources k =
     go_try (go_call (kd_ServerGroupsAndResources k))
       (\<lambda>err. go_return (Inl err))
       (\<lambda>resourcesListSlice. case allowed_prefixes k resourcesListSlice [] of
          Inl err \<Rightarrow> go_return (Inl err)
        | Inr allowedPrefixes \<Rightarrow> go_return (Inr (prefixes_map allowedPrefixes Map.empty)))"

fun joined :: "string list \<Rightarrow> string \<Rightarrow> string" where
  "joined [] s = s"
| "joined (v # vs) s = joined vs (s @ '', '' @ v)"

definition printAllowedResources :: "'w kidle_client \<Rightarrow> (string \<rightharpoonup> bool) \<Rightarrow> string outcome" where
  "printAllowedResources k resources =
     (case sort (kd_range k resources) of
        [] \<Rightarrow> Panic IndexOutOfRange
      | s # keys \<Rightarrow> Ret (joined keys s))"

section \<open>The operations\<close>

definition ApplyDesiredIdleState ::
  "'w kidle_client \<Rightarrow> bool \<Rightarrow> namespaced_name \<Rightarrow> ('w, go_error + bool) go"
  where
  "ApplyDesiredIdleState k idle req =
     go_try (go_call (kc_get (kd_IdlingResources k) req))
       (\<lambda>err. go_return (Inl (Errorf ''unable to get idlingresource'' err)))
       (\<lambda>ir.
         if spec_Idle (ir_Spec ir) = idle then go_return (Inr False)
         else
           (let ir = ir\<lparr> ir_Spec := (ir_Spec ir)\<lparr> spec_Idle := idle \<rparr> \<rparr>
            in go_try (go_call (kc_update (kd_IdlingResources k) ir))
                 (\<lambda>err. go_return (Inl (Errorf ''unable to update idlingresource'' err)))
                 (\<lambda>_. go_return (Inr True))))"

definition created_resource :: "bool \<Rightarrow> string list \<Rightarrow> namespaced_name \<Rightarrow> IdlingResource" where
  "created_resource idle values req =
     \<lparr> ir_TypeMeta = \<lparr> tm_Kind = ''IdlingResource'', tm_APIVersion = '''' \<rparr>,
       ir_meta = ObjectMeta (nn_Namespace req) (nn_Name req),
       ir_Spec =
         \<lparr> spec_IdlingResourceRef =
             \<lparr> ref_Kind = values ! 0, ref_Name = values ! 1, ref_APIVersion = ''apps/v1'' \<rparr>,
           spec_Idle = idle, spec_IdlingStrategy = None, spec_WakeupStrategy = None \<rparr>,
       ir_Status = IdlingResourceStatus \<rparr>"

definition CreateIdlingResource ::
  "'w kidle_client \<Rightarrow> bool \<Rightarrow> string \<Rightarrow> namespaced_name \<Rightarrow> ('w, go_error + bool) go"
  where
  "CreateIdlingResource k idle ref req =
     (let values = Split ref (CHR ''/'') in
      if length values < 2
      then go_return (Inl (OtherError (''invalid idlingresource ref; expected <kind>/<name> got '' @ ref)))
      else
        go_try (GetAllowedResources k)
          (\<lambda>err. go_return (Inl (Errorf ''unable to get allowed resources'' err)))
          (\<lambda>resources.
            (let kind = values ! 0;
                 ok = (case resources kind of None \<Rightarrow> False | Some b \<Rightarrow> b)
             in if \<not> ok
                then go_bind (go_pure (printAllowedResources k resources)) (\<lambda>expected.
                       go_return (Inl (OtherError (''invalid resource kind; got `'' @ kind @
                         ''` expected one of: '' @ expected))))
                else go_try (go_call (kc_create (kd_IdlingResources k) (created_resource idle values req)))
                       (\<lambda>err. go_return (Inl (Errorf ''unable to create idling resource'' err)))
                       (\<lambda>_. go_return (Inr True)))))"

section \<open>The commands\<close>

text \<open>
  A command ends with an exit status: 0 when its function returns. \<open>new\<close> is \<open>NewKidleClient\<close>,
  which loads the configuration of the machine the tool runs on.
\<close>

record command_options =
  opt_Name :: string
  opt_Namespace :: string

record create_options = command_options +
  opt_Idle :: bool
  opt_Ref :: string

type_synonym 'w new_client = "string \<Rightarrow> ('w, go_error + 'w kidle_client) go"

definition command_key :: "'w kidle_client \<Rightarrow> string \<Rightarrow> namespaced_name" where
  "command_key kidle name = \<lparr> nn_Namespace = kd_Namespace kidle, nn_Name = name \<rparr>"

definition IdleCommand :: "'w new_client \<Rightarrow> command_options \<Rightarrow> ('w, nat) go" where
  "IdleCommand new opts =
     go_try (new (opt_Namespace opts)) (\<lambda>err. go_return 2) (\<lambda>kidle.
     go_try (ApplyDesiredIdleState kidle True (command_key kidle (opt_Name opts)))
       (\<lambda>err. go_return 3) (\<lambda>done. go_return 0))"

definition WakeupCommand :: "'w new_client \<Rightarrow> command_options \<Rightarrow> ('w, nat) go" where
  "WakeupCommand new opts =
     go_try (new (opt_Namespace opts)) (\<lambda>err. go_return 2) (\<lambda>kidle.
     go_try (ApplyDesiredIdleState kidle False (command_key kidle (opt_Name opts)))
       (\<lambda>err. go_return 3) (\<lambda>done. go_return 0))"

definition CreateCommand :: "'w new_client \<Rightarrow> create_options \<Rightarrow> ('w, nat) go" where
  "CreateCommand new opts =
     go_try (new (opt_Namespace opts)) (\<lambda>err. go_return 2) (\<lambda>kidle.
     go_try (CreateIdlingResource kidle (opt_Idle opts) (opt_Ref opts) (command_key kidle (opt_Name opts)))
       (\<lambda>err. go_return 3) (\<lambda>done. go_return 0))"

text \<open>
  What the flag parser answers: an error, or the name of the active command with the options. The
  option \<open>--kubeconfig\<close> is parsed and read by nothing.
\<close>

datatype flag_error = ErrCommandRequired | ErrRequired | OtherFlagsError | NoFlagsError

record cli_options =
  cli_Kubeconfig :: string
  cli_IdleCmd :: command_options
  cli_WakeUpCmd :: command_options
  cli_CreateCmd :: create_options

text \<open>The variables the linker sets (\<open>src/pkg/version/version.go\<close>), and the version command.\<close>

record VersionInfos =
  vi_Revision :: string
  vi_BuildUser :: string
  vi_BuildDate :: string
  vi_Branch :: string
  vi_Version :: string

text \<open>The values a build without linker flags has.\<close>

definition version_defaults :: VersionInfos where
  "version_defaults =
     \<lparr> vi_Revision = '''', vi_BuildUser = '''', vi_BuildDate = '''', vi_Branch = '''',
       vi_Version = ''development'' \<rparr>"

definition GetVersionInfos :: "VersionInfos \<Rightarrow> VersionInfos" where
  "GetVersionInfos vars =
     \<lparr> vi_Revision = vi_Revision vars, vi_BuildUser = vi_BuildUser vars,
       vi_BuildDate = vi_BuildDate vars, vi_Branch = vi_Branch vars, vi_Version = vi_Version vars \<rparr>"

text \<open>The standard output, \<open>json.Marshal\<close> and the help text of the parser are the library's.\<close>

record 'w cli_library =
  cli_New :: "'w new_client"
  cli_Println :: "string \<Rightarrow> 'w \<Rightarrow> 'w"
  cli_WriteHelp :: "'w \<Rightarrow> 'w"
  cli_Marshal :: "VersionInfos \<Rightarrow> go_error + string"

definition VersionCommand :: "'w cli_library \<Rightarrow> VersionInfos \<Rightarrow> ('w, unit) go" where
  "VersionCommand lib vars =
     (case cli_Marshal lib (GetVersionInfos vars) of
        Inl err \<Rightarrow> go_call (\<lambda>w. ((), cli_Println lib (vi_Version vars) w))
      | Inr b \<Rightarrow> go_call (\<lambda>w. ((), cli_Println lib b w)))"

definition kidlectl_main ::
  "'w cli_library \<Rightarrow> VersionInfos \<Rightarrow> flag_error + string \<times> cli_options \<Rightarrow> ('w, nat) go"
  where
  "kidlectl_main lib vars parsed =
     (case parsed of
        Inl err \<Rightarrow>
          if err = ErrCommandRequired \<or> err = ErrRequired
          then go_bind (go_call (\<lambda>w. ((), cli_WriteHelp lib w))) (\<lambda>_. go_return 1)
          else go_return 1
      | Inr (active, opts) \<Rightarrow>
          if active = ''idle'' then IdleCommand (cli_New lib) (cli_IdleCmd opts)
          else if active = ''wakeup'' then WakeupCommand (cli_New lib) (cli_WakeUpCmd opts)
          else if active = ''create'' then CreateCommand (cli_New lib) (cli_CreateCmd opts)
          else if active = ''version'' then go_bind (VersionCommand lib vars) (\<lambda>_. go_return 0)
          else go_return 0)"

section \<open>What it allows\<close>

text \<open>The names of a resource, and the resources that are allowed.\<close>

definition resource_names :: "'w kidle_client \<Rightarrow> group_version \<Rightarrow> api_resource \<Rightarrow> string set" where
  "resource_names k gv r = set (ar_ShortNames r) \<union> {kd_singular k gv (ar_Kind r), ar_Name r}"

definition allowed :: "group_version \<Rightarrow> api_resource \<Rightarrow> bool" where
  "allowed gv r \<longleftrightarrow> (\<exists>gvk \<in> set AllowedGVK.
     gvk_Group gvk = gv_Group gv \<and> gvk_Version gvk = gv_Version gv \<and> ar_Name r = gvk_Kind gvk)"

lemma allowed_iff:
  "allowed gv r \<longleftrightarrow>
     (gv_Group gv = ''apps'' \<and> gv_Version gv = ''v1'' \<and> ar_Name r \<in> {''deployments'', ''statefulsets''}) \<or>
     (gv_Group gv = ''batch'' \<and> gv_Version gv \<in> {''v1beta1'', ''v1''} \<and> ar_Name r = ''cronjobs'')"
  by (auto simp: allowed_def AllowedGVK_def)

lemma allowed_resources_set:
  "set (allowed_resources k gvk gv rs ps) =
     set ps \<union> (\<Union>r \<in> {r \<in> set rs. ar_Name r = gvk_Kind gvk}. resource_names k gv r)"
  by (induction k gvk gv rs ps rule: allowed_resources.induct) (auto simp: resource_names_def)

lemma allowed_kinds_run:
  assumes "kd_ParseGroupVersion k (al_GroupVersion l) = Inr gv"
  shows "\<exists>qs. allowed_kinds k gvks l ps = Inr qs \<and> set qs = set ps \<union>
     (\<Union>gvk \<in> {gvk \<in> set gvks. gvk_Group gvk = gv_Group gv \<and> gvk_Version gvk = gv_Version gv}.
        \<Union>r \<in> {r \<in> set (al_APIResources l). ar_Name r = gvk_Kind gvk}. resource_names k gv r)"
proof (induction gvks arbitrary: ps)
  case (Cons g gs)
  show ?case
  proof (cases "gvk_Group g = gv_Group gv \<and> gvk_Version g = gv_Version gv")
    case True
    obtain qs where "allowed_kinds k gs l (allowed_resources k g gv (al_APIResources l) ps) = Inr qs"
      "set qs = set (allowed_resources k g gv (al_APIResources l) ps) \<union>
        (\<Union>gvk \<in> {gvk \<in> set gs. gvk_Group gvk = gv_Group gv \<and> gvk_Version gvk = gv_Version gv}.
           \<Union>r \<in> {r \<in> set (al_APIResources l). ar_Name r = gvk_Kind gvk}. resource_names k gv r)"
      using Cons.IH by blast
    with True assms show ?thesis unfolding allowed_resources_set by auto
  next
    case False
    have "{gvk \<in> set (g # gs). gvk_Group gvk = gv_Group gv \<and> gvk_Version gvk = gv_Version gv}
        = {gvk \<in> set gs. gvk_Group gvk = gv_Group gv \<and> gvk_Version gvk = gv_Version gv}"
      using False by auto
    with False assms Cons.IH [of ps] show ?thesis by auto
  qed
qed simp

lemma getAllowedPrefixes_run:
  assumes "kd_ParseGroupVersion k (al_GroupVersion l) = Inr gv"
  obtains qs where "getAllowedPrefixes k l ps = Inr qs"
    "set qs = set ps \<union> (\<Union>r \<in> {r \<in> set (al_APIResources l). allowed gv r}. resource_names k gv r)"
proof -
  obtain qs where qs: "allowed_kinds k AllowedGVK l ps = Inr qs" "set qs = set ps \<union>
     (\<Union>gvk \<in> {gvk \<in> set AllowedGVK. gvk_Group gvk = gv_Group gv \<and> gvk_Version gvk = gv_Version gv}.
        \<Union>r \<in> {r \<in> set (al_APIResources l). ar_Name r = gvk_Kind gvk}. resource_names k gv r)"
    using allowed_kinds_run [where k = k, OF assms] by blast
  then have "set qs = set ps \<union> (\<Union>r \<in> {r \<in> set (al_APIResources l). allowed gv r}. resource_names k gv r)"
    unfolding allowed_def by blast
  with qs(1) that show ?thesis by (simp add: getAllowedPrefixes_def)
qed

text \<open>A group version that cannot be parsed fails, as soon as a list carries it.\<close>

lemma getAllowedPrefixes_error:
  "kd_ParseGroupVersion k (al_GroupVersion l) = Inl err \<Longrightarrow> getAllowedPrefixes k l ps = Inl err"
  by (simp add: getAllowedPrefixes_def AllowedGVK_def)

text \<open>The names the discovered lists allow.\<close>

definition allowed_names :: "'w kidle_client \<Rightarrow> api_resource_list list \<Rightarrow> string set" where
  "allowed_names k ls = {s. \<exists>l \<in> set ls. \<exists>gv. kd_ParseGroupVersion k (al_GroupVersion l) = Inr gv \<and>
     (\<exists>r \<in> set (al_APIResources l). allowed gv r \<and> s \<in> resource_names k gv r)}"

lemma allowed_prefixes_run:
  "allowed_prefixes k ls ps = Inr qs \<Longrightarrow> set qs = set ps \<union> allowed_names k ls"
proof (induction k ls ps rule: allowed_prefixes.induct)
  case (2 k l ls ps)
  obtain gv where gv: "kd_ParseGroupVersion k (al_GroupVersion l) = Inr gv"
    using 2(2) getAllowedPrefixes_error [of k l] by (cases "kd_ParseGroupVersion k (al_GroupVersion l)") auto
  obtain rs where rs: "getAllowedPrefixes k l ps = Inr rs"
    "set rs = set ps \<union> (\<Union>r \<in> {r \<in> set (al_APIResources l). allowed gv r}. resource_names k gv r)"
    using getAllowedPrefixes_run [where k = k, OF gv] by blast
  with 2 have "set qs = set rs \<union> allowed_names k ls" by simp
  moreover have "allowed_names k (l # ls) = allowed_names k ls \<union>
      (\<Union>r \<in> {r \<in> set (al_APIResources l). allowed gv r}. resource_names k gv r)"
    using gv by (auto simp: allowed_names_def)
  ultimately show ?case using rs(2) by auto
qed (simp add: allowed_names_def)

lemma prefixes_map_eq: "prefixes_map ps m s = (if s \<in> set ps then Some True else m s)"
  by (induction ps arbitrary: m) auto

lemma GetAllowedResources_run:
  assumes "GetAllowedResources k w = (Ret (Inr m), w')"
  obtains ls where "kd_ServerGroupsAndResources k w = (Inr ls, w')"
    "\<And>s. m s = (if s \<in> allowed_names k ls then Some True else None)"
proof -
  obtain ls qs where ls: "kd_ServerGroupsAndResources k w = (Inr ls, w')" "allowed_prefixes k ls [] = Inr qs"
    "m = prefixes_map qs Map.empty"
    using assms
    by (auto simp: GetAllowedResources_def go_eq_Ret go_sum_eq_Ret go_call_Ret simp del: go_call_apply)
  from allowed_prefixes_run [OF ls(2)] that [OF ls(1)] show ?thesis
    by (simp add: ls(3) prefixes_map_eq)
qed

text \<open>The order of the map does not show in the message.\<close>

definition range_contract :: "'w kidle_client \<Rightarrow> bool" where
  "range_contract k \<longleftrightarrow> (\<forall>m. finite (dom m) \<longrightarrow> distinct (kd_range k m) \<and> set (kd_range k m) = dom m)"

lemma printAllowedResources_sorted:
  assumes "range_contract k" "finite (dom m)"
  shows "printAllowedResources k m =
     (case sorted_list_of_set (dom m) of [] \<Rightarrow> Panic IndexOutOfRange | s # keys \<Rightarrow> Ret (joined keys s))"
proof -
  have "sort (kd_range k m) = sorted_list_of_set (dom m)"
    using assms by (metis range_contract_def sorted_list_of_set_sort_remdups distinct_remdups_id)
  then show ?thesis by (simp add: printAllowedResources_def)
qed

section \<open>What the operations do\<close>

definition with_idle :: "bool \<Rightarrow> IdlingResource \<Rightarrow> IdlingResource" where
  "with_idle idle ir = ir\<lparr> ir_Spec := (ir_Spec ir)\<lparr> spec_Idle := idle \<rparr> \<rparr>"

lemma ApplyDesiredIdleState_run:
  assumes kc: "kind_contract view IdlingResources IdlingResourceStore (kd_IdlingResources k)"
    and co: "coherent view IdlingResourceStore (kd_IdlingResources k)"
    and run: "ApplyDesiredIdleState k idle req w = (r, w')"
  shows "case r of
      Ret (Inr changed) \<Rightarrow> (\<exists>ir. cl_IdlingResources (view w) req = Some ir \<and>
        changed = (spec_Idle (ir_Spec ir) \<noteq> idle) \<and>
        (if changed
         then \<exists>v g. view w' = cl_IdlingResources_update (\<lambda>m. m(req \<mapsto> stamp IdlingResources v g (with_idle idle ir))) (view w)
         else view w' = view w))
    | Ret (Inl e) \<Rightarrow> view w' = view w
    | Panic _ \<Rightarrow> False"
proof -
  have gc: "get_contract view IdlingResources IdlingResourceStore (kd_IdlingResources k)"
    and uc: "update_contract view IdlingResources IdlingResourceStore (kd_IdlingResources k)"
    using kc by (simp_all add: kind_contract_def)
  obtain g w1 where get: "kc_get (kd_IdlingResources k) req w = (g, w1)" by fastforce
  note gd = ik.get_contractD [OF gc get] and cd = ik.coherentD [OF co get]
  show ?thesis
  proof (cases g)
    case (Inl e)
    with run get gd(1) show ?thesis by (auto simp: ApplyDesiredIdleState_def go_try_def go_bind_def)
  next
    case (Inr ir)
    have st: "cl_IdlingResources (view w) req = Some ir" using cd(1) [OF Inr] by (simp add: IdlingResourceStore_def)
    show ?thesis
    proof (cases "spec_Idle (ir_Spec ir) = idle")
      case True
      with run get Inr gd(1) st show ?thesis
        by (auto simp: ApplyDesiredIdleState_def go_try_def go_bind_def)
    next
      case False
      obtain u w2 where upd: "kc_update (kd_IdlingResources k) (with_idle idle ir) w1 = (u, w2)" by fastforce
      note ud = ik.update_contractD [OF uc upd]
      have key: "meta_key (ir_meta (with_idle idle ir)) = req" using gd(2) [OF Inr] by (simp add: with_idle_def object_key_def IdlingResources_def)
      show ?thesis
      proof (cases u)
        case (Inl e)
        with run get Inr False upd gd(1) ud(1) show ?thesis
          by (auto simp: ApplyDesiredIdleState_def go_try_def go_bind_def with_idle_def Let_def)
      next
        case (Inr y)
        obtain v h where y: "y = stamp IdlingResources v h (with_idle idle ir)" using ud(2) [OF Inr] by blast
        have "persisted IdlingResources y = Some y"
          using gd(4) [OF \<open>g = Inr ir\<close>] unfolding y
          by (auto simp: persisted_def stamp_def with_idle_def meta_deleting_def IdlingResources_def
              split: if_splits option.splits)
        then have "view w' = cl_IdlingResources_update (\<lambda>m. m(req \<mapsto> stamp IdlingResources v h (with_idle idle ir))) (view w)
            \<and> r = Ret (Inr True)"
          using run get \<open>g = Inr ir\<close> False upd Inr ud(4) [OF Inr] key gd(1) y
          by (auto simp: ApplyDesiredIdleState_def go_try_def go_bind_def with_idle_def Let_def
              IdlingResourceStore_def object_key_def IdlingResources_def)
        then show ?thesis using st False by auto
      qed
    qed
  qed
qed

lemma CreateIdlingResource_run:
  assumes kc: "kind_contract view IdlingResources IdlingResourceStore (kd_IdlingResources k)"
    and run: "CreateIdlingResource k idle ref req w = (Ret (Inr done'), w')"
  obtains kind name rest ls w1 v g where "done'" "Split ref (CHR ''/'') = kind # name # rest"
    "kd_ServerGroupsAndResources k w = (Inr ls, w1)" "kind \<in> allowed_names k ls"
    "cl_IdlingResources (view w1) req = None"
    "view w' = cl_IdlingResources_update
       (\<lambda>m. m(req \<mapsto> stamp IdlingResources v g (created_resource idle [kind, name] req))) (view w1)"
proof -
  have cc: "create_contract view IdlingResources IdlingResourceStore (kd_IdlingResources k)"
    using kc by (simp add: kind_contract_def)
  obtain kind name rest where split: "Split ref (CHR ''/'') = kind # name # rest"
    using run by (cases "Split ref (CHR ''/'')"; cases "tl (Split ref (CHR ''/''))")
      (auto simp: CreateIdlingResource_def)
  have obj: "created_resource idle (kind # name # rest) req = created_resource idle [kind, name] req"
    by (simp add: created_resource_def)
  from run split obtain m w1 y where
      res: "GetAllowedResources k w = (Ret (Inr m), w1)" and ok: "m kind = Some True"
    and d: "done'"
    and create: "kc_create (kd_IdlingResources k) (created_resource idle [kind, name] req) w1 = (Inr y, w')"
    by (auto simp: CreateIdlingResource_def Let_def go_eq_Ret go_call_Ret obj
        simp del: go_call_apply split: option.splits if_splits)
  obtain ls where ls: "kd_ServerGroupsAndResources k w = (Inr ls, w1)" "kind \<in> allowed_names k ls"
    using GetAllowedResources_run [OF res] ok by (metis option.distinct(1))
  have key: "meta_key (ir_meta (created_resource idle [kind, name] req)) = req"
    by (simp add: created_resource_def ObjectMeta_def meta_key_def)
  note cd = ik.create_contractD [OF cc create]
  obtain v g where y: "y = stamp IdlingResources v g (created_resource idle [kind, name] req)"
    using cd(1) by blast
  show ?thesis
    using that [OF d split ls] cd(2,3) key unfolding y
    by (simp add: IdlingResourceStore_def object_key_def IdlingResources_def)
qed

end
