(* ===== verification/Kidlectl_Properties.thy ===== *)
theory Kidlectl_Properties
  imports Kidlectl Idler_Properties
begin

text \<open>
  The properties of the command line tool: what it allows to be idled, what its two writes do, and
  its exit codes.
\<close>

section \<open>A client of the small cluster\<close>

text \<open>Discovery as a cluster answers it, with the names in lower case that \<open>UnsafeGuessKindToResource\<close> gives.\<close>

definition demo_lists :: "api_resource_list list" where
  "demo_lists =
     [\<lparr> al_GroupVersion = ''v1'',
        al_APIResources = [\<lparr> ar_Name = ''pods'', ar_Kind = ''Pod'', ar_ShortNames = [''po''] \<rparr>] \<rparr>,
      \<lparr> al_GroupVersion = ''apps/v1'',
        al_APIResources =
          [\<lparr> ar_Name = ''deployments'', ar_Kind = ''Deployment'', ar_ShortNames = [''deploy''] \<rparr>] \<rparr>]"

definition demo_client :: "sim_world kidle_client" where
  "demo_client =
     \<lparr> kd_IdlingResources = sim_client IdlingResources IdlingResourceStore,
       kd_ServerGroupsAndResources = (\<lambda>w. (Inr demo_lists, w)),
       kd_ParseGroupVersion = (\<lambda>s. case Split s (CHR ''/'') of
          [v] \<Rightarrow> Inr \<lparr> gv_Group = '''', gv_Version = v \<rparr>
        | [g, v] \<Rightarrow> Inr \<lparr> gv_Group = g, gv_Version = v \<rparr>
        | _ \<Rightarrow> Inl (OtherError s)),
       kd_singular = (\<lambda>gv kind. ToLower kind),
       kd_range = (\<lambda>m. sorted_list_of_set (dom m)),
       kd_Namespace = ''default'' \<rparr>"

lemma demo_client_contracts:
  "kind_contract sim_view IdlingResources IdlingResourceStore (kd_IdlingResources demo_client)"
  "coherent sim_view IdlingResourceStore (kd_IdlingResources demo_client)"
  "range_contract demo_client"
  using available_coherent [OF sim_i.sim_available]
  by (simp_all add: demo_client_def sim_i.sim_kind_contract range_contract_def)

lemma ToLower_Deployment: "ToLower ''Deployment'' = ''deployment''"
  by code_simp

lemma demo_allowed:
  "GetAllowedResources demo_client w = (Ret (Inr (prefixes_map [''deploy'', ''deployment'', ''deployments''] Map.empty)), w)"
  by (simp add: GetAllowedResources_def go_try_def go_bind_def demo_client_def demo_lists_def
      getAllowedPrefixes_def AllowedGVK_def ToLower_Deployment del: ToLower_Cons)

section \<open>What it allows\<close>

text \<open>
  C34: \<open>GetAllowedResources\<close> allows exactly the names, the singulars and the short names of the
  Deployments and StatefulSets of \<open>apps/v1\<close> and of the CronJobs of \<open>batch/v1beta1\<close> and
  \<open>batch/v1\<close> among the resources the server discovers.
\<close>

theorem GetAllowedResources_exact:
  assumes "GetAllowedResources k w = (Ret (Inr m), w')"
  shows "\<exists>ls. kd_ServerGroupsAndResources k w = (Inr ls, w') \<and>
     (\<forall>s. m s = Some True \<longleftrightarrow>
        (\<exists>l \<in> set ls. \<exists>gv. kd_ParseGroupVersion k (al_GroupVersion l) = Inr gv \<and>
           (\<exists>r \<in> set (al_APIResources l).
              (gv_Group gv = ''apps'' \<and> gv_Version gv = ''v1'' \<and> ar_Name r \<in> {''deployments'', ''statefulsets''} \<or>
               gv_Group gv = ''batch'' \<and> gv_Version gv \<in> {''v1beta1'', ''v1''} \<and> ar_Name r = ''cronjobs'') \<and>
              (s = ar_Name r \<or> s = kd_singular k gv (ar_Kind r) \<or> s \<in> set (ar_ShortNames r)))))"
proof -
  obtain ls where ls: "kd_ServerGroupsAndResources k w = (Inr ls, w')"
      "\<And>s. m s = (if s \<in> allowed_names k ls then Some True else None)"
    by (rule GetAllowedResources_run [OF assms]) blast
  have "m s = Some True \<longleftrightarrow> s \<in> allowed_names k ls" for s by (simp add: ls(2))
  with ls(1) show ?thesis
    by (intro exI [of _ ls]) (auto simp: allowed_names_def allowed_iff resource_names_def)
qed

theorem GetAllowedResources_exact_witness:
  "\<exists>m. GetAllowedResources demo_client (demo_world (demo_instance ''Deployment'' True))
       = (Ret (Inr m), demo_world (demo_instance ''Deployment'' True)) \<and> m ''deploy'' = Some True"
  using GetAllowedResources_exact [OF demo_allowed [of "demo_world (demo_instance ''Deployment'' True)"]] demo_allowed [of "demo_world (demo_instance ''Deployment'' True)"]
  by (simp add: demo_client_def demo_lists_def)


text \<open>
  The list of allowed resources in the error message does not depend on the order in which Go
  ranges over the map: it is the sorted list of the keys, joined with commas. When the map is empty
  there is no message: reading the first key panics.
\<close>

theorem printAllowedResources_order:
  assumes "range_contract k" "range_contract k'" "finite (dom m)"
  shows "printAllowedResources k m = printAllowedResources k' m \<and>
     printAllowedResources k m =
       (case sorted_list_of_set (dom m) of
          [] \<Rightarrow> Panic IndexOutOfRange
        | s # keys \<Rightarrow> Ret (s @ concat (map (\<lambda>v. '', '' @ v) keys)))"
proof -
  have comma: "(\<lambda>v. '', '' @ v) = (\<lambda>v. CHR '','' # CHR '' '' # v)" by (rule ext) simp
  have "joined keys s = s @ concat (map (\<lambda>v. CHR '','' # CHR '' '' # v) keys)" for keys s
    by (induction keys s rule: joined.induct) auto
  then show ?thesis
    using printAllowedResources_sorted [OF assms(1,3)] printAllowedResources_sorted [OF assms(2,3)]
    by (simp add: comma split: list.split)
qed

theorem printAllowedResources_order_witness:
  "printAllowedResources demo_client [''sts'' \<mapsto> True, ''deploy'' \<mapsto> True] = Ret ''deploy, sts''"
proof -
  have "dom [''sts'' \<mapsto> True, ''deploy'' \<mapsto> True] = {''deploy'', ''sts''}" by auto
  moreover have "sorted_list_of_set {''deploy'', ''sts''} = [''deploy'', ''sts'']" by code_simp
  ultimately show ?thesis
    using printAllowedResources_order [OF demo_client_contracts(3,3), of "[''sts'' \<mapsto> True, ''deploy'' \<mapsto> True]"]
    by simp
qed

section \<open>What it writes\<close>

text \<open>
  \<open>ApplyDesiredIdleState\<close> sets the flag of the stored instance and nothing else. It answers
  whether there was something to change; an instance that has the flag already is not written, and
  an error means that nothing was written.
\<close>

theorem ApplyDesiredIdleState_correct:
  assumes "kind_contract view IdlingResources IdlingResourceStore (kd_IdlingResources k)"
    and "coherent view IdlingResourceStore (kd_IdlingResources k)"
    and "ApplyDesiredIdleState k idle req w = (r, w')"
  shows "case r of
      Ret (Inr changed) \<Rightarrow>
        (\<exists>ir. cl_IdlingResources (view w) req = Some ir \<and> changed = (spec_Idle (ir_Spec ir) \<noteq> idle) \<and>
          (if changed
           then \<exists>v g. view w' = cl_IdlingResources_update
                  (\<lambda>m. m(req \<mapsto> stamp IdlingResources v g (with_idle idle ir))) (view w)
           else view w' = view w))
    | Ret (Inl e) \<Rightarrow> view w' = view w
    | Panic _ \<Rightarrow> False"
  by (rule ApplyDesiredIdleState_run [OF assms])

text \<open>A call on the small cluster succeeds.\<close>

lemma demo_apply:
  obtains w' where "ApplyDesiredIdleState demo_client (\<not> idle) demo_req (demo_world (demo_instance kind idle))
     = (Ret (Inr True), w')"
proof -
  let ?i = "demo_instance kind idle" and ?w = "demo_world (demo_instance kind idle)"
  let ?kc = "sim_client IdlingResources IdlingResourceStore"
  note av = sim_i.sim_available and kc = sim_i.sim_kind_contract
  have st: "ks_get IdlingResourceStore (sim_view ?w) demo_req = Some ?i"
    by (simp add: IdlingResourceStore_def)
  obtain w1 where get: "kc_get ?kc demo_req ?w = (Inr ?i, w1)"
    using available_getD [OF av, of demo_req ?w] st by (metis option.simps(5) surj_pair)
  have v1: "sim_view w1 = sim_view ?w"
    using ik.get_contractD(1) [OF _ get] kc unfolding kind_contract_def by blast
  have key: "object_key IdlingResources (with_idle (\<not> idle) ?i) = demo_req"
    "resource_version IdlingResources (with_idle (\<not> idle) ?i) = resource_version IdlingResources ?i"
    by (simp_all add: with_idle_def object_key_def resource_version_def demo_defs IdlingResources_def meta_key_def)
  obtain y w2 where "kc_update ?kc (with_idle (\<not> idle) ?i) w1 = (Inr y, w2)"
    using available_update [OF av, of w1 "with_idle (\<not> idle) ?i" ?i] st v1 key by auto
  then show ?thesis
    using that get
    by (simp add: ApplyDesiredIdleState_def demo_client_def go_try_def go_bind_def demo_objects with_idle_def Let_def)
qed

theorem ApplyDesiredIdleState_correct_witness:
  "\<exists>w' j. ApplyDesiredIdleState demo_client True demo_req (demo_world (demo_instance ''Deployment'' False))
      = (Ret (Inr True), w') \<and>
     cl_IdlingResources (sim_view w') demo_req = Some j \<and> spec_Idle (ir_Spec j)"
proof -
  obtain w' where run: "ApplyDesiredIdleState demo_client True demo_req (demo_world (demo_instance ''Deployment'' False))
      = (Ret (Inr True), w')"
    using demo_apply [of False "''Deployment''"] by auto
  show ?thesis
    using run ApplyDesiredIdleState_correct [OF demo_client_contracts(1,2) run]
    by (auto simp: stamp_def with_idle_def IdlingResources_def)
qed


text \<open>
  C36: \<open>CreateIdlingResource\<close>, whatever it ends with. Success means that the reference was
  \<open>kind/name\<close>, the kind one of the allowed names, that there was no instance of that name, and that
  there is one now, with the flag and the reference as given. An error means that nothing was
  written, and so does a panic, which is the one of \<open>printAllowedResources\<close>.
\<close>

theorem CreateIdlingResource_correct:
  assumes kc: "kind_contract view IdlingResources IdlingResourceStore (kd_IdlingResources k)"
    and discovery: "\<And>w. view (snd (kd_ServerGroupsAndResources k w)) = view w"
    and run: "CreateIdlingResource k idle ref req w = (r, w')"
  shows "case r of
      Ret (Inr created) \<Rightarrow> created \<and> cl_IdlingResources (view w) req = None \<and>
        (\<exists>kind name rest ls v g. Split ref (CHR ''/'') = kind # name # rest \<and>
           fst (kd_ServerGroupsAndResources k w) = Inr ls \<and> kind \<in> allowed_names k ls \<and>
           view w' = cl_IdlingResources_update
             (\<lambda>m. m(req \<mapsto> stamp IdlingResources v g (created_resource idle [kind, name] req))) (view w))
    | Ret (Inl e) \<Rightarrow> view w' = view w
    | Panic p \<Rightarrow> view w' = view w \<and> p = IndexOutOfRange"
proof -
  have listed: "view w1 = view w" if "GetAllowedResources k w = (q, w1)" for q w1
    using that discovery [of w]
    by (cases "kd_ServerGroupsAndResources k w")
      (auto simp: GetAllowedResources_def go_try_def go_bind_def split: sum.splits)
  have created: "view w2 = view w1" if "kc_create (kd_IdlingResources k) x w1 = (Inl e, w2)" for x e w1 w2
    using kc that unfolding kind_contract_def create_contract_def by blast
  consider (ok) created where "r = Ret (Inr created)" | (err) e where "r = Ret (Inl e)" | (panic) p where "r = Panic p"
    by (cases r; cases "case r of Ret x \<Rightarrow> x | _ \<Rightarrow> undefined") auto
  then show ?thesis
  proof cases
    case ok
    with CreateIdlingResource_run [OF kc run [unfolded ok]] obtain kind name rest ls w1 v g where
      "created" "Split ref (CHR ''/'') = kind # name # rest" "kd_ServerGroupsAndResources k w = (Inr ls, w1)"
      "kind \<in> allowed_names k ls" "cl_IdlingResources (view w1) req = None"
      "view w' = cl_IdlingResources_update
         (\<lambda>m. m(req \<mapsto> stamp IdlingResources v g (created_resource idle [kind, name] req))) (view w1)"
      by metis
    with ok discovery [of w] show ?thesis by auto
  next
    case err
    then show ?thesis
      using run listed created
      by (auto simp: CreateIdlingResource_def Let_def go_try_def go_bind_def
          split: if_splits prod.splits outcome.splits sum.splits option.splits) (metis prod.collapse)+
  next
    case panic
    then show ?thesis
      using run listed
      by (auto simp: CreateIdlingResource_def Let_def go_try_def go_bind_def printAllowedResources_def
          GetAllowedResources_def
          split: if_splits prod.splits outcome.splits sum.splits option.splits list.splits)
  qed
qed


text \<open>A call on the small cluster succeeds.\<close>

definition demo_new_req :: namespaced_name where
  "demo_new_req = \<lparr> nn_Namespace = ''default'', nn_Name = ''new'' \<rparr>"

lemma demo_discovery: "sim_view (snd (kd_ServerGroupsAndResources demo_client w)) = sim_view w"
  by (simp add: demo_client_def)

lemma demo_ref: "Split ''deployment/web'' (CHR ''/'') = [''deployment'', ''web'']"
  by simp

lemma demo_create:
  obtains w' where "CreateIdlingResource demo_client True ''deployment/web'' demo_new_req
     (demo_world (demo_instance kind idle)) = (Ret (Inr True), w')"
proof -
  let ?w = "demo_world (demo_instance kind idle)"
  let ?x = "created_resource True [''deployment'', ''web''] demo_new_req"
  have key: "object_key IdlingResources ?x = demo_new_req"
    by (simp add: created_resource_def object_key_def meta_key_def ObjectMeta_def IdlingResources_def)
  have "cl_IdlingResources (sim_view ?w) demo_new_req = None" by (simp add: demo_new_req_def demo_req_def)
  moreover have "\<not> meta_deleting (getMeta IdlingResources ?x)"
    by (simp add: created_resource_def meta_deleting_def ObjectMeta_def IdlingResources_def)
  ultimately obtain y w' where "kc_create (kd_IdlingResources demo_client) ?x ?w = (Inr y, w')"
    using available_create [OF sim_i.sim_available, of ?w ?x] key
    by (auto simp: demo_client_def IdlingResourceStore_def)
  then have "CreateIdlingResource demo_client True ''deployment/web'' demo_new_req ?w = (Ret (Inr True), w')"
    using demo_allowed [of ?w] by (simp add: CreateIdlingResource_def demo_ref go_try_def go_bind_def Let_def)
  then show ?thesis by (rule that)
qed

theorem CreateIdlingResource_correct_witness:
  "\<exists>w' j. CreateIdlingResource demo_client True ''deployment/web'' demo_new_req
        (demo_world (demo_instance ''Deployment'' False)) = (Ret (Inr True), w') \<and>
     cl_IdlingResources (sim_view w') demo_new_req = Some j \<and> ref_Kind (ref_of j) = ''deployment''"
proof -
  let ?w = "demo_world (demo_instance ''Deployment'' False)"
  obtain w' where run: "CreateIdlingResource demo_client True ''deployment/web'' demo_new_req ?w = (Ret (Inr True), w')"
    by (rule demo_create)
  from CreateIdlingResource_correct [OF demo_client_contracts(1) demo_discovery run] have
    "\<exists>v g. sim_view w' = cl_IdlingResources_update (\<lambda>m. m(demo_new_req \<mapsto>
       stamp IdlingResources v g (created_resource True [''deployment'', ''web''] demo_new_req))) (sim_view ?w)"
    by (auto simp: demo_ref)
  then show ?thesis
    using run by (auto simp: stamp_def IdlingResources_def created_resource_def ref_of_def)
qed

section \<open>Exit codes\<close>

text \<open>The libraries a client is built from: they change nothing, and give a client of the API server.\<close>

definition client_library_contract :: "('w \<Rightarrow> cluster) \<Rightarrow> ('w, 'rest) client_library \<Rightarrow> bool" where
  "client_library_contract view lib \<longleftrightarrow>
     (\<forall>ns w r w'. lib_Namespace lib ns w = (r, w') \<longrightarrow> view w' = view w) \<and>
     (\<forall>ns w r w'. lib_ClientConfig lib ns w = (r, w') \<longrightarrow> view w' = view w) \<and>
     (\<forall>w r w'. lib_AddToScheme lib w = (r, w') \<longrightarrow> view w' = view w) \<and>
     (\<forall>c w r w'. lib_New lib c w = (r, w') \<longrightarrow> view w' = view w \<and>
        (\<forall>kc. r = Inr kc \<longrightarrow> kind_contract view IdlingResources IdlingResourceStore kc \<and>
                            coherent view IdlingResourceStore kc)) \<and>
     (\<forall>c w r w'. lib_NewDiscovery lib c w = (r, w') \<longrightarrow> view w' = view w)"

lemma NewKidleClient_run:
  assumes "client_library_contract view lib" "NewKidleClient lib ns w = (r, w')"
  shows "view w' = view w \<and>
    (case r of
       Ret (Inl e) \<Rightarrow> True
     | Ret (Inr k) \<Rightarrow> fst (lib_Namespace lib ns w) = Inr (kd_Namespace k) \<and>
         kind_contract view IdlingResources IdlingResourceStore (kd_IdlingResources k) \<and>
         coherent view IdlingResourceStore (kd_IdlingResources k)
     | Panic p \<Rightarrow> False)"
proof -
  have keep: "view (snd (lib_Namespace lib ns w)) = view w" "view (snd (lib_ClientConfig lib ns w)) = view w"
    "view (snd (lib_AddToScheme lib w)) = view w" "view (snd (lib_New lib c w)) = view w"
    "view (snd (lib_NewDiscovery lib c w)) = view w" for ns c w
    using assms(1) unfolding client_library_contract_def by (metis prod.collapse)+
  have new: "kind_contract view IdlingResources IdlingResourceStore kc \<and> coherent view IdlingResourceStore kc"
    if "fst (lib_New lib c w) = Inr kc" for c w kc
    using assms(1) that unfolding client_library_contract_def by (metis prod.collapse)
  show ?thesis
    using assms(2)
    by (auto simp: NewKidleClient_def go_try_def go_check_def go_bind_def keep
        dest: new split: sum.splits option.splits)
qed


text \<open>One run of \<open>kidlectl idle\<close> or \<open>kidlectl wakeup\<close>.\<close>

lemma kidlectl_run:
  assumes lib: "client_library_contract view lib" and cli: "cli_New cli = NewKidleClient lib"
    and active: "active = (if idle then ''idle'' else ''wakeup'')"
    and args: "args = (if idle then cli_IdleCmd opts else cli_WakeUpCmd opts)"
    and run: "kidlectl_main cli vars (Inr (active, opts)) w = (r, w')"
  shows "\<exists>code. r = Ret code \<and> code \<in> {0, 2, 3} \<and>
     (if code = 0
      then \<exists>ns i j. fst (lib_Namespace lib (opt_Namespace args) w) = Inr ns \<and>
             cl_IdlingResources (view w) \<lparr> nn_Namespace = ns, nn_Name = opt_Name args \<rparr> = Some i \<and>
             cl_IdlingResources (view w') \<lparr> nn_Namespace = ns, nn_Name = opt_Name args \<rparr> = Some j \<and>
             ir_Spec j = (ir_Spec i)\<lparr> spec_Idle := idle \<rparr> \<and> meta_key (ir_meta j) = meta_key (ir_meta i) \<and>
             IsBeingDeleted j = IsBeingDeleted i
      else view w' = view w)"
proof -
  have cmd: "go_try (NewKidleClient lib (opt_Namespace args)) (\<lambda>err. go_return 2) (\<lambda>kidle.
      go_try (ApplyDesiredIdleState kidle idle (command_key kidle (opt_Name args)))
        (\<lambda>err. go_return 3) (\<lambda>done. go_return 0)) w = (r, w')"
    using run cli active args by (cases idle) (simp_all add: kidlectl_main_def IdleCommand_def WakeupCommand_def)
  obtain q w1 where new: "NewKidleClient lib (opt_Namespace args) w = (q, w1)" by (metis surj_pair)
  note n = NewKidleClient_run [OF lib new]
  consider (err) e where "q = Ret (Inl e)" | (ok) k where "q = Ret (Inr k)"
    using n by (cases q; cases "case q of Ret x \<Rightarrow> x | _ \<Rightarrow> undefined") auto
  then show ?thesis
  proof cases
    case err
    then have "r = Ret 2" "w' = w1" using cmd new by simp_all
    then show ?thesis using n by simp
  next
    case ok
    let ?req = "command_key k (opt_Name args)"
    obtain r2 w2 where app: "ApplyDesiredIdleState k idle ?req w1 = (r2, w2)" by (metis surj_pair)
    note a = ApplyDesiredIdleState_run [OF _ _ app, of view]
    consider (err) e where "r2 = Ret (Inl e)" | (done') changed where "r2 = Ret (Inr changed)"
      using a n ok by (cases r2; cases "case r2 of Ret x \<Rightarrow> x | _ \<Rightarrow> undefined") auto
    then show ?thesis
    proof cases
      case err
      then have "r = Ret 3" "w' = w2" using cmd new ok app by simp_all
      moreover have "view w2 = view w1" using a n ok err by simp
      ultimately show ?thesis using n by simp
    next
      case done'
      with a n ok obtain ir where ir: "cl_IdlingResources (view w1) ?req = Some ir"
          "changed = (spec_Idle (ir_Spec ir) \<noteq> idle)"
          "if changed then \<exists>v g. view w2 = cl_IdlingResources_update
             (\<lambda>m. m(?req \<mapsto> stamp IdlingResources v g (with_idle idle ir))) (view w1) else view w2 = view w1"
        by auto
      then have "\<exists>j. cl_IdlingResources (view w2) ?req = Some j \<and> ir_Spec j = (ir_Spec ir)\<lparr> spec_Idle := idle \<rparr> \<and>
          meta_key (ir_meta j) = meta_key (ir_meta ir) \<and> IsBeingDeleted j = IsBeingDeleted ir"
        by (cases changed) (auto simp: stamp_def with_idle_def IdlingResources_def meta_key_def IsBeingDeleted_def
            meta_deleting_def)
      then obtain j where j: "cl_IdlingResources (view w2) ?req = Some j" "ir_Spec j = (ir_Spec ir)\<lparr> spec_Idle := idle \<rparr>"
        "meta_key (ir_meta j) = meta_key (ir_meta ir)" "IsBeingDeleted j = IsBeingDeleted ir" by blast
      moreover have "r = Ret 0" "w' = w2" using cmd new ok app done' by simp_all
      moreover have "fst (lib_Namespace lib (opt_Namespace args) w) = Inr (kd_Namespace k)" using n ok by simp
      moreover have "cl_IdlingResources (view w) ?req = Some ir" using ir(1) n by simp
      ultimately show ?thesis using j by (simp add: command_key_def)
    qed
  qed
qed

text \<open>
  C37: What the exit code of \<open>kidlectl idle\<close> and \<open>kidlectl wakeup\<close> says: with 0 the instance of that
  name, in the namespace the client has worked out, is in the cluster with the flag as asked for; with
  2 no client could be built, and with 3 the instance could not be read or written, and in both cases
  the cluster is as it was. There is no other exit code and no panic.
\<close>

theorem kidlectl_exit_codes:
  assumes lib: "client_library_contract view lib" and cli: "cli_New cli = NewKidleClient lib"
    and active: "active = (if idle then ''idle'' else ''wakeup'')"
    and args: "args = (if idle then cli_IdleCmd opts else cli_WakeUpCmd opts)"
    and run: "kidlectl_main cli vars (Inr (active, opts)) w = (r, w')"
  shows "\<exists>code. r = Ret code \<and> code \<in> {0, 2, 3} \<and>
     (if code = 0
      then \<exists>ns j. fst (lib_Namespace lib (opt_Namespace args) w) = Inr ns \<and>
             cl_IdlingResources (view w') \<lparr> nn_Namespace = ns, nn_Name = opt_Name args \<rparr> = Some j \<and>
             spec_Idle (ir_Spec j) = idle
      else view w' = view w)"
proof -
  obtain code where "r = Ret code" "code \<in> {0, 2, 3}"
    "if code = 0
      then \<exists>ns i j. fst (lib_Namespace lib (opt_Namespace args) w) = Inr ns \<and>
             cl_IdlingResources (view w) \<lparr> nn_Namespace = ns, nn_Name = opt_Name args \<rparr> = Some i \<and>
             cl_IdlingResources (view w') \<lparr> nn_Namespace = ns, nn_Name = opt_Name args \<rparr> = Some j \<and>
             ir_Spec j = (ir_Spec i)\<lparr> spec_Idle := idle \<rparr> \<and> meta_key (ir_meta j) = meta_key (ir_meta i) \<and>
             IsBeingDeleted j = IsBeingDeleted i
      else view w' = view w"
    using kidlectl_run [OF assms] by blast
  then show ?thesis by (auto split: if_splits)
qed

text \<open>The libraries on the small cluster.\<close>

definition demo_library :: "(sim_world, unit) client_library" where
  "demo_library =
     \<lparr> lib_Namespace = (\<lambda>ns w. (Inr (if ns = '''' then ''default'' else ns), w)),
       lib_ClientConfig = (\<lambda>ns w. (Inr (), w)),
       lib_AddToScheme = (\<lambda>w. (None, w)),
       lib_New = (\<lambda>c w. (Inr (kd_IdlingResources demo_client), w)),
       lib_NewDiscovery = (\<lambda>c w. (Inr (kd_ServerGroupsAndResources demo_client), w)),
       lib_ParseGroupVersion = kd_ParseGroupVersion demo_client,
       lib_singular = kd_singular demo_client, lib_range = kd_range demo_client \<rparr>"

lemma demo_library_contract: "client_library_contract sim_view demo_library"
  using demo_client_contracts(1,2) by (simp add: client_library_contract_def demo_library_def)

lemma demo_new_client: "NewKidleClient demo_library '''' w = (Ret (Inr demo_client), w)"
  by (simp add: NewKidleClient_def go_try_def go_check_def go_bind_def demo_library_def)
    (simp add: demo_client_def)

definition demo_cli :: "sim_world cli_library" where
  "demo_cli = \<lparr> cli_New = NewKidleClient demo_library, cli_Println = (\<lambda>s w. w), cli_WriteHelp = (\<lambda>w. w),
     cli_Marshal = (\<lambda>v. Inr (vi_Version v)) \<rparr>"

definition demo_options :: cli_options where
  "demo_options =
     \<lparr> cli_Kubeconfig = '''', cli_IdleCmd = \<lparr> opt_Name = ''web-idler'', opt_Namespace = '''' \<rparr>,
       cli_WakeUpCmd = \<lparr> opt_Name = ''web-idler'', opt_Namespace = '''' \<rparr>,
       cli_CreateCmd = \<lparr> opt_Name = '''', opt_Namespace = '''', opt_Idle = False, opt_Ref = '''' \<rparr> \<rparr>"

lemma demo_command:
  obtains w' v g where "kidlectl_main demo_cli vars (Inr (''idle'', demo_options)) (demo_world (demo_instance kind False))
     = (Ret 0, w')"
    "sim_view w' = cl_IdlingResources_update
       (\<lambda>m. m(demo_req \<mapsto> stamp IdlingResources v g (with_idle True (demo_instance kind False))))
       (sim_view (demo_world (demo_instance kind False)))"
proof -
  obtain w' where run: "ApplyDesiredIdleState demo_client True demo_req (demo_world (demo_instance kind False)) = (Ret (Inr True), w')"
    using demo_apply [of False kind] by auto
  moreover have "command_key demo_client ''web-idler'' = demo_req"
    by (simp add: command_key_def demo_client_def demo_req_def)
  ultimately have "kidlectl_main demo_cli vars (Inr (''idle'', demo_options)) (demo_world (demo_instance kind False)) = (Ret 0, w')"
    by (simp add: kidlectl_main_def demo_cli_def demo_options_def IdleCommand_def demo_new_client go_try_def go_bind_def)
  moreover have "\<exists>v g. sim_view w' = cl_IdlingResources_update
       (\<lambda>m. m(demo_req \<mapsto> stamp IdlingResources v g (with_idle True (demo_instance kind False))))
       (sim_view (demo_world (demo_instance kind False)))"
    using ApplyDesiredIdleState_run [OF demo_client_contracts(1,2) run] by simp
  ultimately show ?thesis using that by blast
qed

theorem kidlectl_exit_codes_witness:
  "\<exists>w' ir. kidlectl_main demo_cli version_defaults (Inr (''idle'', demo_options)) (demo_world (demo_instance ''Deployment'' False))
      = (Ret 0, w') \<and>
     cl_IdlingResources (sim_view w') demo_req = Some ir \<and> spec_Idle (ir_Spec ir)"
proof -
  obtain w' where run: "kidlectl_main demo_cli version_defaults (Inr (''idle'', demo_options))
      (demo_world (demo_instance ''Deployment'' False)) = (Ret 0, w')" by (rule demo_command)
  have "cli_New demo_cli = NewKidleClient demo_library" by (simp add: demo_cli_def)
  from kidlectl_exit_codes [OF demo_library_contract this _ _ run, of True] run show ?thesis
    by (auto simp: demo_options_def demo_library_def demo_req_def)
qed

end
