(* ===== verification/Memory.thy ===== *)
theory Memory
  imports IdlingResource
begin

text \<open>
  The part of Go's memory that deep copies work on: typed stores of variables, places to read and
  write (a variable, a field of one, an element of an array), and the memory that holds the
  variables of the API types. Elsewhere in the development an object is a value and a pointer in it
  an option; here pointers are addresses, so that it can be said which variables two objects share.
  Distinct variables have distinct addresses; for the two empty structs Go may give them the same,
  which no write can show, as there is nothing to write.
\<close>

section \<open>Stores\<close>

text \<open>The variables of one type: those below \<open>st_next\<close> are in use.\<close>

record 'v store =
  st_next :: nat
  st_cells :: "nat \<Rightarrow> 'v"

definition st_new :: "'v \<Rightarrow> 'v store \<Rightarrow> 'v store" where
  "st_new v h = \<lparr> st_next = Suc (st_next h), st_cells = (st_cells h)(st_next h := v) \<rparr>"

definition st_set :: "nat \<Rightarrow> 'v \<Rightarrow> 'v store \<Rightarrow> 'v store" where
  "st_set a v h = h\<lparr> st_cells := (st_cells h)(a := v) \<rparr>"

text \<open>Variables were added, and those in use before are as they were.\<close>

definition st_grows :: "'v store \<Rightarrow> 'v store \<Rightarrow> bool" where
  "st_grows h h' \<longleftrightarrow> st_next h \<le> st_next h' \<and> (\<forall>a < st_next h. st_cells h' a = st_cells h a)"

lemma st_new_simps [simp]:
  "st_next (st_new v h) = Suc (st_next h)"
  "st_cells (st_new v h) a = (if a = st_next h then v else st_cells h a)"
  by (simp_all add: st_new_def)

lemma st_set_simps [simp]:
  "st_next (st_set a v h) = st_next h"
  "st_cells (st_set a v h) b = (if b = a then v else st_cells h b)"
  by (simp_all add: st_set_def)

lemma st_set_set [simp]: "st_set a v (st_set a u h) = st_set a v h"
  by (simp add: st_set_def)

lemma st_set_same [simp]: "st_set a (st_cells h a) h = h"
  by (simp add: st_set_def)

lemma st_set_new [simp]: "st_set (st_next h) v (st_new u h) = st_new v h"
  by (simp add: st_set_def st_new_def)

lemma st_grows_refl [simp]: "st_grows h h"
  by (simp add: st_grows_def)

lemma st_grows_trans: "st_grows h h' \<Longrightarrow> st_grows h' h'' \<Longrightarrow> st_grows h h''"
  by (auto simp: st_grows_def)

lemma st_grows_new [simp]: "st_grows h (st_new v h)"
  by (simp add: st_grows_def)

lemma st_growsD: "st_grows h h' \<Longrightarrow> a < st_next h \<Longrightarrow> a < st_next h' \<and> st_cells h' a = st_cells h a"
  by (auto simp: st_grows_def)

text \<open>A copy of the variable a pointer points to; the nil pointer stays nil.\<close>

definition st_dup :: "nat option \<Rightarrow> 'v store \<Rightarrow> nat option \<times> 'v store" where
  "st_dup p h = (case p of None \<Rightarrow> (None, h) | Some a \<Rightarrow> (Some (st_next h), st_new (st_cells h a) h))"

definition st_valid :: "'v store \<Rightarrow> nat option \<Rightarrow> bool" where
  "st_valid h p \<longleftrightarrow> (\<forall>a. p = Some a \<longrightarrow> a < st_next h)"

definition st_fresh :: "'v store \<Rightarrow> nat option \<Rightarrow> bool" where
  "st_fresh h p \<longleftrightarrow> (\<forall>a. p = Some a \<longrightarrow> st_next h \<le> a)"

definition st_read :: "'v store \<Rightarrow> nat option \<Rightarrow> 'v option" where
  "st_read h p = map_option (st_cells h) p"

lemma st_dup_correct:
  assumes "st_dup p h = (q, h')" "st_valid h p"
  shows "st_grows h h' \<and> st_valid h' q \<and> st_fresh h q \<and> st_read h' q = st_read h p"
  using assms by (auto simp: st_dup_def st_valid_def st_fresh_def st_read_def split: option.splits)

lemma st_read_grows: "st_grows h h' \<Longrightarrow> st_valid h p \<Longrightarrow> st_read h' p = st_read h p"
  by (cases p) (auto simp: st_read_def st_valid_def st_grows_def)

lemma st_valid_grows: "st_grows h h' \<Longrightarrow> st_valid h p \<Longrightarrow> st_valid h' p"
  by (cases p) (auto simp: st_valid_def st_grows_def)

lemma st_fresh_grows: "st_grows h h' \<Longrightarrow> st_fresh h' p \<Longrightarrow> st_fresh h p"
  by (cases p) (auto simp: st_fresh_def st_grows_def)

section \<open>Places\<close>

text \<open>
  What a non-nil pointer gives: a place that can be read and written. A field of a place is one.
\<close>

record ('s, 'v) place =
  pl_get :: "'s \<Rightarrow> 'v"
  pl_put :: "'v \<Rightarrow> 's \<Rightarrow> 's"

definition field :: "('v \<Rightarrow> 'u) \<Rightarrow> (('u \<Rightarrow> 'u) \<Rightarrow> 'v \<Rightarrow> 'v) \<Rightarrow> ('s, 'v) place \<Rightarrow> ('s, 'u) place" where
  "field sel upd p =
     \<lparr> pl_get = (\<lambda>s. sel (pl_get p s)), pl_put = (\<lambda>u s. pl_put p (upd (\<lambda>_. u) (pl_get p s)) s) \<rparr>"

lemma field_simps [simp]:
  "pl_get (field sel upd p) s = sel (pl_get p s)"
  "pl_put (field sel upd p) u s = pl_put p (upd (\<lambda>_. u) (pl_get p s)) s"
  by (simp_all add: field_def)

definition load :: "('s, 'v) place \<Rightarrow> ('s, 'v) go" where
  "load p = go_call (\<lambda>s. (pl_get p s, s))"

definition assign_value :: "('s, 'v) place \<Rightarrow> 'v \<Rightarrow> ('s, unit) go" where
  "assign_value p v = go_call (\<lambda>s. ((), pl_put p v s))"

text \<open>\<open>*out = *in\<close>\<close>

definition assign :: "('s, 'v) place \<Rightarrow> ('s, 'v) place \<Rightarrow> ('s, unit) go" where
  "assign out inp = go_bind (load inp) (assign_value out)"

lemma place_go_simps [simp]:
  "load p s = (Ret (pl_get p s), s)"
  "assign_value p v s = (Ret (), pl_put p v s)"
  "assign out inp s = (Ret (), pl_put out (pl_get inp s) s)"
  by (simp_all add: load_def assign_value_def assign_def go_bind_def)

end
