(* ===== verification/Deep_Copy.thy ===== *)
theory Deep_Copy
  imports Memory
begin

text \<open>
  \<open>src/pkg/api/v1beta1/zz_generated.deepcopy.go\<close>: the deep copies of the API types, over the
  memory of \<open>Memory\<close>. \<open>X_DeepCopyInto\<close> takes the places of the receiver and of \<open>out\<close>, neither of
  them nil; \<open>X_DeepCopy\<close> takes and returns a pointer, \<open>None\<close> for nil. The copies of the embedded
  \<open>ObjectMeta\<close> and \<open>ListMeta\<close> are the Kubernetes library's: a parameter.
\<close>

section \<open>The types in memory\<close>

record idling_struct =
  i_CronStrategy :: "nat option"
  i_InactiveStrategy :: "nat option"

record wakeup_struct =
  w_CronStrategy :: "nat option"
  w_OnCallStrategy :: "nat option"

record spec_struct =
  sp_IdlingResourceRef :: CrossVersionObjectReference
  sp_Idle :: bool
  sp_IdlingStrategy :: "nat option"
  sp_WakeupStrategy :: "nat option"

record 'm resource_struct =
  rs_TypeMeta :: type_meta
  rs_ObjectMeta :: 'm
  rs_Spec :: spec_struct
  rs_Status :: IdlingResourceStatus

text \<open>A slice: the elements \<open>sl_offset\<close>, \<open>sl_offset + 1\<close>, ... of an array.\<close>

record slice =
  sl_array :: nat
  sl_offset :: nat
  sl_len :: nat

record 'l list_struct =
  ls_TypeMeta :: type_meta
  ls_ListMeta :: 'l
  ls_Items :: "slice option"

text \<open>
  The variables of the types a strategy is made of, and the whole memory: \<open>'x\<close> is the memory the
  library's metadata lives in.
\<close>

record strategy_cells =
  sc_Cron :: "CronStrategy store"
  sc_Inactive :: "InactiveStrategy store"
  sc_OnCall :: "OnCallStrategy store"
  sc_Idling :: "idling_struct store"
  sc_Wakeup :: "wakeup_struct store"

record ('m, 'l, 'x) memory =
  mem_strategies :: strategy_cells
  mem_Reference :: "CrossVersionObjectReference store"
  mem_Status :: "IdlingResourceStatus store"
  mem_Spec :: "spec_struct store"
  mem_IdlingResource :: "'m resource_struct store"
  mem_Array :: "(nat \<Rightarrow> 'm resource_struct) store"
  mem_List :: "'l list_struct store"
  mem_lib :: 'x

record ('m, 'l, 'x) meta_library =
  lib_ObjectMeta :: 'm
  lib_ListMeta :: 'l
  lib_ObjectMeta_copy :: "'m \<Rightarrow> 'x \<Rightarrow> 'm \<times> 'x"
  lib_ListMeta_copy :: "'l \<Rightarrow> 'x \<Rightarrow> 'l \<times> 'x"

text \<open>Zero values.\<close>

definition zero_reference :: CrossVersionObjectReference where
  "zero_reference = \<lparr> ref_Kind = '''', ref_Name = '''', ref_APIVersion = '''' \<rparr>"

definition zero_spec :: spec_struct where
  "zero_spec = \<lparr> sp_IdlingResourceRef = zero_reference, sp_Idle = False, sp_IdlingStrategy = None,
     sp_WakeupStrategy = None \<rparr>"

definition zero_type_meta :: type_meta where
  "zero_type_meta = \<lparr> tm_Kind = '''', tm_APIVersion = '''' \<rparr>"

definition zero_resource :: "('m, 'l, 'x) meta_library \<Rightarrow> 'm resource_struct" where
  "zero_resource lib = \<lparr> rs_TypeMeta = zero_type_meta, rs_ObjectMeta = lib_ObjectMeta lib,
     rs_Spec = zero_spec, rs_Status = IdlingResourceStatus \<rparr>"

definition zero_list :: "('m, 'l, 'x) meta_library \<Rightarrow> 'l list_struct" where
  "zero_list lib = \<lparr> ls_TypeMeta = zero_type_meta, ls_ListMeta = lib_ListMeta lib, ls_Items = None \<rparr>"

section \<open>Variables\<close>

text \<open>
  A store inside the memory, by its selector and its update; the place of the variable at an address
  and \<open>new(T)\<close>.
\<close>

type_synonym ('s, 'v) store_of = "('s \<Rightarrow> 'v store) \<times> (('v store \<Rightarrow> 'v store) \<Rightarrow> 's \<Rightarrow> 's)"

definition var :: "('s, 'v) store_of \<Rightarrow> nat \<Rightarrow> ('s, 'v) place" where
  "var st a = \<lparr> pl_get = (\<lambda>s. st_cells (fst st s) a), pl_put = (\<lambda>v s. snd st (st_set a v) s) \<rparr>"

definition go_new :: "('s, 'v) store_of \<Rightarrow> 'v \<Rightarrow> ('s, nat) go" where
  "go_new st zero = go_call (\<lambda>s. (st_next (fst st s), snd st (st_new zero) s))"

definition Cron_vars :: "(('m, 'l, 'x) memory, CronStrategy) store_of" where
  "Cron_vars = (\<lambda>s. sc_Cron (mem_strategies s), \<lambda>f. mem_strategies_update (sc_Cron_update f))"

definition Inactive_vars :: "(('m, 'l, 'x) memory, InactiveStrategy) store_of" where
  "Inactive_vars = (\<lambda>s. sc_Inactive (mem_strategies s), \<lambda>f. mem_strategies_update (sc_Inactive_update f))"

definition OnCall_vars :: "(('m, 'l, 'x) memory, OnCallStrategy) store_of" where
  "OnCall_vars = (\<lambda>s. sc_OnCall (mem_strategies s), \<lambda>f. mem_strategies_update (sc_OnCall_update f))"

definition Idling_vars :: "(('m, 'l, 'x) memory, idling_struct) store_of" where
  "Idling_vars = (\<lambda>s. sc_Idling (mem_strategies s), \<lambda>f. mem_strategies_update (sc_Idling_update f))"

definition Wakeup_vars :: "(('m, 'l, 'x) memory, wakeup_struct) store_of" where
  "Wakeup_vars = (\<lambda>s. sc_Wakeup (mem_strategies s), \<lambda>f. mem_strategies_update (sc_Wakeup_update f))"

definition Reference_vars :: "(('m, 'l, 'x) memory, CrossVersionObjectReference) store_of" where
  "Reference_vars = (mem_Reference, mem_Reference_update)"

definition Status_vars :: "(('m, 'l, 'x) memory, IdlingResourceStatus) store_of" where
  "Status_vars = (mem_Status, mem_Status_update)"

definition Spec_vars :: "(('m, 'l, 'x) memory, spec_struct) store_of" where
  "Spec_vars = (mem_Spec, mem_Spec_update)"

definition Resource_vars :: "(('m, 'l, 'x) memory, 'm resource_struct) store_of" where
  "Resource_vars = (mem_IdlingResource, mem_IdlingResource_update)"

definition List_vars :: "(('m, 'l, 'x) memory, 'l list_struct) store_of" where
  "List_vars = (mem_List, mem_List_update)"

lemmas vars_defs = Cron_vars_def Inactive_vars_def OnCall_vars_def Idling_vars_def Wakeup_vars_def
  Reference_vars_def Status_vars_def Spec_vars_def Resource_vars_def List_vars_def

text \<open>\<open>in.DeepCopy()\<close> of a type: nil for nil, otherwise a copy into a new variable.\<close>

definition copy_to_new :: "('s, 'v) store_of \<Rightarrow> 'v \<Rightarrow>
     (('s, 'v) place \<Rightarrow> ('s, 'v) place \<Rightarrow> ('s, unit) go) \<Rightarrow> nat option \<Rightarrow> ('s, nat option) go" where
  "copy_to_new vars zero DeepCopyInto inp =
     (case inp of
        None \<Rightarrow> go_return None
      | Some p \<Rightarrow>
          go_bind (go_new vars zero) (\<lambda>out.
          go_bind (DeepCopyInto (var vars p) (var vars out)) (\<lambda>_. go_return (Some out))))"

lemma copy_to_new_None [simp]: "copy_to_new vars z copy None s = (Ret None, s)"
  by (simp add: copy_to_new_def)

lemma copy_to_new_Some:
  assumes "copy (var vars p) (var vars b) (snd vars (st_new z) s) = (Ret (), t)" "b = st_next (fst vars s)"
  shows "copy_to_new vars z copy (Some p) s = (Ret (Some b), t)"
  using assms by (simp add: copy_to_new_def go_bind_def go_new_def)

text \<open>
  The copy of a field that is a pointer: \<open>if in.F != nil { in, out := &in.F, &out.F; *out = new(T);
  (*in).DeepCopyInto(*out) }\<close>, and the same with \<open>**out = **in\<close>.
\<close>

definition copy_pointer :: "('s, 'v) store_of \<Rightarrow> 'v \<Rightarrow>
     (('s, 'v) place \<Rightarrow> ('s, 'v) place \<Rightarrow> ('s, unit) go) \<Rightarrow>
     ('s, nat option) place \<Rightarrow> ('s, nat option) place \<Rightarrow> ('s, unit) go" where
  "copy_pointer vars zero DeepCopyInto inp out =
     go_bind (load inp) (\<lambda>p.
     case p of
       None \<Rightarrow> go_return ()
     | Some _ \<Rightarrow>
         go_bind (go_new vars zero) (\<lambda>a.
         go_bind (assign_value out (Some a)) (\<lambda>_.
         go_bind (load inp) (\<lambda>p. go_bind (go_pure (deref p)) (\<lambda>src.
         go_bind (load out) (\<lambda>q. go_bind (go_pure (deref q)) (\<lambda>dst.
         DeepCopyInto (var vars src) (var vars dst))))))))"

section \<open>The deep copies\<close>

definition CronStrategy_DeepCopyInto ::
  "('s, CronStrategy) place \<Rightarrow> ('s, CronStrategy) place \<Rightarrow> ('s, unit) go" where
  "CronStrategy_DeepCopyInto inp out = assign out inp"

definition CronStrategy_DeepCopy :: "nat option \<Rightarrow> (('m, 'l, 'x) memory, nat option) go" where
  "CronStrategy_DeepCopy = copy_to_new Cron_vars \<lparr> cs_Schedule = '''' \<rparr> CronStrategy_DeepCopyInto"

definition CrossVersionObjectReference_DeepCopyInto ::
  "('s, CrossVersionObjectReference) place \<Rightarrow> ('s, CrossVersionObjectReference) place \<Rightarrow> ('s, unit) go" where
  "CrossVersionObjectReference_DeepCopyInto inp out = assign out inp"

definition CrossVersionObjectReference_DeepCopy :: "nat option \<Rightarrow> (('m, 'l, 'x) memory, nat option) go" where
  "CrossVersionObjectReference_DeepCopy =
     copy_to_new Reference_vars zero_reference CrossVersionObjectReference_DeepCopyInto"

definition IdlingResourceStatus_DeepCopyInto ::
  "('s, IdlingResourceStatus) place \<Rightarrow> ('s, IdlingResourceStatus) place \<Rightarrow> ('s, unit) go" where
  "IdlingResourceStatus_DeepCopyInto inp out = assign out inp"

definition IdlingResourceStatus_DeepCopy :: "nat option \<Rightarrow> (('m, 'l, 'x) memory, nat option) go" where
  "IdlingResourceStatus_DeepCopy =
     copy_to_new Status_vars IdlingResourceStatus IdlingResourceStatus_DeepCopyInto"

definition InactiveStrategy_DeepCopyInto ::
  "('s, InactiveStrategy) place \<Rightarrow> ('s, InactiveStrategy) place \<Rightarrow> ('s, unit) go" where
  "InactiveStrategy_DeepCopyInto inp out = assign out inp"

definition InactiveStrategy_DeepCopy :: "nat option \<Rightarrow> (('m, 'l, 'x) memory, nat option) go" where
  "InactiveStrategy_DeepCopy = copy_to_new Inactive_vars InactiveStrategy InactiveStrategy_DeepCopyInto"

definition OnCallStrategy_DeepCopyInto ::
  "('s, OnCallStrategy) place \<Rightarrow> ('s, OnCallStrategy) place \<Rightarrow> ('s, unit) go" where
  "OnCallStrategy_DeepCopyInto inp out = assign out inp"

definition OnCallStrategy_DeepCopy :: "nat option \<Rightarrow> (('m, 'l, 'x) memory, nat option) go" where
  "OnCallStrategy_DeepCopy = copy_to_new OnCall_vars OnCallStrategy OnCallStrategy_DeepCopyInto"

text \<open>The two strategies copy what their pointers point to with a plain assignment.\<close>

definition IdlingStrategy_DeepCopyInto :: "(('m, 'l, 'x) memory, idling_struct) place \<Rightarrow>
     (('m, 'l, 'x) memory, idling_struct) place \<Rightarrow> (('m, 'l, 'x) memory, unit) go" where
  "IdlingStrategy_DeepCopyInto inp out =
     go_bind (assign out inp) (\<lambda>_.
     go_bind (copy_pointer Cron_vars \<lparr> cs_Schedule = '''' \<rparr> (\<lambda>src dst. assign dst src)
       (field i_CronStrategy i_CronStrategy_update inp)
       (field i_CronStrategy i_CronStrategy_update out)) (\<lambda>_.
     copy_pointer Inactive_vars InactiveStrategy (\<lambda>src dst. assign dst src)
       (field i_InactiveStrategy i_InactiveStrategy_update inp)
       (field i_InactiveStrategy i_InactiveStrategy_update out)))"

definition IdlingStrategy_DeepCopy :: "nat option \<Rightarrow> (('m, 'l, 'x) memory, nat option) go" where
  "IdlingStrategy_DeepCopy =
     copy_to_new Idling_vars \<lparr> i_CronStrategy = None, i_InactiveStrategy = None \<rparr> IdlingStrategy_DeepCopyInto"

definition WakeupStrategy_DeepCopyInto :: "(('m, 'l, 'x) memory, wakeup_struct) place \<Rightarrow>
     (('m, 'l, 'x) memory, wakeup_struct) place \<Rightarrow> (('m, 'l, 'x) memory, unit) go" where
  "WakeupStrategy_DeepCopyInto inp out =
     go_bind (assign out inp) (\<lambda>_.
     go_bind (copy_pointer Cron_vars \<lparr> cs_Schedule = '''' \<rparr> (\<lambda>src dst. assign dst src)
       (field w_CronStrategy w_CronStrategy_update inp)
       (field w_CronStrategy w_CronStrategy_update out)) (\<lambda>_.
     copy_pointer OnCall_vars OnCallStrategy (\<lambda>src dst. assign dst src)
       (field w_OnCallStrategy w_OnCallStrategy_update inp)
       (field w_OnCallStrategy w_OnCallStrategy_update out)))"

definition WakeupStrategy_DeepCopy :: "nat option \<Rightarrow> (('m, 'l, 'x) memory, nat option) go" where
  "WakeupStrategy_DeepCopy =
     copy_to_new Wakeup_vars \<lparr> w_CronStrategy = None, w_OnCallStrategy = None \<rparr> WakeupStrategy_DeepCopyInto"

definition IdlingResourceSpec_DeepCopyInto :: "(('m, 'l, 'x) memory, spec_struct) place \<Rightarrow>
     (('m, 'l, 'x) memory, spec_struct) place \<Rightarrow> (('m, 'l, 'x) memory, unit) go" where
  "IdlingResourceSpec_DeepCopyInto inp out =
     go_bind (assign out inp) (\<lambda>_.
     go_bind (assign (field sp_IdlingResourceRef sp_IdlingResourceRef_update out)
       (field sp_IdlingResourceRef sp_IdlingResourceRef_update inp)) (\<lambda>_.
     go_bind (copy_pointer Idling_vars \<lparr> i_CronStrategy = None, i_InactiveStrategy = None \<rparr>
       IdlingStrategy_DeepCopyInto
       (field sp_IdlingStrategy sp_IdlingStrategy_update inp)
       (field sp_IdlingStrategy sp_IdlingStrategy_update out)) (\<lambda>_.
     copy_pointer Wakeup_vars \<lparr> w_CronStrategy = None, w_OnCallStrategy = None \<rparr>
       WakeupStrategy_DeepCopyInto
       (field sp_WakeupStrategy sp_WakeupStrategy_update inp)
       (field sp_WakeupStrategy sp_WakeupStrategy_update out))))"

definition IdlingResourceSpec_DeepCopy :: "nat option \<Rightarrow> (('m, 'l, 'x) memory, nat option) go" where
  "IdlingResourceSpec_DeepCopy = copy_to_new Spec_vars zero_spec IdlingResourceSpec_DeepCopyInto"

text \<open>\<open>in.ObjectMeta.DeepCopyInto(&out.ObjectMeta)\<close>, and the same for \<open>ListMeta\<close>.\<close>

definition meta_DeepCopyInto :: "('a \<Rightarrow> 'x \<Rightarrow> 'a \<times> 'x) \<Rightarrow> (('m, 'l, 'x) memory, 'a) place \<Rightarrow>
     (('m, 'l, 'x) memory, 'a) place \<Rightarrow> (('m, 'l, 'x) memory, unit) go" where
  "meta_DeepCopyInto copy inp out =
     go_bind (load inp) (\<lambda>v.
     go_bind (go_call (\<lambda>s. case copy v (mem_lib s) of (v', x) \<Rightarrow> (v', s\<lparr> mem_lib := x \<rparr>))) (\<lambda>v'.
     assign_value out v'))"

definition IdlingResource_DeepCopyInto :: "('m, 'l, 'x) meta_library \<Rightarrow>
     (('m, 'l, 'x) memory, 'm resource_struct) place \<Rightarrow> (('m, 'l, 'x) memory, 'm resource_struct) place \<Rightarrow>
     (('m, 'l, 'x) memory, unit) go" where
  "IdlingResource_DeepCopyInto lib inp out =
     go_bind (assign out inp) (\<lambda>_.
     go_bind (assign (field rs_TypeMeta rs_TypeMeta_update out) (field rs_TypeMeta rs_TypeMeta_update inp)) (\<lambda>_.
     go_bind (meta_DeepCopyInto (lib_ObjectMeta_copy lib)
       (field rs_ObjectMeta rs_ObjectMeta_update inp) (field rs_ObjectMeta rs_ObjectMeta_update out)) (\<lambda>_.
     go_bind (IdlingResourceSpec_DeepCopyInto
       (field rs_Spec rs_Spec_update inp) (field rs_Spec rs_Spec_update out)) (\<lambda>_.
     assign (field rs_Status rs_Status_update out) (field rs_Status rs_Status_update inp)))))"

definition IdlingResource_DeepCopy :: "('m, 'l, 'x) meta_library \<Rightarrow> nat option \<Rightarrow>
     (('m, 'l, 'x) memory, nat option) go" where
  "IdlingResource_DeepCopy lib =
     copy_to_new Resource_vars (zero_resource lib) (IdlingResource_DeepCopyInto lib)"

text \<open>A \<open>runtime.Object\<close>, by its dynamic type; \<open>None\<close> is the nil interface.\<close>

datatype runtime_object = Object_IdlingResource nat | Object_IdlingResourceList nat

definition IdlingResource_DeepCopyObject :: "('m, 'l, 'x) meta_library \<Rightarrow> nat option \<Rightarrow>
     (('m, 'l, 'x) memory, runtime_object option) go" where
  "IdlingResource_DeepCopyObject lib inp =
     go_bind (IdlingResource_DeepCopy lib inp) (\<lambda>c.
     case c of Some p \<Rightarrow> go_return (Some (Object_IdlingResource p)) | None \<Rightarrow> go_return None)"

text \<open>An element of a slice, with the check of the index, \<open>make\<close> and the loop over the indices.\<close>

definition element :: "slice \<Rightarrow> nat \<Rightarrow> (('m, 'l, 'x) memory, 'm resource_struct) place" where
  "element sl i =
     \<lparr> pl_get = (\<lambda>s. st_cells (mem_Array s) (sl_array sl) (sl_offset sl + i)),
       pl_put = (\<lambda>v s. s\<lparr> mem_Array := st_set (sl_array sl)
          ((st_cells (mem_Array s) (sl_array sl))(sl_offset sl + i := v)) (mem_Array s) \<rparr>) \<rparr>"

definition index_slice :: "slice option \<Rightarrow> nat \<Rightarrow> (('m, 'l, 'x) memory, 'm resource_struct) place outcome" where
  "index_slice sl i =
     (case sl of
        None \<Rightarrow> Panic IndexOutOfRange
      | Some sl \<Rightarrow> if i < sl_len sl then Ret (element sl i) else Panic IndexOutOfRange)"

definition slice_len :: "slice option \<Rightarrow> nat" where
  "slice_len sl = (case sl of None \<Rightarrow> 0 | Some sl \<Rightarrow> sl_len sl)"

definition make_items :: "('m, 'l, 'x) meta_library \<Rightarrow> nat \<Rightarrow> (('m, 'l, 'x) memory, slice) go" where
  "make_items lib n = go_call (\<lambda>s.
     (\<lparr> sl_array = st_next (mem_Array s), sl_offset = 0, sl_len = n \<rparr>,
      s\<lparr> mem_Array := st_new (\<lambda>_. zero_resource lib) (mem_Array s) \<rparr>))"

fun copy_items :: "('m, 'l, 'x) meta_library \<Rightarrow> (('m, 'l, 'x) memory, slice option) place \<Rightarrow>
     (('m, 'l, 'x) memory, slice option) place \<Rightarrow> nat list \<Rightarrow> (('m, 'l, 'x) memory, unit) go" where
  "copy_items lib inp out [] = go_return ()"
| "copy_items lib inp out (i # is) =
     go_bind (load inp) (\<lambda>p. go_bind (go_pure (index_slice p i)) (\<lambda>src.
     go_bind (load out) (\<lambda>q. go_bind (go_pure (index_slice q i)) (\<lambda>dst.
     go_bind (IdlingResource_DeepCopyInto lib src dst) (\<lambda>_.
     copy_items lib inp out is)))))"

definition IdlingResourceList_DeepCopyInto :: "('m, 'l, 'x) meta_library \<Rightarrow>
     (('m, 'l, 'x) memory, 'l list_struct) place \<Rightarrow> (('m, 'l, 'x) memory, 'l list_struct) place \<Rightarrow>
     (('m, 'l, 'x) memory, unit) go" where
  "IdlingResourceList_DeepCopyInto lib inp out =
     go_bind (assign out inp) (\<lambda>_.
     go_bind (assign (field ls_TypeMeta ls_TypeMeta_update out) (field ls_TypeMeta ls_TypeMeta_update inp)) (\<lambda>_.
     go_bind (meta_DeepCopyInto (lib_ListMeta_copy lib)
       (field ls_ListMeta ls_ListMeta_update inp) (field ls_ListMeta ls_ListMeta_update out)) (\<lambda>_.
     go_bind (load (field ls_Items ls_Items_update inp)) (\<lambda>items.
     case items of
       None \<Rightarrow> go_return ()
     | Some sl \<Rightarrow>
         go_bind (make_items lib (sl_len sl)) (\<lambda>copy.
         go_bind (assign_value (field ls_Items ls_Items_update out) (Some copy)) (\<lambda>_.
         go_bind (load (field ls_Items ls_Items_update inp)) (\<lambda>items.
         copy_items lib (field ls_Items ls_Items_update inp) (field ls_Items ls_Items_update out)
           [0..<slice_len items])))))))"

definition IdlingResourceList_DeepCopy :: "('m, 'l, 'x) meta_library \<Rightarrow> nat option \<Rightarrow>
     (('m, 'l, 'x) memory, nat option) go" where
  "IdlingResourceList_DeepCopy lib =
     copy_to_new List_vars (zero_list lib) (IdlingResourceList_DeepCopyInto lib)"

definition IdlingResourceList_DeepCopyObject :: "('m, 'l, 'x) meta_library \<Rightarrow> nat option \<Rightarrow>
     (('m, 'l, 'x) memory, runtime_object option) go" where
  "IdlingResourceList_DeepCopyObject lib inp =
     go_bind (IdlingResourceList_DeepCopy lib inp) (\<lambda>c.
     case c of Some p \<Rightarrow> go_return (Some (Object_IdlingResourceList p)) | None \<Rightarrow> go_return None)"

end
