(* ===== verification/Copy_Facts.thy ===== *)
theory Copy_Facts
  imports Deep_Copy
begin

text \<open>
  What the deep copies of \<open>Deep_Copy\<close> do. The functions \<open>dup_...\<close> are the reference definition:
  they say which variables a copy adds, one for each pointer, and the struct it gives. The copies
  are shown to be these, and these to read as the original does, over variables that are all new.
\<close>

section \<open>The reference definition\<close>

definition dup_idling :: "idling_struct \<Rightarrow> strategy_cells \<Rightarrow> idling_struct \<times> strategy_cells" where
  "dup_idling x c =
     (let (p, C) = st_dup (i_CronStrategy x) (sc_Cron c); (q, I) = st_dup (i_InactiveStrategy x) (sc_Inactive c)
      in (x\<lparr> i_CronStrategy := p, i_InactiveStrategy := q \<rparr>, c\<lparr> sc_Cron := C, sc_Inactive := I \<rparr>))"

definition dup_wakeup :: "wakeup_struct \<Rightarrow> strategy_cells \<Rightarrow> wakeup_struct \<times> strategy_cells" where
  "dup_wakeup x c =
     (let (p, C) = st_dup (w_CronStrategy x) (sc_Cron c); (q, D) = st_dup (w_OnCallStrategy x) (sc_OnCall c)
      in (x\<lparr> w_CronStrategy := p, w_OnCallStrategy := q \<rparr>, c\<lparr> sc_Cron := C, sc_OnCall := D \<rparr>))"

definition dup_idling_pointer :: "nat option \<Rightarrow> strategy_cells \<Rightarrow> nat option \<times> strategy_cells" where
  "dup_idling_pointer p c =
     (case p of
        None \<Rightarrow> (None, c)
      | Some a \<Rightarrow>
          let (x, c') = dup_idling (st_cells (sc_Idling c) a) c
          in (Some (st_next (sc_Idling c)), c'\<lparr> sc_Idling := st_new x (sc_Idling c) \<rparr>))"

definition dup_wakeup_pointer :: "nat option \<Rightarrow> strategy_cells \<Rightarrow> nat option \<times> strategy_cells" where
  "dup_wakeup_pointer p c =
     (case p of
        None \<Rightarrow> (None, c)
      | Some a \<Rightarrow>
          let (x, c') = dup_wakeup (st_cells (sc_Wakeup c) a) c
          in (Some (st_next (sc_Wakeup c)), c'\<lparr> sc_Wakeup := st_new x (sc_Wakeup c) \<rparr>))"

definition dup_spec :: "spec_struct \<Rightarrow> strategy_cells \<Rightarrow> spec_struct \<times> strategy_cells" where
  "dup_spec x c =
     (let (p, c') = dup_idling_pointer (sp_IdlingStrategy x) c; (q, c'') = dup_wakeup_pointer (sp_WakeupStrategy x) c'
      in (x\<lparr> sp_IdlingStrategy := p, sp_WakeupStrategy := q \<rparr>, c''))"

section \<open>What may be copied\<close>

text \<open>Every pointer is nil or points to a variable.\<close>

definition idling_valid :: "strategy_cells \<Rightarrow> idling_struct \<Rightarrow> bool" where
  "idling_valid c x \<longleftrightarrow> st_valid (sc_Cron c) (i_CronStrategy x) \<and> st_valid (sc_Inactive c) (i_InactiveStrategy x)"

definition wakeup_valid :: "strategy_cells \<Rightarrow> wakeup_struct \<Rightarrow> bool" where
  "wakeup_valid c x \<longleftrightarrow> st_valid (sc_Cron c) (w_CronStrategy x) \<and> st_valid (sc_OnCall c) (w_OnCallStrategy x)"

definition spec_valid :: "strategy_cells \<Rightarrow> spec_struct \<Rightarrow> bool" where
  "spec_valid c x \<longleftrightarrow>
     st_valid (sc_Idling c) (sp_IdlingStrategy x) \<and> st_valid (sc_Wakeup c) (sp_WakeupStrategy x) \<and>
     (\<forall>a. sp_IdlingStrategy x = Some a \<longrightarrow> idling_valid c (st_cells (sc_Idling c) a)) \<and>
     (\<forall>a. sp_WakeupStrategy x = Some a \<longrightarrow> wakeup_valid c (st_cells (sc_Wakeup c) a))"

lemma IdlingStrategy_copied:
  assumes "a \<noteq> b" "idling_valid (mem_strategies s) (st_cells (sc_Idling (mem_strategies s)) a)"
    and "dup_idling (st_cells (sc_Idling (mem_strategies s)) a) (mem_strategies s) = (x, c)"
  shows "IdlingStrategy_DeepCopyInto (var Idling_vars a) (var Idling_vars b) s
     = (Ret (), s\<lparr> mem_strategies := c\<lparr> sc_Idling := st_set b x (sc_Idling c) \<rparr> \<rparr>)"
  using assms
  by (cases "st_cells (sc_Idling (mem_strategies s)) a"; cases s; cases "mem_strategies s")
    (auto simp: IdlingStrategy_DeepCopyInto_def copy_pointer_def go_bind_def var_def go_new_def vars_defs
      dup_idling_def st_dup_def idling_valid_def st_valid_def split: option.splits)

lemma WakeupStrategy_copied:
  assumes "a \<noteq> b" "wakeup_valid (mem_strategies s) (st_cells (sc_Wakeup (mem_strategies s)) a)"
    and "dup_wakeup (st_cells (sc_Wakeup (mem_strategies s)) a) (mem_strategies s) = (x, c)"
  shows "WakeupStrategy_DeepCopyInto (var Wakeup_vars a) (var Wakeup_vars b) s
     = (Ret (), s\<lparr> mem_strategies := c\<lparr> sc_Wakeup := st_set b x (sc_Wakeup c) \<rparr> \<rparr>)"
  using assms
  by (cases "st_cells (sc_Wakeup (mem_strategies s)) a"; cases s; cases "mem_strategies s")
    (auto simp: WakeupStrategy_DeepCopyInto_def copy_pointer_def go_bind_def var_def go_new_def vars_defs
      dup_wakeup_def st_dup_def wakeup_valid_def st_valid_def split: option.splits)


section \<open>Copies into a place\<close>

text \<open>
  Two places of the memory a copy may run between: different ones, that no new strategy variable and
  no new metadata touches.
\<close>

locale copy_places =
  fixes inp out :: "(('m, 'l, 'x) memory, 'v) place"
  assumes get_put [simp]: "pl_get out (pl_put out v s) = v"
    and put_put [simp]: "pl_put out v (pl_put out u s) = pl_put out v s"
    and put_get [simp]: "pl_put out (pl_get out s) s = s"
    and apart [simp]: "pl_get inp (pl_put out v s) = pl_get inp s"
    and get_strategies [simp]: "pl_get inp (mem_strategies_update f s) = pl_get inp s"
      "pl_get out (mem_strategies_update f s) = pl_get out s"
    and put_strategies [simp]: "pl_put out v (mem_strategies_update f s) = mem_strategies_update f (pl_put out v s)"
      "mem_strategies (pl_put out v s) = mem_strategies s"
    and get_lib [simp]: "pl_get inp (mem_lib_update g s) = pl_get inp s"
      "pl_get out (mem_lib_update g s) = pl_get out s"
    and put_lib [simp]: "pl_put out v (mem_lib_update g s) = mem_lib_update g (pl_put out v s)"
      "mem_lib (pl_put out v s) = mem_lib s"

text \<open>What the copy of a pointer field does when the pointer is nil and when it is not.\<close>

lemma copy_pointer_None:
  "sel (pl_get inp s) = None \<Longrightarrow> copy_pointer vars z copy (field sel upd inp) (field sel upd out) s = (Ret (), s)"
  by (simp add: copy_pointer_def go_bind_def)

lemma copy_pointer_Some:
  assumes "sel (pl_get inp s) = Some a" "sel (upd (\<lambda>_. Some b) (pl_get out s)) = Some b"
    and "b = st_next (fst vars s)"
    and "t = pl_put out (upd (\<lambda>_. Some b) (pl_get out s)) (snd vars (st_new z) s)"
    and "pl_get out (snd vars (st_new z) s) = pl_get out s" "pl_get inp t = pl_get inp s"
    and "pl_get out t = upd (\<lambda>_. Some b) (pl_get out s)"
  shows "copy_pointer vars z copy (field sel upd inp) (field sel upd out) s = copy (var vars a) (var vars b) t"
proof -
  have "load (field sel upd out) t = (Ret (Some b), t)" "load (field sel upd inp) t = (Ret (Some a), t)"
    using assms(1,2,6,7) by simp_all
  moreover have "pl_put (field sel upd out) (Some b) (snd vars (st_new z) s) = t"
    using assms(4,5) by simp
  ultimately show ?thesis
    using assms(1,3) by (simp add: copy_pointer_def go_bind_def go_new_def)
qed

locale spec_places = copy_places inp out
  for inp out :: "(('m, 'l, 'x) memory, spec_struct) place"
begin

lemma idling_pointer_copied:
  assumes "sp_IdlingStrategy (pl_get inp s) = p" "sp_IdlingStrategy (pl_get out s) = p"
    and valid: "st_valid (sc_Idling (mem_strategies s)) p"
      "\<forall>a. p = Some a \<longrightarrow> idling_valid (mem_strategies s) (st_cells (sc_Idling (mem_strategies s)) a)"
    and dup: "dup_idling_pointer p (mem_strategies s) = (q, c)"
  shows "copy_pointer Idling_vars z IdlingStrategy_DeepCopyInto
       (field sp_IdlingStrategy sp_IdlingStrategy_update inp)
       (field sp_IdlingStrategy sp_IdlingStrategy_update out) s
     = (Ret (), pl_put out ((pl_get out s)\<lparr> sp_IdlingStrategy := q \<rparr>) (s\<lparr> mem_strategies := c \<rparr>))"
proof (cases p)
  case None
  then have same: "(pl_get out s)\<lparr> sp_IdlingStrategy := None \<rparr> = pl_get out s" using assms(2) by simp
  have "q = None" "c = mem_strategies s" using None dup by (auto simp: dup_idling_pointer_def)
  then show ?thesis using None assms(1) by (simp add: copy_pointer_None same)
next
  case (Some a)
  let ?c = "mem_strategies s" let ?b = "st_next (sc_Idling (mem_strategies s))"
  obtain x d where x: "dup_idling (st_cells (sc_Idling ?c) a) ?c = (x, d)" by (metis surj_pair)
  define t where "t = pl_put out ((pl_get out s)\<lparr> sp_IdlingStrategy := Some ?b \<rparr>)
      (mem_strategies_update (sc_Idling_update (st_new z)) s)"
  have "a \<noteq> ?b" using valid(1) Some by (simp add: st_valid_def)
  moreover have "idling_valid (mem_strategies t) (st_cells (sc_Idling (mem_strategies t)) a)"
    using valid(2) Some \<open>a \<noteq> ?b\<close> by (simp add: t_def idling_valid_def)
  moreover have "dup_idling (st_cells (sc_Idling (mem_strategies t)) a) (mem_strategies t)
      = (x, d\<lparr> sc_Idling := st_new z (sc_Idling ?c) \<rparr>)"
    using x \<open>a \<noteq> ?b\<close> by (auto simp: t_def dup_idling_def split: prod.splits)
  ultimately have copied: "IdlingStrategy_DeepCopyInto (var Idling_vars a) (var Idling_vars ?b) t
      = (Ret (), t\<lparr> mem_strategies := d\<lparr> sc_Idling := st_new x (sc_Idling ?c) \<rparr> \<rparr>)"
    by (simp add: IdlingStrategy_copied)
  have "copy_pointer Idling_vars z IdlingStrategy_DeepCopyInto
       (field sp_IdlingStrategy sp_IdlingStrategy_update inp)
       (field sp_IdlingStrategy sp_IdlingStrategy_update out) s
     = IdlingStrategy_DeepCopyInto (var Idling_vars a) (var Idling_vars ?b) t"
    using Some assms(1) by (intro copy_pointer_Some) (simp_all add: t_def Idling_vars_def)
  moreover have "q = Some ?b" "c = d\<lparr> sc_Idling := st_new x (sc_Idling ?c) \<rparr>"
    using dup Some x by (auto simp: dup_idling_pointer_def)
  ultimately show ?thesis using copied by (simp add: t_def)
qed

lemma wakeup_pointer_copied:
  assumes "sp_WakeupStrategy (pl_get inp s) = p" "sp_WakeupStrategy (pl_get out s) = p"
    and valid: "st_valid (sc_Wakeup (mem_strategies s)) p"
      "\<forall>a. p = Some a \<longrightarrow> wakeup_valid (mem_strategies s) (st_cells (sc_Wakeup (mem_strategies s)) a)"
    and dup: "dup_wakeup_pointer p (mem_strategies s) = (q, c)"
  shows "copy_pointer Wakeup_vars z WakeupStrategy_DeepCopyInto
       (field sp_WakeupStrategy sp_WakeupStrategy_update inp)
       (field sp_WakeupStrategy sp_WakeupStrategy_update out) s
     = (Ret (), pl_put out ((pl_get out s)\<lparr> sp_WakeupStrategy := q \<rparr>) (s\<lparr> mem_strategies := c \<rparr>))"
proof (cases p)
  case None
  then have same: "(pl_get out s)\<lparr> sp_WakeupStrategy := None \<rparr> = pl_get out s" using assms(2) by simp
  have "q = None" "c = mem_strategies s" using None dup by (auto simp: dup_wakeup_pointer_def)
  then show ?thesis using None assms(1) by (simp add: copy_pointer_None same)
next
  case (Some a)
  let ?c = "mem_strategies s" let ?b = "st_next (sc_Wakeup (mem_strategies s))"
  obtain x d where x: "dup_wakeup (st_cells (sc_Wakeup ?c) a) ?c = (x, d)" by (metis surj_pair)
  define t where "t = pl_put out ((pl_get out s)\<lparr> sp_WakeupStrategy := Some ?b \<rparr>)
      (mem_strategies_update (sc_Wakeup_update (st_new z)) s)"
  have "a \<noteq> ?b" using valid(1) Some by (simp add: st_valid_def)
  moreover have "wakeup_valid (mem_strategies t) (st_cells (sc_Wakeup (mem_strategies t)) a)"
    using valid(2) Some \<open>a \<noteq> ?b\<close> by (simp add: t_def wakeup_valid_def)
  moreover have "dup_wakeup (st_cells (sc_Wakeup (mem_strategies t)) a) (mem_strategies t)
      = (x, d\<lparr> sc_Wakeup := st_new z (sc_Wakeup ?c) \<rparr>)"
    using x \<open>a \<noteq> ?b\<close> by (auto simp: t_def dup_wakeup_def split: prod.splits)
  ultimately have copied: "WakeupStrategy_DeepCopyInto (var Wakeup_vars a) (var Wakeup_vars ?b) t
      = (Ret (), t\<lparr> mem_strategies := d\<lparr> sc_Wakeup := st_new x (sc_Wakeup ?c) \<rparr> \<rparr>)"
    by (simp add: WakeupStrategy_copied)
  have "copy_pointer Wakeup_vars z WakeupStrategy_DeepCopyInto
       (field sp_WakeupStrategy sp_WakeupStrategy_update inp)
       (field sp_WakeupStrategy sp_WakeupStrategy_update out) s
     = WakeupStrategy_DeepCopyInto (var Wakeup_vars a) (var Wakeup_vars ?b) t"
    using Some assms(1) by (intro copy_pointer_Some) (simp_all add: t_def Wakeup_vars_def)
  moreover have "q = Some ?b" "c = d\<lparr> sc_Wakeup := st_new x (sc_Wakeup ?c) \<rparr>"
    using dup Some x by (auto simp: dup_wakeup_pointer_def)
  ultimately show ?thesis using copied by (simp add: t_def)
qed

lemma Spec_copied:
  assumes valid: "spec_valid (mem_strategies s) (pl_get inp s)"
    and dup: "dup_spec (pl_get inp s) (mem_strategies s) = (x, c)"
  shows "IdlingResourceSpec_DeepCopyInto inp out s = (Ret (), pl_put out x (s\<lparr> mem_strategies := c \<rparr>))"
proof -
  let ?x = "pl_get inp s"
  obtain p d where p: "dup_idling_pointer (sp_IdlingStrategy ?x) (mem_strategies s) = (p, d)" by (metis surj_pair)
  obtain q e where q: "dup_wakeup_pointer (sp_WakeupStrategy ?x) d = (q, e)" by (metis surj_pair)
  define s1 where "s1 = pl_put out ?x s"
  define s2 where "s2 = pl_put out (?x\<lparr> sp_IdlingStrategy := p \<rparr>) (s\<lparr> mem_strategies := d \<rparr>)"
  have "copy_pointer Idling_vars z IdlingStrategy_DeepCopyInto
       (field sp_IdlingStrategy sp_IdlingStrategy_update inp)
       (field sp_IdlingStrategy sp_IdlingStrategy_update out) s1 = (Ret (), s2)" for z
    using valid p
    by (subst idling_pointer_copied [where p = "sp_IdlingStrategy ?x" and q = p and c = d])
      (simp_all add: s1_def s2_def spec_valid_def)
  moreover have "sc_Wakeup d = sc_Wakeup (mem_strategies s)" "wakeup_valid (mem_strategies s) y \<Longrightarrow> wakeup_valid d y" for y
    using p by (auto simp: dup_idling_pointer_def dup_idling_def wakeup_valid_def st_dup_def st_valid_def
        less_Suc_eq split: option.splits prod.splits)
  then have "copy_pointer Wakeup_vars z WakeupStrategy_DeepCopyInto
       (field sp_WakeupStrategy sp_WakeupStrategy_update inp)
       (field sp_WakeupStrategy sp_WakeupStrategy_update out) s2
     = (Ret (), pl_put out (?x\<lparr> sp_IdlingStrategy := p, sp_WakeupStrategy := q \<rparr>) (s\<lparr> mem_strategies := e \<rparr>))" for z
    using valid q
    by (subst wakeup_pointer_copied [where p = "sp_WakeupStrategy ?x" and q = q and c = e])
      (simp_all add: s2_def spec_valid_def)
  moreover have "x = ?x\<lparr> sp_IdlingStrategy := p, sp_WakeupStrategy := q \<rparr>" "c = e"
    using dup p q by (simp_all add: dup_spec_def)
  ultimately show ?thesis
    by (simp add: IdlingResourceSpec_DeepCopyInto_def go_bind_def s1_def)
qed

end


text \<open>The reference definition of the copy of a resource, with the library's metadata.\<close>

definition dup_resource :: "('m, 'l, 'x) meta_library \<Rightarrow> 'm resource_struct \<Rightarrow> ('m, 'l, 'x) memory \<Rightarrow>
     'm resource_struct \<times> ('m, 'l, 'x) memory" where
  "dup_resource lib x s =
     (let (m, l) = lib_ObjectMeta_copy lib (rs_ObjectMeta x) (mem_lib s);
          (sp, c) = dup_spec (rs_Spec x) (mem_strategies s)
      in (x\<lparr> rs_ObjectMeta := m, rs_Spec := sp \<rparr>, s\<lparr> mem_lib := l, mem_strategies := c \<rparr>))"

locale resource_places = copy_places inp out
  for inp out :: "(('m, 'l, 'x) memory, 'm resource_struct) place"

sublocale resource_places \<subseteq> specs: spec_places "field rs_Spec rs_Spec_update inp" "field rs_Spec rs_Spec_update out"
  by unfold_locales simp_all

context resource_places
begin

lemma Resource_copied:
  assumes valid: "spec_valid (mem_strategies s) (rs_Spec (pl_get inp s))"
    and dup: "dup_resource lib (pl_get inp s) s = (x, t)"
  shows "IdlingResource_DeepCopyInto lib inp out s = (Ret (), pl_put out x t)"
proof -
  let ?x = "pl_get inp s"
  obtain m l where m: "lib_ObjectMeta_copy lib (rs_ObjectMeta ?x) (mem_lib s) = (m, l)" by (metis surj_pair)
  obtain sp c where sp: "dup_spec (rs_Spec ?x) (mem_strategies s) = (sp, c)" by (metis surj_pair)
  define s1 where "s1 = pl_put out (?x\<lparr> rs_ObjectMeta := m \<rparr>) (s\<lparr> mem_lib := l \<rparr>)"
  have "IdlingResourceSpec_DeepCopyInto (field rs_Spec rs_Spec_update inp) (field rs_Spec rs_Spec_update out) s1
      = (Ret (), pl_put (field rs_Spec rs_Spec_update out) sp (s1\<lparr> mem_strategies := c \<rparr>))"
    using valid sp by (intro specs.Spec_copied) (simp_all add: s1_def)
  moreover have "x = ?x\<lparr> rs_ObjectMeta := m, rs_Spec := sp \<rparr>" "t = s\<lparr> mem_lib := l, mem_strategies := c \<rparr>"
    using dup m sp by (simp_all add: dup_resource_def)
  ultimately show ?thesis
    using m by (simp add: IdlingResource_DeepCopyInto_def meta_DeepCopyInto_def go_bind_def s1_def)
qed

end

lemma memory_update_same [simp]:
  "mem_Spec_update (st_set a (st_cells (mem_Spec s) a)) s = s"
  "mem_IdlingResource_update (st_set a (st_cells (mem_IdlingResource s) a)) s = s"
  "s\<lparr> mem_Array := st_set a (st_cells (mem_Array s) a) (mem_Array s) \<rparr> = s"
  by (cases s; simp)+

text \<open>
  The places the copies run between: the receiver and a variable after it, as every new variable is,
  and the elements of two arrays, of which the copy's comes later.
\<close>

interpretation spec_variables: spec_places "var Spec_vars a" "var Spec_vars (a + Suc k)" for a k
  by unfold_locales (simp_all add: var_def Spec_vars_def)

interpretation resource_variables: resource_places "var Resource_vars a" "var Resource_vars (a + Suc k)" for a k
  by unfold_locales (simp_all add: var_def Resource_vars_def)

interpretation resource_elements: resource_places
    "element \<lparr> sl_array = a, sl_offset = off, sl_len = n \<rparr> i"
    "element \<lparr> sl_array = a + Suc k, sl_offset = off', sl_len = n' \<rparr> i'" for a k off off' n n' i i'
  by unfold_locales (simp_all add: element_def)


section \<open>What the copies read as\<close>

text \<open>
  A strategy and a specification as values, and the variables they reach as new: every variable of
  the copy is one that \<open>c\<close>, the memory before, did not have in use.
\<close>

definition read_idling :: "strategy_cells \<Rightarrow> idling_struct \<Rightarrow> IdlingStrategy" where
  "read_idling c x =
     \<lparr> is_CronStrategy = st_read (sc_Cron c) (i_CronStrategy x),
       is_InactiveStrategy = st_read (sc_Inactive c) (i_InactiveStrategy x) \<rparr>"

definition read_wakeup :: "strategy_cells \<Rightarrow> wakeup_struct \<Rightarrow> WakeupStrategy" where
  "read_wakeup c x =
     \<lparr> ws_CronStrategy = st_read (sc_Cron c) (w_CronStrategy x),
       ws_OnCallStrategy = st_read (sc_OnCall c) (w_OnCallStrategy x) \<rparr>"

definition read_spec :: "strategy_cells \<Rightarrow> spec_struct \<Rightarrow> IdlingResourceSpec" where
  "read_spec c x =
     \<lparr> spec_IdlingResourceRef = sp_IdlingResourceRef x, spec_Idle = sp_Idle x,
       spec_IdlingStrategy = map_option (read_idling c) (st_read (sc_Idling c) (sp_IdlingStrategy x)),
       spec_WakeupStrategy = map_option (read_wakeup c) (st_read (sc_Wakeup c) (sp_WakeupStrategy x)) \<rparr>"

definition idling_fresh :: "strategy_cells \<Rightarrow> idling_struct \<Rightarrow> bool" where
  "idling_fresh c x \<longleftrightarrow> st_fresh (sc_Cron c) (i_CronStrategy x) \<and> st_fresh (sc_Inactive c) (i_InactiveStrategy x)"

definition wakeup_fresh :: "strategy_cells \<Rightarrow> wakeup_struct \<Rightarrow> bool" where
  "wakeup_fresh c x \<longleftrightarrow> st_fresh (sc_Cron c) (w_CronStrategy x) \<and> st_fresh (sc_OnCall c) (w_OnCallStrategy x)"

definition spec_fresh :: "strategy_cells \<Rightarrow> strategy_cells \<Rightarrow> spec_struct \<Rightarrow> bool" where
  "spec_fresh c c' x \<longleftrightarrow>
     st_fresh (sc_Idling c) (sp_IdlingStrategy x) \<and> st_fresh (sc_Wakeup c) (sp_WakeupStrategy x) \<and>
     (\<forall>a. sp_IdlingStrategy x = Some a \<longrightarrow> idling_fresh c (st_cells (sc_Idling c') a)) \<and>
     (\<forall>a. sp_WakeupStrategy x = Some a \<longrightarrow> wakeup_fresh c (st_cells (sc_Wakeup c') a))"

definition strategies_grow :: "strategy_cells \<Rightarrow> strategy_cells \<Rightarrow> bool" where
  "strategies_grow c c' \<longleftrightarrow>
     st_grows (sc_Cron c) (sc_Cron c') \<and> st_grows (sc_Inactive c) (sc_Inactive c') \<and>
     st_grows (sc_OnCall c) (sc_OnCall c') \<and> st_grows (sc_Idling c) (sc_Idling c') \<and>
     st_grows (sc_Wakeup c) (sc_Wakeup c')"

lemma strategies_grow_refl [simp]: "strategies_grow c c"
  by (simp add: strategies_grow_def)

lemma strategies_grow_trans: "strategies_grow c d \<Longrightarrow> strategies_grow d e \<Longrightarrow> strategies_grow c e"
  unfolding strategies_grow_def by (blast intro: st_grows_trans)

lemmas st_kept = st_read_grows st_valid_grows st_fresh_grows

lemma idling_grows:
  assumes "strategies_grow c d" "idling_valid c x"
  shows "idling_valid d x \<and> read_idling d x = read_idling c x"
  using assms by (auto simp: idling_valid_def read_idling_def strategies_grow_def st_kept)

lemma wakeup_grows:
  assumes "strategies_grow c d" "wakeup_valid c x"
  shows "wakeup_valid d x \<and> read_wakeup d x = read_wakeup c x"
  using assms by (auto simp: wakeup_valid_def read_wakeup_def strategies_grow_def st_kept)

lemma spec_grows:
  assumes "strategies_grow c d" "spec_valid c x"
  shows "spec_valid d x \<and> read_spec d x = read_spec c x"
proof -
  have p: "st_valid (sc_Idling d) (sp_IdlingStrategy x)" "st_read (sc_Idling d) (sp_IdlingStrategy x) = st_read (sc_Idling c) (sp_IdlingStrategy x)"
    and q: "st_valid (sc_Wakeup d) (sp_WakeupStrategy x)" "st_read (sc_Wakeup d) (sp_WakeupStrategy x) = st_read (sc_Wakeup c) (sp_WakeupStrategy x)"
    using assms unfolding strategies_grow_def spec_valid_def by (blast intro: st_kept)+
  have i: "st_cells (sc_Idling d) a = st_cells (sc_Idling c) a \<and> idling_valid c (st_cells (sc_Idling c) a)"
    if "sp_IdlingStrategy x = Some a" for a
    using assms that by (simp add: strategies_grow_def spec_valid_def st_valid_def st_growsD)
  have w: "st_cells (sc_Wakeup d) a = st_cells (sc_Wakeup c) a \<and> wakeup_valid c (st_cells (sc_Wakeup c) a)"
    if "sp_WakeupStrategy x = Some a" for a
    using assms that by (simp add: strategies_grow_def spec_valid_def st_valid_def st_growsD)
  show ?thesis
    unfolding spec_valid_def read_spec_def p q using i w idling_grows [OF assms(1)] wakeup_grows [OF assms(1)]
    by (auto simp: st_read_def map_option_case p q split: option.splits)
qed

lemma dup_idling_correct:
  assumes "dup_idling x c = (y, d)" "idling_valid c x"
  shows "strategies_grow c d \<and> idling_valid d y \<and> idling_fresh c y \<and> read_idling d y = read_idling c x \<and>
     sc_Idling d = sc_Idling c"
  using assms st_dup_correct [of "i_CronStrategy x" "sc_Cron c"] st_dup_correct [of "i_InactiveStrategy x" "sc_Inactive c"]
  by (auto simp: dup_idling_def idling_valid_def idling_fresh_def read_idling_def strategies_grow_def
      split: prod.splits)

lemma dup_wakeup_correct:
  assumes "dup_wakeup x c = (y, d)" "wakeup_valid c x"
  shows "strategies_grow c d \<and> wakeup_valid d y \<and> wakeup_fresh c y \<and> read_wakeup d y = read_wakeup c x \<and>
     sc_Wakeup d = sc_Wakeup c"
  using assms st_dup_correct [of "w_CronStrategy x" "sc_Cron c"] st_dup_correct [of "w_OnCallStrategy x" "sc_OnCall c"]
  by (auto simp: dup_wakeup_def wakeup_valid_def wakeup_fresh_def read_wakeup_def strategies_grow_def
      split: prod.splits)

lemma dup_idling_pointer_correct:
  assumes "dup_idling_pointer p c = (q, d)" "st_valid (sc_Idling c) p"
    and "\<forall>a. p = Some a \<longrightarrow> idling_valid c (st_cells (sc_Idling c) a)"
  shows "strategies_grow c d \<and> st_valid (sc_Idling d) q \<and> st_fresh (sc_Idling c) q \<and>
     (\<forall>b. q = Some b \<longrightarrow> idling_valid d (st_cells (sc_Idling d) b) \<and> idling_fresh c (st_cells (sc_Idling d) b)) \<and>
     map_option (read_idling d) (st_read (sc_Idling d) q) = map_option (read_idling c) (st_read (sc_Idling c) p)"
proof (cases p)
  case None
  then show ?thesis using assms(1) by (simp add: dup_idling_pointer_def st_valid_def st_fresh_def st_read_def)
next
  case (Some a)
  obtain x e where x: "dup_idling (st_cells (sc_Idling c) a) c = (x, e)" by (metis surj_pair)
  have "q = Some (st_next (sc_Idling c))" "d = e\<lparr> sc_Idling := st_new x (sc_Idling c) \<rparr>"
    using assms(1) Some x by (auto simp: dup_idling_pointer_def)
  then show ?thesis
    using Some assms(3) dup_idling_correct [OF x]
    by (auto simp: st_valid_def st_fresh_def st_read_def strategies_grow_def idling_valid_def idling_fresh_def
        read_idling_def)
qed

lemma dup_wakeup_pointer_correct:
  assumes "dup_wakeup_pointer p c = (q, d)" "st_valid (sc_Wakeup c) p"
    and "\<forall>a. p = Some a \<longrightarrow> wakeup_valid c (st_cells (sc_Wakeup c) a)"
  shows "strategies_grow c d \<and> st_valid (sc_Wakeup d) q \<and> st_fresh (sc_Wakeup c) q \<and>
     (\<forall>b. q = Some b \<longrightarrow> wakeup_valid d (st_cells (sc_Wakeup d) b) \<and> wakeup_fresh c (st_cells (sc_Wakeup d) b)) \<and>
     map_option (read_wakeup d) (st_read (sc_Wakeup d) q) = map_option (read_wakeup c) (st_read (sc_Wakeup c) p)"
proof (cases p)
  case None
  then show ?thesis using assms(1) by (simp add: dup_wakeup_pointer_def st_valid_def st_fresh_def st_read_def)
next
  case (Some a)
  obtain x e where x: "dup_wakeup (st_cells (sc_Wakeup c) a) c = (x, e)" by (metis surj_pair)
  have "q = Some (st_next (sc_Wakeup c))" "d = e\<lparr> sc_Wakeup := st_new x (sc_Wakeup c) \<rparr>"
    using assms(1) Some x by (auto simp: dup_wakeup_pointer_def)
  then show ?thesis
    using Some assms(3) dup_wakeup_correct [OF x]
    by (auto simp: st_valid_def st_fresh_def st_read_def strategies_grow_def wakeup_valid_def wakeup_fresh_def
        read_wakeup_def)
qed

lemma dup_spec_correct:
  assumes "dup_spec x c = (y, d)" "spec_valid c x"
  shows "strategies_grow c d \<and> spec_valid d y \<and> spec_fresh c d y \<and> read_spec d y = read_spec c x"
proof -
  obtain p e where p: "dup_idling_pointer (sp_IdlingStrategy x) c = (p, e)" by (metis surj_pair)
  obtain q f where q: "dup_wakeup_pointer (sp_WakeupStrategy x) e = (q, f)" by (metis surj_pair)
  have y: "y = x\<lparr> sp_IdlingStrategy := p, sp_WakeupStrategy := q \<rparr>" "f = d"
    using assms(1) p q by (auto simp: dup_spec_def)
  have i: "strategies_grow c e \<and> st_valid (sc_Idling e) p \<and> st_fresh (sc_Idling c) p \<and>
     (\<forall>b. p = Some b \<longrightarrow> idling_valid e (st_cells (sc_Idling e) b) \<and> idling_fresh c (st_cells (sc_Idling e) b)) \<and>
     map_option (read_idling e) (st_read (sc_Idling e) p) = spec_IdlingStrategy (read_spec c x)"
    using dup_idling_pointer_correct [OF p] assms(2) by (auto simp: spec_valid_def read_spec_def)
  have x': "spec_valid e x" "read_spec e x = read_spec c x"
    using spec_grows [of c e x] i assms(2) by simp_all
  have w: "strategies_grow e d \<and> st_valid (sc_Wakeup d) q \<and> st_fresh (sc_Wakeup e) q \<and>
     (\<forall>b. q = Some b \<longrightarrow> wakeup_valid d (st_cells (sc_Wakeup d) b) \<and> wakeup_fresh e (st_cells (sc_Wakeup d) b)) \<and>
     map_option (read_wakeup d) (st_read (sc_Wakeup d) q) = spec_WakeupStrategy (read_spec c x)"
    using dup_wakeup_pointer_correct [OF q] x' y(2) by (auto simp: spec_valid_def read_spec_def)
  define z where "z = x\<lparr> sp_IdlingStrategy := p, sp_WakeupStrategy := None \<rparr>"
  have "spec_valid e z" using i by (auto simp: z_def spec_valid_def st_valid_def)
  then have z: "spec_valid d z" "read_spec d z = read_spec e z"
    using spec_grows [of e d z] w by simp_all
  have cells: "st_cells (sc_Idling d) b = st_cells (sc_Idling e) b" if "p = Some b" for b
    using w i that by (simp add: strategies_grow_def st_valid_def st_growsD)
  have "spec_valid d y" using z(1) w by (auto simp: y z_def spec_valid_def)
  moreover have "read_spec d y = read_spec c x"
    using arg_cong [OF z(2), of spec_IdlingStrategy] i w by (simp add: y z_def read_spec_def)
  moreover have "wakeup_fresh c v" if "wakeup_fresh e v" for v
    using that i by (auto simp: wakeup_fresh_def strategies_grow_def st_kept)
  then have "spec_fresh c d y"
    using i w cells by (auto simp: y spec_fresh_def strategies_grow_def intro: st_kept(3))
  ultimately show ?thesis using i w strategies_grow_trans by blast
qed

end
