(* ===== verification/Copy_Properties.thy ===== *)
theory Copy_Properties
  imports Copy_Facts
begin

text \<open>
  The copies of an \<open>IdlingResource\<close> and of an \<open>IdlingResourceList\<close> read as the original and share
  no variable with it or with anything else that existed, so that no write through the copy
  changes what was there. That the library copies metadata so is a hypothesis.
\<close>

section \<open>The whole memory\<close>

text \<open>
  How the library's metadata is read in its memory, and which of the memory's cells it reaches;
  \<open>mv_used\<close> are the cells in use.
\<close>

record ('m, 'l, 'x) meta_view =
  mv_used :: "'x \<Rightarrow> nat set"
  mv_cells :: "'x \<Rightarrow> 'm \<Rightarrow> nat set"
  mv_value :: "'x \<Rightarrow> 'm \<Rightarrow> object_meta"
  mv_list_cells :: "'x \<Rightarrow> 'l \<Rightarrow> nat set"
  mv_list_value :: "'x \<Rightarrow> 'l \<Rightarrow> string"

definition lib_grows :: "('m, 'l, 'x) meta_view \<Rightarrow> 'x \<Rightarrow> 'x \<Rightarrow> bool" where
  "lib_grows V x x' \<longleftrightarrow> mv_used V x \<subseteq> mv_used V x' \<and>
     (\<forall>m. mv_cells V x m \<subseteq> mv_used V x \<longrightarrow> mv_cells V x' m = mv_cells V x m \<and> mv_value V x' m = mv_value V x m) \<and>
     (\<forall>l. mv_list_cells V x l \<subseteq> mv_used V x \<longrightarrow>
        mv_list_cells V x' l = mv_list_cells V x l \<and> mv_list_value V x' l = mv_list_value V x l)"

definition copy_contract :: "('m, 'l, 'x) meta_view \<Rightarrow> ('m, 'l, 'x) meta_library \<Rightarrow> bool" where
  "copy_contract V lib \<longleftrightarrow>
     (\<forall>m x m' x'. mv_cells V x m \<subseteq> mv_used V x \<longrightarrow> lib_ObjectMeta_copy lib m x = (m', x') \<longrightarrow>
        lib_grows V x x' \<and> mv_cells V x' m' \<subseteq> mv_used V x' - mv_used V x \<and> mv_value V x' m' = mv_value V x m) \<and>
     (\<forall>l x l' x'. mv_list_cells V x l \<subseteq> mv_used V x \<longrightarrow> lib_ListMeta_copy lib l x = (l', x') \<longrightarrow>
        lib_grows V x x' \<and> mv_list_cells V x' l' \<subseteq> mv_used V x' - mv_used V x \<and>
        mv_list_value V x' l' = mv_list_value V x l)"

lemma lib_grows_refl [simp]: "lib_grows V x x"
  by (simp add: lib_grows_def)

lemma lib_growsD:
  assumes "lib_grows V x y"
  shows "mv_used V x \<subseteq> mv_used V y"
    and "mv_cells V x m \<subseteq> mv_used V x \<Longrightarrow> mv_cells V y m = mv_cells V x m \<and> mv_value V y m = mv_value V x m"
    and "mv_list_cells V x l \<subseteq> mv_used V x \<Longrightarrow>
       mv_list_cells V y l = mv_list_cells V x l \<and> mv_list_value V y l = mv_list_value V x l"
  using assms unfolding lib_grows_def by simp_all

lemma lib_grows_trans:
  assumes xy: "lib_grows V x y" and yz: "lib_grows V y z"
  shows "lib_grows V x z"
proof -
  note used = lib_growsD(1) [OF xy] lib_growsD(1) [OF yz]
  have "mv_cells V z m = mv_cells V x m \<and> mv_value V z m = mv_value V x m"
    if "mv_cells V x m \<subseteq> mv_used V x" for m
    using lib_growsD(2) [OF xy that] lib_growsD(2) [OF yz, of m] subset_trans [OF that used(1)] by simp
  moreover have "mv_list_cells V z l = mv_list_cells V x l \<and> mv_list_value V z l = mv_list_value V x l"
    if "mv_list_cells V x l \<subseteq> mv_used V x" for l
    using lib_growsD(3) [OF xy that] lib_growsD(3) [OF yz, of l] subset_trans [OF that used(1)] by simp
  ultimately show ?thesis unfolding lib_grows_def using subset_trans [OF used] by simp
qed

text \<open>Nothing that was in use has changed: every variable, and every metadata.\<close>

definition mem_grows :: "('m, 'l, 'x) meta_view \<Rightarrow> ('m, 'l, 'x) memory \<Rightarrow> ('m, 'l, 'x) memory \<Rightarrow> bool" where
  "mem_grows V s t \<longleftrightarrow>
     strategies_grow (mem_strategies s) (mem_strategies t) \<and>
     st_grows (mem_Reference s) (mem_Reference t) \<and> st_grows (mem_Status s) (mem_Status t) \<and>
     st_grows (mem_Spec s) (mem_Spec t) \<and> st_grows (mem_IdlingResource s) (mem_IdlingResource t) \<and>
     st_grows (mem_Array s) (mem_Array t) \<and> st_grows (mem_List s) (mem_List t) \<and>
     lib_grows V (mem_lib s) (mem_lib t)"

section \<open>A resource\<close>

definition read_resource :: "('m, 'l, 'x) meta_view \<Rightarrow> ('m, 'l, 'x) memory \<Rightarrow> 'm resource_struct \<Rightarrow> IdlingResource" where
  "read_resource V s x =
     \<lparr> ir_TypeMeta = rs_TypeMeta x, ir_meta = mv_value V (mem_lib s) (rs_ObjectMeta x),
       ir_Spec = read_spec (mem_strategies s) (rs_Spec x), ir_Status = rs_Status x \<rparr>"

definition resource_valid :: "('m, 'l, 'x) meta_view \<Rightarrow> ('m, 'l, 'x) memory \<Rightarrow> 'm resource_struct \<Rightarrow> bool" where
  "resource_valid V s x \<longleftrightarrow>
     mv_cells V (mem_lib s) (rs_ObjectMeta x) \<subseteq> mv_used V (mem_lib s) \<and> spec_valid (mem_strategies s) (rs_Spec x)"

text \<open>\<open>y\<close> in the memory \<open>t\<close> is a copy of \<open>x\<close> in \<open>s\<close>, and reaches nothing that was in use in \<open>s\<close>.\<close>

definition separate_copy :: "('m, 'l, 'x) meta_view \<Rightarrow> ('m, 'l, 'x) memory \<Rightarrow> 'm resource_struct \<Rightarrow>
     ('m, 'l, 'x) memory \<Rightarrow> 'm resource_struct \<Rightarrow> bool" where
  "separate_copy V s x t y \<longleftrightarrow>
     read_resource V t y = read_resource V s x \<and> resource_valid V t y \<and>
     mv_cells V (mem_lib t) (rs_ObjectMeta y) \<inter> mv_used V (mem_lib s) = {} \<and>
     spec_fresh (mem_strategies s) (mem_strategies t) (rs_Spec y)"

lemma resource_grows:
  assumes "strategies_grow (mem_strategies s) (mem_strategies t)" "lib_grows V (mem_lib s) (mem_lib t)"
    and "resource_valid V s x"
  shows "resource_valid V t x \<and> read_resource V t x = read_resource V s x"
  using assms(3) spec_grows [OF assms(1), of "rs_Spec x"] lib_growsD(1,2) [OF assms(2)]
  by (auto simp: resource_valid_def read_resource_def)

lemma dup_resource_correct:
  assumes contract: "copy_contract V lib" and valid: "resource_valid V s x"
    and dup: "dup_resource lib x s = (y, t)"
  shows "separate_copy V s x t y \<and> strategies_grow (mem_strategies s) (mem_strategies t) \<and>
     lib_grows V (mem_lib s) (mem_lib t) \<and> (\<exists>l c. t = s\<lparr> mem_lib := l, mem_strategies := c \<rparr>)"
proof -
  obtain m l where m: "lib_ObjectMeta_copy lib (rs_ObjectMeta x) (mem_lib s) = (m, l)" by (metis surj_pair)
  obtain sp c where sp: "dup_spec (rs_Spec x) (mem_strategies s) = (sp, c)" by (metis surj_pair)
  have y: "y = x\<lparr> rs_ObjectMeta := m, rs_Spec := sp \<rparr>" "t = s\<lparr> mem_lib := l, mem_strategies := c \<rparr>"
    using dup m sp by (simp_all add: dup_resource_def)
  have "lib_grows V (mem_lib s) l" "mv_cells V l m \<subseteq> mv_used V l - mv_used V (mem_lib s)"
    "mv_value V l m = mv_value V (mem_lib s) (rs_ObjectMeta x)"
    using contract m valid unfolding copy_contract_def resource_valid_def by blast+
  then show ?thesis
    using dup_spec_correct [OF sp] valid y
    by (auto simp: separate_copy_def resource_valid_def read_resource_def)
qed

text \<open>The copy of a variable into a later one.\<close>

lemma IdlingResource_DeepCopy_run:
  assumes contract: "copy_contract V lib" and p: "p < st_next (mem_IdlingResource s)"
    and valid: "resource_valid V s (st_cells (mem_IdlingResource s) p)"
  shows "\<exists>t y. IdlingResource_DeepCopy lib (Some p) s
       = (Ret (Some (st_next (mem_IdlingResource s))),
          t\<lparr> mem_IdlingResource := st_new y (mem_IdlingResource s) \<rparr>) \<and>
     separate_copy V s (st_cells (mem_IdlingResource s) p) t y \<and>
     strategies_grow (mem_strategies s) (mem_strategies t) \<and> lib_grows V (mem_lib s) (mem_lib t) \<and>
     (\<exists>l c. t = s\<lparr> mem_lib := l, mem_strategies := c \<rparr>)"
proof -
  let ?x = "st_cells (mem_IdlingResource s) p"
  obtain k where k: "st_next (mem_IdlingResource s) = p + Suc k" using p by (metis add_Suc_right less_iff_Suc_add)
  define s1 where "s1 = snd Resource_vars (st_new (zero_resource lib)) s"
  have x: "pl_get (var Resource_vars p) s1 = ?x" using p by (simp add: s1_def var_def Resource_vars_def)
  obtain y t where dup: "dup_resource lib ?x s = (y, t)" by (metis surj_pair)
  have t: "separate_copy V s ?x t y \<and> strategies_grow (mem_strategies s) (mem_strategies t) \<and>
     lib_grows V (mem_lib s) (mem_lib t) \<and> (\<exists>l c. t = s\<lparr> mem_lib := l, mem_strategies := c \<rparr>)"
    by (rule dup_resource_correct [OF contract valid dup])
  have "dup_resource lib ?x s1 = (y, t\<lparr> mem_IdlingResource := mem_IdlingResource s1 \<rparr>)"
    using dup by (auto simp: dup_resource_def s1_def Resource_vars_def split: prod.splits)
  then have "IdlingResource_DeepCopyInto lib (var Resource_vars p) (var Resource_vars (p + Suc k)) s1
      = (Ret (), pl_put (var Resource_vars (p + Suc k)) y (t\<lparr> mem_IdlingResource := mem_IdlingResource s1 \<rparr>))"
    using valid x by (intro resource_variables.Resource_copied) (simp_all add: resource_valid_def s1_def Resource_vars_def)
  moreover have "pl_put (var Resource_vars (p + Suc k)) y (t\<lparr> mem_IdlingResource := mem_IdlingResource s1 \<rparr>)
      = t\<lparr> mem_IdlingResource := st_new y (mem_IdlingResource s) \<rparr>"
    using st_set_new [of "mem_IdlingResource s" y] k by (simp add: var_def s1_def Resource_vars_def comp_def)
  ultimately have "IdlingResource_DeepCopy lib (Some p) s
      = (Ret (Some (p + Suc k)), t\<lparr> mem_IdlingResource := st_new y (mem_IdlingResource s) \<rparr>)"
    unfolding IdlingResource_DeepCopy_def
    by (intro copy_to_new_Some) (simp_all add: k s1_def Resource_vars_def)
  then show ?thesis using t k by metis
qed

text \<open>
  A small memory: one instance with a cron strategy, alone and in a list. The library's metadata are
  handles of cells.
\<close>

definition demo_meta_library :: "(nat, string, object_meta list) meta_library" where
  "demo_meta_library =
     \<lparr> lib_ObjectMeta = 0, lib_ListMeta = '''',
       lib_ObjectMeta_copy = (\<lambda>m x. (length x, x @ [x ! m])), lib_ListMeta_copy = (\<lambda>l x. (l, x)) \<rparr>"

definition demo_meta_view :: "(nat, string, object_meta list) meta_view" where
  "demo_meta_view =
     \<lparr> mv_used = (\<lambda>x. {..<length x}), mv_cells = (\<lambda>x m. {m}), mv_value = (\<lambda>x m. x ! m),
       mv_list_cells = (\<lambda>x l. {}), mv_list_value = (\<lambda>x l. l) \<rparr>"

lemma demo_copy_contract: "copy_contract demo_meta_view demo_meta_library"
  by (auto simp: copy_contract_def lib_grows_def demo_meta_view_def demo_meta_library_def nth_append)

definition empty_store :: "'v \<Rightarrow> 'v store" where
  "empty_store v = \<lparr> st_next = 0, st_cells = (\<lambda>_. v) \<rparr>"

lemma empty_store_simps [simp]: "st_next (empty_store v) = 0" "st_cells (empty_store v) a = v"
  by (simp_all add: empty_store_def)

definition demo_struct :: "nat resource_struct" where
  "demo_struct =
     \<lparr> rs_TypeMeta = zero_type_meta, rs_ObjectMeta = 0,
       rs_Spec = zero_spec\<lparr> sp_IdlingStrategy := Some 0 \<rparr>, rs_Status = IdlingResourceStatus \<rparr>"

definition demo_memory :: "(nat, string, object_meta list) memory" where
  "demo_memory =
     (let cron = \<lparr> cs_Schedule = ''0 20 * * *'' \<rparr>;
          idling = \<lparr> i_CronStrategy = Some 0, i_InactiveStrategy = None \<rparr>
      in \<lparr> mem_strategies =
             \<lparr> sc_Cron = st_new cron (empty_store cron), sc_Inactive = empty_store InactiveStrategy,
               sc_OnCall = empty_store OnCallStrategy, sc_Idling = st_new idling (empty_store idling),
               sc_Wakeup = empty_store \<lparr> w_CronStrategy = None, w_OnCallStrategy = None \<rparr> \<rparr>,
           mem_Reference = empty_store zero_reference, mem_Status = empty_store IdlingResourceStatus,
           mem_Spec = empty_store zero_spec,
           mem_IdlingResource = st_new demo_struct (empty_store demo_struct),
           mem_Array = st_new (\<lambda>_. demo_struct) (empty_store (\<lambda>_. demo_struct)),
           mem_List = st_new
             \<lparr> ls_TypeMeta = zero_type_meta, ls_ListMeta = '''',
               ls_Items = Some \<lparr> sl_array = 0, sl_offset = 0, sl_len = 1 \<rparr> \<rparr>
             (empty_store (zero_list demo_meta_library)),
           mem_lib = [ObjectMeta ''default'' ''web-idler''] \<rparr>)"

lemma demo_memory_simps:
  "mem_strategies demo_memory =
     \<lparr> sc_Cron = st_new \<lparr> cs_Schedule = ''0 20 * * *'' \<rparr> (empty_store \<lparr> cs_Schedule = ''0 20 * * *'' \<rparr>),
       sc_Inactive = empty_store InactiveStrategy, sc_OnCall = empty_store OnCallStrategy,
       sc_Idling = st_new \<lparr> i_CronStrategy = Some 0, i_InactiveStrategy = None \<rparr>
         (empty_store \<lparr> i_CronStrategy = Some 0, i_InactiveStrategy = None \<rparr>),
       sc_Wakeup = empty_store \<lparr> w_CronStrategy = None, w_OnCallStrategy = None \<rparr> \<rparr>"
  "st_next (mem_IdlingResource demo_memory) = 1" "st_cells (mem_IdlingResource demo_memory) 0 = demo_struct"
  "st_next (mem_List demo_memory) = 1" "st_next (mem_Array demo_memory) = 1"
  "st_cells (mem_Array demo_memory) 0 i = demo_struct"
  "st_cells (mem_List demo_memory) 0 =
     \<lparr> ls_TypeMeta = zero_type_meta, ls_ListMeta = '''',
       ls_Items = Some \<lparr> sl_array = 0, sl_offset = 0, sl_len = 1 \<rparr> \<rparr>"
  "mem_lib demo_memory = [ObjectMeta ''default'' ''web-idler'']"
  by (simp_all add: demo_memory_def Let_def)

lemma demo_struct_valid: "resource_valid demo_meta_view demo_memory demo_struct"
  by (simp add: resource_valid_def demo_memory_simps demo_meta_view_def demo_struct_def spec_valid_def
      zero_spec_def st_valid_def idling_valid_def)

lemma demo_struct_read:
  "spec_IdlingStrategy (ir_Spec (read_resource demo_meta_view demo_memory demo_struct))
     = Some \<lparr> is_CronStrategy = Some \<lparr> cs_Schedule = ''0 20 * * *'' \<rparr>, is_InactiveStrategy = None \<rparr>"
  "om_Name (ir_meta (read_resource demo_meta_view demo_memory demo_struct)) = ''web-idler''"
  by (simp_all add: read_resource_def demo_memory_simps demo_meta_view_def demo_struct_def
      zero_spec_def read_spec_def read_idling_def st_read_def ObjectMeta_def)

text \<open>
  C38: \<open>DeepCopy\<close> of an instance gives nil for nil, and otherwise a pointer to a new variable that reads
  as the instance did and reaches no variable that existed before; nothing that existed has
  changed, and \<open>DeepCopyObject\<close> gives the same pointer as an object, or the nil interface for nil.
\<close>

theorem IdlingResource_DeepCopy_correct:
  assumes "copy_contract V lib" "p < st_next (mem_IdlingResource s)"
    and "resource_valid V s (st_cells (mem_IdlingResource s) p)"
  shows "\<exists>q t. IdlingResource_DeepCopy lib (Some p) s = (Ret (Some q), t) \<and>
     IdlingResource_DeepCopyObject lib (Some p) s = (Ret (Some (Object_IdlingResource q)), t) \<and>
     IdlingResource_DeepCopy lib None s = (Ret None, s) \<and>
     IdlingResource_DeepCopyObject lib None s = (Ret None, s) \<and>
     st_next (mem_IdlingResource s) \<le> q \<and> mem_grows V s t \<and>
     separate_copy V s (st_cells (mem_IdlingResource s) p) t (st_cells (mem_IdlingResource t) q)"
proof -
  have nil: "IdlingResource_DeepCopy lib None s = (Ret None, s)"
    by (simp add: IdlingResource_DeepCopy_def)
  obtain t y where run: "IdlingResource_DeepCopy lib (Some p) s
       = (Ret (Some (st_next (mem_IdlingResource s))),
          t\<lparr> mem_IdlingResource := st_new y (mem_IdlingResource s) \<rparr>)"
    and t: "separate_copy V s (st_cells (mem_IdlingResource s) p) t y"
      "strategies_grow (mem_strategies s) (mem_strategies t)" "lib_grows V (mem_lib s) (mem_lib t)"
      "\<exists>l c. t = s\<lparr> mem_lib := l, mem_strategies := c \<rparr>"
    using IdlingResource_DeepCopy_run [OF assms] by blast
  then show ?thesis
    using nil
    by (auto simp: IdlingResource_DeepCopyObject_def go_bind_def mem_grows_def separate_copy_def
        read_resource_def resource_valid_def)
qed

theorem IdlingResource_DeepCopy_correct_witness:
  "\<exists>q t. IdlingResource_DeepCopy demo_meta_library (Some 0) demo_memory = (Ret (Some q), t) \<and> 0 < q \<and>
     om_Name (ir_meta (read_resource demo_meta_view t (st_cells (mem_IdlingResource t) q))) = ''web-idler'' \<and>
     sp_IdlingStrategy (rs_Spec (st_cells (mem_IdlingResource t) q)) \<noteq> Some 0"
proof -
  obtain q t where run: "IdlingResource_DeepCopy demo_meta_library (Some 0) demo_memory = (Ret (Some q), t)"
    and "1 \<le> q" and copy: "separate_copy demo_meta_view demo_memory demo_struct t (st_cells (mem_IdlingResource t) q)"
    using IdlingResource_DeepCopy_correct [OF demo_copy_contract, of 0 demo_memory] demo_struct_valid
    by (auto simp: demo_memory_simps)
  then show ?thesis
    using demo_struct_read by (auto simp: separate_copy_def spec_fresh_def st_fresh_def demo_memory_simps)
qed

section \<open>A list of resources\<close>

text \<open>Copies stay what they are when the memory grows, before and after.\<close>

lemma spec_fresh_earlier:
  assumes "strategies_grow c d" "spec_fresh d e x"
  shows "spec_fresh c e x"
  using assms unfolding strategies_grow_def spec_fresh_def idling_fresh_def wakeup_fresh_def
  by (blast intro: st_fresh_grows)

lemma spec_fresh_later:
  assumes "strategies_grow d e" "spec_fresh c d x" "spec_valid d x"
  shows "spec_fresh c e x"
  using assms by (auto simp: strategies_grow_def spec_fresh_def spec_valid_def st_valid_def st_growsD)

lemma separate_copy_earlier:
  assumes "strategies_grow (mem_strategies r) (mem_strategies s)" "lib_grows V (mem_lib r) (mem_lib s)"
    and "resource_valid V r x" "separate_copy V s x t y"
  shows "separate_copy V r x t y"
  using assms(4) resource_grows [OF assms(1-3)] spec_fresh_earlier [OF assms(1)] lib_growsD(1) [OF assms(2)]
  unfolding separate_copy_def by auto

lemma separate_copy_later:
  assumes "strategies_grow (mem_strategies t) (mem_strategies u)" "lib_grows V (mem_lib t) (mem_lib u)"
    and "separate_copy V s x t y"
  shows "separate_copy V s x u y"
proof -
  have y: "resource_valid V t y" using assms(3) by (simp add: separate_copy_def)
  show ?thesis
    using assms(3) resource_grows [OF assms(1,2) y] y spec_fresh_later [OF assms(1)] lib_growsD(2) [OF assms(2)]
    unfolding separate_copy_def by (simp add: resource_valid_def)
qed

abbreviation (input) item :: "('m, 'l, 'x) memory \<Rightarrow> slice \<Rightarrow> nat \<Rightarrow> 'm resource_struct" where
  "item s sl i \<equiv> st_cells (mem_Array s) (sl_array sl) (sl_offset sl + i)"

abbreviation (input) items_field :: "nat \<Rightarrow> (('m, 'l, 'x) memory, slice option) place" where
  "items_field p \<equiv> field ls_Items ls_Items_update (var List_vars p)"

lemma copy_items_run:
  assumes contract: "copy_contract V lib"
    and "ls_Items (st_cells (mem_List s) p) = Some sl" "ls_Items (st_cells (mem_List s) q) = Some sl'"
    and arrays: "sl_array sl' = sl_array sl + Suc k" and len: "sl_len sl' = sl_len sl"
    and "distinct is" "\<forall>i \<in> set is. i < sl_len sl \<and> resource_valid V s (item s sl i)"
  shows "\<exists>t A l c. copy_items lib (items_field p) (items_field q) is s = (Ret (), t) \<and>
     t = s\<lparr> mem_lib := l, mem_strategies := c, mem_Array := A \<rparr> \<and> st_next A = st_next (mem_Array s) \<and>
     (\<forall>a. a \<noteq> sl_array sl' \<longrightarrow> st_cells A a = st_cells (mem_Array s) a) \<and>
     (\<forall>i. i \<notin> set is \<longrightarrow> item t sl' i = item s sl' i) \<and>
     (\<forall>i \<in> set is. separate_copy V s (item s sl i) t (item t sl' i)) \<and>
     strategies_grow (mem_strategies s) c \<and> lib_grows V (mem_lib s) l"
  using assms(2,3,6,7)
proof (induction "is" arbitrary: s)
  case Nil
  show ?case by (intro exI [of _ s] exI [of _ "mem_Array s"] exI [of _ "mem_lib s"] exI [of _ "mem_strategies s"]) simp
next
  case (Cons i "is")
  let ?x = "item s sl i"
  have valid: "resource_valid V s ?x" and i: "i < sl_len sl" "i \<notin> set is" using Cons.prems(3,4) by auto
  obtain y u where dup: "dup_resource lib ?x s = (y, u)" by (metis surj_pair)
  then obtain l c where u: "separate_copy V s ?x u y" "strategies_grow (mem_strategies s) c" "lib_grows V (mem_lib s) l"
      "u = s\<lparr> mem_lib := l, mem_strategies := c \<rparr>"
    using dup_resource_correct [OF contract valid] by fastforce
  define s1 where "s1 = pl_put (element sl' i) y u"
  have s1: "s1 = s\<lparr> mem_lib := l, mem_strategies := c, mem_Array := st_set (sl_array sl')
      ((st_cells (mem_Array s) (sl_array sl'))(sl_offset sl' + i := y)) (mem_Array s) \<rparr>"
    by (simp add: s1_def u(4) element_def)
  have copied: "IdlingResource_DeepCopyInto lib (element sl i) (element sl' i) s = (Ret (), s1)"
    using resource_elements.Resource_copied [of s "sl_array sl" "sl_offset sl" "sl_len sl" i lib y u k
        "sl_offset sl'" "sl_len sl'" i] valid dup arrays
    by (cases sl; cases sl') (simp add: s1_def resource_valid_def element_def)
  have run: "copy_items lib (items_field p) (items_field q) (i # is) s
      = copy_items lib (items_field p) (items_field q) is s1"
    using Cons.prems(1,2) i len copied by (simp add: go_bind_def index_slice_def var_def List_vars_def)
  have "resource_valid V s1 (item s1 sl j)" if "j \<in> set is" for j
    using Cons.prems(4) that arrays resource_grows [of s s1 V "item s sl j"] u by (simp add: s1)
  then have "\<forall>j \<in> set is. j < sl_len sl \<and> resource_valid V s1 (item s1 sl j)"
    using Cons.prems(4) by simp
  then obtain t A l' c' where t: "copy_items lib (items_field p) (items_field q) is s1 = (Ret (), t)"
      "t = s1\<lparr> mem_lib := l', mem_strategies := c', mem_Array := A \<rparr>" "st_next A = st_next (mem_Array s1)"
      "\<forall>a. a \<noteq> sl_array sl' \<longrightarrow> st_cells A a = st_cells (mem_Array s1) a"
      "\<forall>j. j \<notin> set is \<longrightarrow> item t sl' j = item s1 sl' j"
      "\<forall>j \<in> set is. separate_copy V s1 (item s1 sl j) t (item t sl' j)"
      "strategies_grow (mem_strategies s1) c'" "lib_grows V (mem_lib s1) l'"
    using Cons.IH [of s1] Cons.prems(1-3) by (auto simp: s1)
  have "separate_copy V s ?x t y"
    using separate_copy_later [of u t V s ?x y] u t(2,7,8) by (simp add: s1)
  moreover have "item t sl' i = y" using t(5) i(2) by (simp add: s1)
  moreover have "separate_copy V s (item s sl j) t (item t sl' j)" if "j \<in> set is" for j
    using separate_copy_earlier [of s s1 V "item s sl j" t "item t sl' j"] t(6) that u Cons.prems(4) arrays
    by (simp add: s1)
  ultimately show ?case
    using run t(1-5,7,8) u(2,3) strategies_grow_trans lib_grows_trans
    by (intro exI [of _ t] exI [of _ A] exI [of _ l'] exI [of _ c']) (auto simp: s1)
qed


record resource_list =
  rl_TypeMeta :: type_meta
  rl_ListMeta :: string
  rl_Items :: "IdlingResource list option"

definition read_list :: "('m, 'l, 'x) meta_view \<Rightarrow> ('m, 'l, 'x) memory \<Rightarrow> 'l list_struct \<Rightarrow> resource_list" where
  "read_list V s x =
     \<lparr> rl_TypeMeta = ls_TypeMeta x, rl_ListMeta = mv_list_value V (mem_lib s) (ls_ListMeta x),
       rl_Items = map_option (\<lambda>sl. map (\<lambda>i. read_resource V s (item s sl i)) [0..<sl_len sl]) (ls_Items x) \<rparr>"

definition list_valid :: "('m, 'l, 'x) meta_view \<Rightarrow> ('m, 'l, 'x) memory \<Rightarrow> 'l list_struct \<Rightarrow> bool" where
  "list_valid V s x \<longleftrightarrow> mv_list_cells V (mem_lib s) (ls_ListMeta x) \<subseteq> mv_used V (mem_lib s) \<and>
     (\<forall>sl. ls_Items x = Some sl \<longrightarrow> sl_array sl < st_next (mem_Array s) \<and>
        (\<forall>i < sl_len sl. resource_valid V s (item s sl i)))"

text \<open>\<open>y\<close> in the memory \<open>t\<close> reaches nothing that was in use in \<open>s\<close>.\<close>

definition list_separate :: "('m, 'l, 'x) meta_view \<Rightarrow> ('m, 'l, 'x) memory \<Rightarrow> ('m, 'l, 'x) memory \<Rightarrow> 'l list_struct \<Rightarrow> bool" where
  "list_separate V s t y \<longleftrightarrow>
     mv_list_cells V (mem_lib t) (ls_ListMeta y) \<inter> mv_used V (mem_lib s) = {} \<and>
     (\<forall>sl. ls_Items y = Some sl \<longrightarrow> st_next (mem_Array s) \<le> sl_array sl \<and>
        (\<forall>i < sl_len sl. mv_cells V (mem_lib t) (rs_ObjectMeta (item t sl i)) \<inter> mv_used V (mem_lib s) = {} \<and>
           spec_fresh (mem_strategies s) (mem_strategies t) (rs_Spec (item t sl i))))"

lemma list_places:
  assumes "p \<noteq> q"
  shows "pl_get (var List_vars p) (pl_put (var List_vars q) v s) = pl_get (var List_vars p) s"
    and "pl_get (var List_vars q) (pl_put (var List_vars q) v s) = v"
  using assms by (simp_all add: var_def List_vars_def)

lemma list_set: "mem_List_update (st_set q y) s = s\<lparr> mem_List := st_set q y (mem_List s) \<rparr>"
  by (cases s) simp

lemma IdlingResourceList_DeepCopyInto_run:
  assumes contract: "copy_contract V lib" and "p \<noteq> q"
    and x: "st_cells (mem_List s) p = x" "list_valid V s x"
  shows "\<exists>t y A l c. IdlingResourceList_DeepCopyInto lib (var List_vars p) (var List_vars q) s = (Ret (), t) \<and>
     t = s\<lparr> mem_lib := l, mem_strategies := c, mem_Array := A, mem_List := st_set q y (mem_List s) \<rparr> \<and>
     read_list V t y = read_list V s x \<and> list_separate V s t y \<and> st_grows (mem_Array s) A \<and>
     strategies_grow (mem_strategies s) c \<and> lib_grows V (mem_lib s) l"
proof -
  obtain m l where m: "lib_ListMeta_copy lib (ls_ListMeta x) (mem_lib s) = (m, l)" by (metis surj_pair)
  have l: "lib_grows V (mem_lib s) l" "mv_list_cells V l m \<subseteq> mv_used V l - mv_used V (mem_lib s)"
    "mv_list_value V l m = mv_list_value V (mem_lib s) (ls_ListMeta x)"
    using contract m x(2) unfolding copy_contract_def list_valid_def by blast+
  define s1 where "s1 = s\<lparr> mem_lib := l, mem_List := st_set q (x\<lparr> ls_ListMeta := m \<rparr>) (mem_List s) \<rparr>"
  note defs = IdlingResourceList_DeepCopyInto_def meta_DeepCopyInto_def go_bind_def var_def List_vars_def
  show ?thesis
  proof (cases "ls_Items x")
    case None
    then have "IdlingResourceList_DeepCopyInto lib (var List_vars p) (var List_vars q) s = (Ret (), s1)"
      using assms m by (simp add: defs s1_def)
    then show ?thesis
      using None l by (intro exI [of _ s1] exI [of _ "x\<lparr> ls_ListMeta := m \<rparr>"] exI [of _ "mem_Array s"]
          exI [of _ l] exI [of _ "mem_strategies s"]) (auto simp: s1_def read_list_def list_separate_def)
  next
    case (Some sl)
    obtain k where k: "st_next (mem_Array s) = sl_array sl + Suc k"
      using x(2) Some by (metis add_Suc_right less_iff_Suc_add list_valid_def)
    define sl' where "sl' = \<lparr> sl_array = sl_array sl + Suc k, sl_offset = 0, sl_len = sl_len sl \<rparr>"
    define y where "y = x\<lparr> ls_ListMeta := m, ls_Items := Some sl' \<rparr>"
    define s2 where "s2 = s\<lparr> mem_lib := l, mem_Array := st_new (\<lambda>_. zero_resource lib) (mem_Array s),
        mem_List := st_set q y (mem_List s) \<rparr>"
    have run: "IdlingResourceList_DeepCopyInto lib (var List_vars p) (var List_vars q) s
        = copy_items lib (items_field p) (items_field q) [0..<sl_len sl] s2"
      using assms m Some k by (simp add: defs s2_def make_items_def slice_len_def sl'_def y_def comp_def list_set)
    have item: "item s2 sl i = item s sl i" for i using k by (simp add: s2_def)
    have valid: "resource_valid V s2 (item s2 sl i) \<and> read_resource V s2 (item s2 sl i) = read_resource V s (item s sl i)"
      if "i < sl_len sl" for i
      unfolding item using x(2) Some that l resource_grows [of s s2 V "item s sl i"] by (simp add: list_valid_def s2_def)
    then obtain t A l' c where t: "copy_items lib (items_field p) (items_field q) [0..<sl_len sl] s2 = (Ret (), t)"
        "t = s2\<lparr> mem_lib := l', mem_strategies := c, mem_Array := A \<rparr>" "st_next A = st_next (mem_Array s2)"
        "\<forall>a. a \<noteq> sl_array sl' \<longrightarrow> st_cells A a = st_cells (mem_Array s2) a"
        "\<forall>i \<in> set [0..<sl_len sl]. separate_copy V s2 (item s2 sl i) t (item t sl' i)"
        "strategies_grow (mem_strategies s2) c" "lib_grows V (mem_lib s2) l'"
      using copy_items_run [OF contract, of s2 p sl q sl' k "[0..<sl_len sl]"] assms(2) x(1) Some
      by (auto simp: s2_def y_def sl'_def)
    have A: "st_grows (mem_Array s) A" using t(3,4) k by (auto simp: st_grows_def s2_def sl'_def)
    have l': "lib_grows V (mem_lib s) l'" using lib_grows_trans [OF l(1), of l'] t(7) by (simp add: s2_def)
    have meta: "mv_list_cells V l' m = mv_list_cells V l m \<and> mv_list_value V l' m = mv_list_value V l m"
      using lib_growsD(3) [OF t(7), of m] l(2) by (auto simp: s2_def)
    have "read_list V t y = read_list V s x"
      using t(5) valid meta l(3) by (simp add: read_list_def y_def Some sl'_def t(2) separate_copy_def)
    moreover have "separate_copy V s2 (item s2 sl i) t (item t sl' i)" if "i < sl_len sl" for i
      using t(5) that by simp
    then have "mv_cells V (mem_lib t) (rs_ObjectMeta (item t sl' i)) \<inter> mv_used V (mem_lib s) = {} \<and>
        spec_fresh (mem_strategies s) (mem_strategies t) (rs_Spec (item t sl' i))" if "i < sl_len sl" for i
      using that lib_growsD(1) [OF l(1)] unfolding separate_copy_def s2_def by fastforce
    then have "list_separate V s t y"
      using meta l(2) k unfolding list_separate_def by (auto simp: y_def sl'_def t(2))
    ultimately show ?thesis
      using run t(1,6) A l'
      by (intro exI [of _ t] exI [of _ y] exI [of _ A] exI [of _ l'] exI [of _ c]) (simp add: t(2) s2_def)
  qed
qed

text \<open>
  C39: The same for a list of instances: the copy has a new array, whose elements read as those of the
  list did and share nothing with what existed.
\<close>

theorem IdlingResourceList_DeepCopy_correct:
  assumes "copy_contract V lib" "p < st_next (mem_List s)"
    and "list_valid V s (st_cells (mem_List s) p)"
  shows "\<exists>q t. IdlingResourceList_DeepCopy lib (Some p) s = (Ret (Some q), t) \<and>
     IdlingResourceList_DeepCopyObject lib (Some p) s = (Ret (Some (Object_IdlingResourceList q)), t) \<and>
     IdlingResourceList_DeepCopyObject lib None s = (Ret None, s) \<and>
     st_next (mem_List s) \<le> q \<and> mem_grows V s t \<and>
     read_list V t (st_cells (mem_List t) q) = read_list V s (st_cells (mem_List s) p) \<and>
     list_separate V s t (st_cells (mem_List t) q)"
proof -
  let ?q = "st_next (mem_List s)"
  let ?s = "snd List_vars (st_new (zero_list lib)) s"
  have "p \<noteq> ?q" "st_cells (mem_List ?s) p = st_cells (mem_List s) p" "list_valid V ?s (st_cells (mem_List s) p)"
    using assms(2,3) by (simp_all add: List_vars_def list_valid_def resource_valid_def)
  from IdlingResourceList_DeepCopyInto_run [OF assms(1) this]
  obtain t y A l c where run: "IdlingResourceList_DeepCopyInto lib (var List_vars p) (var List_vars ?q) ?s = (Ret (), t)"
    and t: "t = ?s\<lparr> mem_lib := l, mem_strategies := c, mem_Array := A, mem_List := st_set ?q y (mem_List ?s) \<rparr>"
      "read_list V t y = read_list V ?s (st_cells (mem_List s) p)" "list_separate V ?s t y"
      "st_grows (mem_Array ?s) A" "strategies_grow (mem_strategies ?s) c" "lib_grows V (mem_lib ?s) l"
    by blast
  have "IdlingResourceList_DeepCopy lib (Some p) s = (Ret (Some ?q), t)"
    unfolding IdlingResourceList_DeepCopy_def by (rule copy_to_new_Some, rule run) (simp add: List_vars_def)
  moreover have "read_list V ?s x = read_list V s x" "list_separate V ?s t z = list_separate V s t z" for x z
    by (simp_all add: read_list_def read_resource_def list_separate_def List_vars_def)
  ultimately show ?thesis
    using t by (auto simp: IdlingResourceList_DeepCopyObject_def go_bind_def mem_grows_def
        IdlingResourceList_DeepCopy_def List_vars_def)
qed

theorem IdlingResourceList_DeepCopy_correct_witness:
  "\<exists>q t items i. IdlingResourceList_DeepCopy demo_meta_library (Some 0) demo_memory = (Ret (Some q), t) \<and>
     rl_Items (read_list demo_meta_view t (st_cells (mem_List t) q)) = Some items \<and> length items = 1 \<and>
     om_Name (ir_meta (items ! 0)) = ''web-idler'' \<and>
     ls_Items (st_cells (mem_List t) q) = Some i \<and> sl_array i \<noteq> 0"
proof -
  let ?x = "st_cells (mem_List demo_memory) 0"
  have "list_valid demo_meta_view demo_memory ?x"
    using demo_struct_valid by (simp add: list_valid_def demo_memory_simps demo_meta_view_def)
  then obtain q t where run: "IdlingResourceList_DeepCopy demo_meta_library (Some 0) demo_memory = (Ret (Some q), t)"
    and read: "read_list demo_meta_view t (st_cells (mem_List t) q) = read_list demo_meta_view demo_memory ?x"
    and sep: "list_separate demo_meta_view demo_memory t (st_cells (mem_List t) q)"
    using IdlingResourceList_DeepCopy_correct [OF demo_copy_contract, of 0 demo_memory]
    by (auto simp: demo_memory_simps)
  have items: "rl_Items (read_list demo_meta_view t (st_cells (mem_List t) q))
      = Some [read_resource demo_meta_view demo_memory demo_struct]"
    unfolding read by (simp add: read_list_def demo_memory_simps)
  then obtain i where i: "ls_Items (st_cells (mem_List t) q) = Some i"
    by (auto simp: read_list_def)
  with sep have "sl_array i \<noteq> 0" by (simp add: list_separate_def demo_memory_simps)
  then show ?thesis using run items i demo_struct_read by simp
qed

end
