(* ===== verification/Operator.thy ===== *)
theory Operator
  imports Watch
begin

text \<open>
  The operator's program: \<open>src/cmd/operator/main.go\<close>, with the registration of the API types in
  \<open>src/pkg/api/v1beta1/groupversion_info.go\<close>. The command line is parsed as Go's \<open>flag\<close> package
  does; the scheme, the manager and the flags other packages define are parameters. The logger is left
  out. A run that ends returns its exit code.
\<close>

section \<open>The API group\<close>

definition GroupVersion :: group_version where
  "GroupVersion = \<lparr> gv_Group = ''kidle.kidle.dev'', gv_Version = ''v1beta1'' \<rparr>"

datatype api_type = Type_IdlingResource | Type_IdlingResourceList

instantiation api_type :: enum
begin

definition enum_api_type :: "api_type list" where
  "enum_api_type = [Type_IdlingResource, Type_IdlingResourceList]"

definition enum_all_api_type :: "(api_type \<Rightarrow> bool) \<Rightarrow> bool" where
  "enum_all_api_type P \<longleftrightarrow> P Type_IdlingResource \<and> P Type_IdlingResourceList"

definition enum_ex_api_type :: "(api_type \<Rightarrow> bool) \<Rightarrow> bool" where
  "enum_ex_api_type P \<longleftrightarrow> P Type_IdlingResource \<or> P Type_IdlingResourceList"

instance
proof
  show "(UNIV :: api_type set) = set enum_class.enum"
    by (auto simp: enum_api_type_def intro: api_type.exhaust)
  show "distinct (enum_class.enum :: api_type list)"
    by (simp add: enum_api_type_def)
  show "enum_class.enum_all P \<longleftrightarrow> Ball UNIV P" "enum_class.enum_ex P \<longleftrightarrow> Bex UNIV P" for P :: "api_type \<Rightarrow> bool"
    by (simp_all add: enum_all_api_type_def enum_ex_api_type_def) (metis api_type.exhaust)+
qed

end

text \<open>controller-runtime's \<open>scheme.Builder\<close>: the objects it was told of and the group they are in.\<close>

record scheme_builder =
  sb_GroupVersion :: group_version
  sb_objects :: "api_type list"

definition SchemeBuilder :: scheme_builder where
  "SchemeBuilder = \<lparr> sb_GroupVersion = GroupVersion, sb_objects = [] \<rparr>"

definition Register :: "api_type list \<Rightarrow> scheme_builder \<Rightarrow> scheme_builder" where
  "Register objects b = b\<lparr> sb_objects := sb_objects b @ objects \<rparr>"

text \<open>The builder once \<open>init\<close> of \<open>idlingresource_types.go\<close> has run.\<close>

definition registered_types :: scheme_builder where
  "registered_types = Register [Type_IdlingResource, Type_IdlingResourceList] SchemeBuilder"

lemma registered_types_all:
  "sb_GroupVersion registered_types = GroupVersion" "sb_objects registered_types = enum_class.enum"
  by (simp_all add: registered_types_def Register_def SchemeBuilder_def enum_api_type_def)

section \<open>Flags\<close>

record operator_flags =
  fl_metricsAddr :: string
  fl_probeAddr :: string
  fl_enableLeaderElection :: bool
  fl_kidlectlImage :: string

definition default_flags :: operator_flags where
  "default_flags =
     \<lparr> fl_metricsAddr = '':8080'', fl_probeAddr = '':8081'', fl_enableLeaderElection = False,
       fl_kidlectlImage = ''kidledev/kidlectl:main'' \<rparr>"

text \<open>\<open>strconv.ParseBool\<close>; \<open>None\<close> is \<open>ErrSyntax\<close>.\<close>

definition ParseBool :: "string \<Rightarrow> bool option" where
  "ParseBool s =
     (if s \<in> {''1'', ''t'', ''T'', ''true'', ''TRUE'', ''True''} then Some True
      else if s \<in> {''0'', ''f'', ''F'', ''false'', ''FALSE'', ''False''} then Some False
      else None)"

text \<open>
  A flag other packages define (\<open>zap\<close>'s options, the kubeconfig): whether it is boolean, and which
  values it takes.
\<close>

record other_flag =
  of_bool :: bool
  of_accepts :: "string \<Rightarrow> bool"

text \<open>
  The flags by name: \<open>flag_is_bool\<close> says whether a flag is boolean, \<open>set_flag\<close> is its \<open>Set\<close>, \<open>None\<close>
  an error.
\<close>

definition flag_is_bool :: "(string \<Rightarrow> other_flag option) \<Rightarrow> string \<Rightarrow> bool option" where
  "flag_is_bool other name =
     (if name \<in> {''metrics-bind-address'', ''health-probe-bind-address'', ''kidlectl-image''} then Some False
      else if name = ''leader-elect'' then Some True
      else map_option of_bool (other name))"

definition set_flag :: "(string \<Rightarrow> other_flag option) \<Rightarrow> string \<Rightarrow> string \<Rightarrow> operator_flags \<Rightarrow> operator_flags option" where
  "set_flag other name v fl =
     (if name = ''metrics-bind-address'' then Some (fl\<lparr> fl_metricsAddr := v \<rparr>)
      else if name = ''health-probe-bind-address'' then Some (fl\<lparr> fl_probeAddr := v \<rparr>)
      else if name = ''kidlectl-image'' then Some (fl\<lparr> fl_kidlectlImage := v \<rparr>)
      else if name = ''leader-elect'' then map_option (\<lambda>b. fl\<lparr> fl_enableLeaderElection := b \<rparr>) (ParseBool v)
      else case other name of None \<Rightarrow> None | Some f \<Rightarrow> if of_accepts f v then Some fl else None)"

text \<open>\<open>name=value\<close> cut at the first \<open>=\<close> that is not the first character.\<close>

fun split_value :: "string \<Rightarrow> string \<times> string option" where
  "split_value [] = ([], None)"
| "split_value (c # cs) =
     (if c = CHR ''='' then ([], Some cs)
      else let (name, v) = split_value cs in (c # name, v))"

text \<open>The name and value of an argument that is a flag; \<open>None\<close> when the syntax is bad.\<close>

definition flag_of :: "string \<Rightarrow> (string \<times> string option) option" where
  "flag_of s =
     (let name = (if s ! 1 = CHR ''-'' then drop 2 s else drop 1 s)
      in case name of
           [] \<Rightarrow> None
         | c # cs \<Rightarrow> if c = CHR ''-'' \<or> c = CHR ''='' then None
             else let (n, v) = split_value cs in Some (c # n, v))"

text \<open>
  \<open>parseOne\<close>: the flags after one more argument with the arguments that are left, nothing when the
  flags are over, or, with \<open>ExitOnError\<close>, the exit code: 0 after a request for help, 2 after an error.
\<close>

definition parse_one :: "(string \<Rightarrow> other_flag option) \<Rightarrow> operator_flags \<Rightarrow> string list \<Rightarrow>
     nat + (operator_flags \<times> string list) option" where
  "parse_one other fl args =
     (case args of
        [] \<Rightarrow> Inr None
      | s # args \<Rightarrow>
          if length s < 2 \<or> s ! 0 \<noteq> CHR ''-'' \<or> s = ''--'' then Inr None
          else case flag_of s of
            None \<Rightarrow> Inl 2
          | Some (name, value) \<Rightarrow>
              let put = (\<lambda>v args'. case set_flag other name v fl of
                           None \<Rightarrow> Inl 2 | Some fl' \<Rightarrow> Inr (Some (fl', args')))
              in case flag_is_bool other name of
                   None \<Rightarrow> Inl (if name = ''help'' \<or> name = ''h'' then 0 else 2)
                 | Some is_bool \<Rightarrow>
                     (case value of
                        Some v \<Rightarrow> put v args
                      | None \<Rightarrow>
                          if is_bool then put ''true'' args
                          else case args of [] \<Rightarrow> Inl 2 | v # args' \<Rightarrow> put v args'))"

lemma parse_one_shorter: "parse_one other fl args = Inr (Some (fl', args')) \<Longrightarrow> length args' < length args"
  by (auto simp: parse_one_def Let_def split: list.splits if_splits option.splits)

lemma parse_one_exit: "parse_one other fl args = Inl code \<Longrightarrow> code = 0 \<or> code = 2"
  by (auto simp: parse_one_def Let_def split: list.splits if_splits option.splits)

text \<open>\<open>flag.Parse\<close>\<close>

function parse_flags :: "(string \<Rightarrow> other_flag option) \<Rightarrow> operator_flags \<Rightarrow> string list \<Rightarrow> nat + operator_flags" where
  "parse_flags other fl args =
     (case parse_one other fl args of
        Inl code \<Rightarrow> Inl code
      | Inr None \<Rightarrow> Inr fl
      | Inr (Some (fl', args')) \<Rightarrow> parse_flags other fl' args')"
  by pat_completeness auto
termination
  by (relation "measure (\<lambda>(other, fl, args). length args)") (auto dest: parse_one_shorter)

declare parse_flags.simps [simp del]

lemma parse_flags_exit: "parse_flags other fl args = Inl code \<Longrightarrow> code = 0 \<or> code = 2"
proof (induction other fl args rule: parse_flags.induct)
  case (1 other fl args)
  then show ?case
    using parse_one_exit [of other fl args]
    by (auto simp: parse_flags.simps [of other fl args] split: sum.splits option.splits)
qed

section \<open>The program\<close>

record manager_options =
  mo_MetricsBindAddress :: string
  mo_Port :: nat
  mo_HealthProbeBindAddress :: string
  mo_LeaderElection :: bool
  mo_LeaderElectionID :: string

text \<open>
  What the program uses of the libraries, over a world that holds the scheme and the cluster: \<open>'m\<close> is
  the manager. \<open>ol_GetConfig\<close> answers nothing when \<open>GetConfigOrDie\<close> dies, which exits with 1;
  \<open>ol_reconciler m name\<close> is a reconciler over the client, the scheme and the event recorder of the
  manager.
\<close>

record ('w, 'm) operator_library =
  ol_clientgo_AddToScheme :: "'w \<Rightarrow> go_error option \<times> 'w"
  ol_AddToScheme :: "scheme_builder \<Rightarrow> 'w \<Rightarrow> go_error option \<times> 'w"
  ol_flags :: "string \<Rightarrow> other_flag option"
  ol_GetConfig :: "'w \<Rightarrow> string option \<times> 'w"
  ol_NewManager :: "string \<Rightarrow> manager_options \<Rightarrow> 'w \<Rightarrow> (go_error + 'm) \<times> 'w"
  ol_reconciler :: "'m \<Rightarrow> string \<Rightarrow> 'w reconciler"
  ol_Complete :: "'m \<Rightarrow> 'w reconciler \<Rightarrow> controller_config \<Rightarrow> 'w \<Rightarrow> go_error option \<times> 'w"
  ol_AddHealthzCheck :: "'m \<Rightarrow> string \<Rightarrow> 'w \<Rightarrow> go_error option \<times> 'w"
  ol_AddReadyzCheck :: "'m \<Rightarrow> string \<Rightarrow> 'w \<Rightarrow> go_error option \<times> 'w"
  ol_Start :: "'m \<Rightarrow> 'w \<Rightarrow> go_error option \<times> 'w"

text \<open>\<open>utilruntime.Must\<close>\<close>

definition Must :: "('w \<Rightarrow> go_error option \<times> 'w) \<Rightarrow> ('w, unit) go" where
  "Must call = go_check (go_call call) (\<lambda>err. go_pure (Panic (MustFailed err))) (go_return ())"

definition operator_init :: "('w, 'm) operator_library \<Rightarrow> ('w, unit) go" where
  "operator_init lib =
     go_bind (Must (ol_clientgo_AddToScheme lib)) (\<lambda>_. Must (ol_AddToScheme lib registered_types))"

definition manager_options_of :: "operator_flags \<Rightarrow> manager_options" where
  "manager_options_of fl =
     \<lparr> mo_MetricsBindAddress = fl_metricsAddr fl, mo_Port = 9443,
       mo_HealthProbeBindAddress = fl_probeAddr fl, mo_LeaderElection = fl_enableLeaderElection fl,
       mo_LeaderElectionID = ''d2ebac05.kidle.dev'' \<rparr>"

definition operator_reconciler :: "('w, 'm) operator_library \<Rightarrow> 'm \<Rightarrow> operator_flags \<Rightarrow> 'w reconciler" where
  "operator_reconciler lib mgr fl =
     (ol_reconciler lib mgr ''idlingresource-controller'')\<lparr> rc_KidlectlImage := fl_kidlectlImage fl \<rparr>"

definition operator_main :: "('w, 'm) operator_library \<Rightarrow> string list \<Rightarrow> ('w, nat) go" where
  "operator_main lib args =
     (case parse_flags (ol_flags lib) default_flags args of
        Inl code \<Rightarrow> go_return code
      | Inr fl \<Rightarrow>
          go_bind (go_call (ol_GetConfig lib)) (\<lambda>config.
          case config of
            None \<Rightarrow> go_return 1
          | Some cfg \<Rightarrow>
              go_try (go_call (ol_NewManager lib cfg (manager_options_of fl))) (\<lambda>err. go_return 1) (\<lambda>mgr.
              go_check (SetupWithManager (\<lambda>setup. go_call (ol_Complete lib mgr (operator_reconciler lib mgr fl) setup)))
                (\<lambda>err. go_return 1)
              (go_check (go_call (ol_AddHealthzCheck lib mgr ''healthz'')) (\<lambda>err. go_return 1)
              (go_check (go_call (ol_AddReadyzCheck lib mgr ''readyz'')) (\<lambda>err. go_return 1)
              (go_check (go_call (ol_Start lib mgr)) (\<lambda>err. go_return 1)
              (go_return 0)))))))"

text \<open>The package's \<open>init\<close> runs before \<open>main\<close>.\<close>

definition operator_program :: "('w, 'm) operator_library \<Rightarrow> string list \<Rightarrow> ('w, nat) go" where
  "operator_program lib args = go_bind (operator_init lib) (\<lambda>_. operator_main lib args)"


section \<open>What a run does\<close>

text \<open>The arguments \<open>config/default/manager_auth_proxy_patch.yaml\<close> passes, with the image the build fills in.\<close>

definition deployed_args :: "string \<Rightarrow> string list" where
  "deployed_args img =
     [''--health-probe-bind-address=:8081'', ''--metrics-bind-address=127.0.0.1:8080'', ''--leader-elect'',
      ''--kidlectl-image='' @ img]"

lemma deployed_flags:
  "parse_flags other default_flags (deployed_args img)
     = Inr \<lparr> fl_metricsAddr = ''127.0.0.1:8080'', fl_probeAddr = '':8081'', fl_enableLeaderElection = True,
         fl_kidlectlImage = img \<rparr>"
  by (simp add: deployed_args_def parse_flags.simps parse_one_def Let_def flag_of_def flag_is_bool_def set_flag_def
      ParseBool_def default_flags_def)

text \<open>The two ways a value can be written, and the one and two dashes, are read alike.\<close>

lemma split_value_append: "CHR ''='' \<notin> set n \<Longrightarrow> split_value (n @ CHR ''='' # v) = (n, Some v)"
  by (induction n) auto

lemma split_value_none: "CHR ''='' \<notin> set n \<Longrightarrow> split_value n = (n, None)"
  by (induction n) auto

text \<open>Whether \<open>Must\<close> panics.\<close>

lemma Must_cases: "Must call w = (case call w of (None, w') \<Rightarrow> (Ret (), w') | (Some err, w') \<Rightarrow> (Panic (MustFailed err), w'))"
  by (auto simp: Must_def go_check_def go_bind_def go_call_def split: prod.splits option.splits)

text \<open>The part of the program before the manager is started: the manager, or how the run ended.\<close>

definition operator_setup :: "('w, 'm) operator_library \<Rightarrow> string list \<Rightarrow> ('w, nat + 'm) go" where
  "operator_setup lib args =
     go_bind (operator_init lib) (\<lambda>_.
     case parse_flags (ol_flags lib) default_flags args of
       Inl code \<Rightarrow> go_return (Inl code)
     | Inr fl \<Rightarrow>
         go_bind (go_call (ol_GetConfig lib)) (\<lambda>config.
         case config of
           None \<Rightarrow> go_return (Inl 1)
         | Some cfg \<Rightarrow>
             go_try (go_call (ol_NewManager lib cfg (manager_options_of fl))) (\<lambda>err. go_return (Inl 1)) (\<lambda>mgr.
             go_check (SetupWithManager (\<lambda>setup. go_call (ol_Complete lib mgr (operator_reconciler lib mgr fl) setup)))
               (\<lambda>err. go_return (Inl 1))
             (go_check (go_call (ol_AddHealthzCheck lib mgr ''healthz'')) (\<lambda>err. go_return (Inl 1))
             (go_check (go_call (ol_AddReadyzCheck lib mgr ''readyz'')) (\<lambda>err. go_return (Inl 1))
             (go_return (Inr mgr)))))))"

lemma operator_program_eq:
  "operator_program lib args =
     go_bind (operator_setup lib args) (\<lambda>r. case r of
       Inl code \<Rightarrow> go_return code
     | Inr mgr \<Rightarrow> go_check (go_call (ol_Start lib mgr)) (\<lambda>err. go_return 1) (go_return 0))"
  by (rule ext)
    (auto simp: operator_program_def operator_setup_def operator_main_def go_bind_def go_try_def go_check_def
      split: prod.splits outcome.splits sum.splits option.splits)

lemma operator_setup_start [simp]: "operator_setup (lib\<lparr> ol_Start := start \<rparr>) args = operator_setup lib args"
  by (simp add: operator_setup_def operator_init_def operator_reconciler_def cong: sum.case_cong option.case_cong)

lemma operator_setup_manager:
  assumes "operator_setup lib args w = (Ret (Inr mgr), w')"
  shows "\<exists>fl wr ws wa wb wc. ol_AddToScheme lib registered_types wr = (None, ws) \<and>
     parse_flags (ol_flags lib) default_flags args = Inr fl \<and>
     ol_Complete lib mgr (operator_reconciler lib mgr fl) controller_setup wa = (None, wb) \<and>
     ol_AddHealthzCheck lib mgr ''healthz'' wb = (None, wc) \<and> ol_AddReadyzCheck lib mgr ''readyz'' wc = (None, w')"
proof -
  obtain wr ws u where init: "ol_AddToScheme lib registered_types wr = (None, ws)" "operator_init lib w = (Ret (), u)"
    using assms unfolding operator_setup_def operator_init_def
    by (auto simp: Must_cases go_bind_def split: prod.splits option.splits)
  have "\<exists>fl wa wb wc. parse_flags (ol_flags lib) default_flags args = Inr fl \<and>
     ol_Complete lib mgr (operator_reconciler lib mgr fl) controller_setup wa = (None, wb) \<and>
     ol_AddHealthzCheck lib mgr ''healthz'' wb = (None, wc) \<and> ol_AddReadyzCheck lib mgr ''readyz'' wc = (None, w')"
    using assms
    by (auto simp: operator_setup_def SetupWithManager_def go_eq_Ret go_call_Ret go_sum_eq_Ret
        simp del: go_call_apply split: sum.splits option.splits) blast
  with init(1) show ?thesis by blast
qed

lemma operator_setup_ends:
  assumes "operator_setup lib args w = (r, w')"
  shows "case r of
      Panic p \<Rightarrow> \<exists>e. p = MustFailed e
    | Ret (Inl code) \<Rightarrow> code = 1 \<or> parse_flags (ol_flags lib) default_flags args = Inl code
    | Ret (Inr mgr) \<Rightarrow> True"
  using assms
  by (auto simp: operator_setup_def operator_init_def SetupWithManager_def Must_cases go_bind_def go_try_def go_check_def
      split: prod.splits outcome.splits sum.splits option.splits)

end
