(* ===== verification/Operator_Properties.thy ===== *)
theory Operator_Properties
  imports Operator Idler_Properties
begin

text \<open>
  The operator's program as a whole: when it starts the manager, with what, and its exit codes.
\<close>





end
