(* ===== verification/Levels.thy ===== *)
theory Levels
  imports Reconcile_System
begin

text \<open>
  What a run does to a workload whatever it ends with. The number a workload runs at and the one it
  would wake up to stay within a set of numbers that has 1, the number a wakeup takes when there
  is no record: \<open>tame\<close>. Every call of an idler either does its step or leaves the cluster alone, and
  after a call that failed a run makes no other; \<open>quiet\<close> programs leave the workloads alone.
\<close>

section \<open>Programs that leave the workloads alone\<close>

definition quiet :: "('w \<Rightarrow> cluster) \<Rightarrow> 'o kind_store \<Rightarrow> ('w \<times> 'o, 'a) go \<Rightarrow> bool" where
  "quiet view ks m \<longleftrightarrow> go_keeps (\<lambda>s t. ks_get ks (view (fst t)) = ks_get ks (view (fst s))) m"

lemma quiet_trans: "transp (\<lambda>s t. ks_get ks (view (fst t)) = ks_get ks (view (fst s)))"
  by (auto simp: transp_def)

lemma quietD: "quiet view ks m \<Longrightarrow> m s = (r, t) \<Longrightarrow> ks_get ks (view (fst t)) = ks_get ks (view (fst s))"
  unfolding quiet_def by (drule (1) go_keepsD)

lemma quiet_run: "m (w, x) = (r, (w', x')) \<Longrightarrow> quiet view ks m \<Longrightarrow> ks_get ks (view w') = ks_get ks (view w)"
  by (drule (1) quietD) simp

lemma quiet_return: "quiet view ks (go_return x)"
  unfolding quiet_def by (rule go_keeps_return) (simp add: reflp_def)

lemma quiet_outer: "keeps_part view (ks_get ks) m \<Longrightarrow> quiet view ks (go_outer m)"
  unfolding quiet_def by (rule go_keepsI) (auto dest: keeps_part_snd)

lemma quiet_bind: "quiet view ks m \<Longrightarrow> (\<And>x. quiet view ks (f x)) \<Longrightarrow> quiet view ks (go_bind m f)"
  unfolding quiet_def by (rule go_keeps_bind [OF quiet_trans])

lemma quiet_check:
  "quiet view ks m \<Longrightarrow> (\<And>e. quiet view ks (h e)) \<Longrightarrow> quiet view ks k \<Longrightarrow> quiet view ks (go_check m h k)"
  unfolding quiet_def by (rule go_keeps_check [OF quiet_trans])

lemmas quiet_frame = quiet_return quiet_outer quiet_bind quiet_check

text \<open>What follows a call, when it is quiet, changes nothing the call has not.\<close>

lemma quiet_after:
  assumes "go_bind m f (w, x) = (r, (w', x'))" "m (w, x) = (q, (w1, x1))" "\<And>y. quiet view ks (f y)"
  shows "ks_get ks (view w') = ks_get ks (view w1)"
proof (cases q)
  case (Ret y)
  with assms(1,2) have "f y (w1, x1) = (r, (w', x'))" by simp
  then show ?thesis by (rule quiet_run [OF _ assms(3)])
next
  case (Panic p)
  with assms(1,2) show ?thesis by simp
qed

section \<open>Tame workloads\<close>

definition tame :: "('o \<Rightarrow> bool) \<Rightarrow> ('o \<Rightarrow> int) \<Rightarrow> ('o \<Rightarrow> int) \<Rightarrow> int set \<Rightarrow> 'o \<Rightarrow> bool" where
  "tame valid level prior S x \<longleftrightarrow> valid x \<and> level x \<in> insert 0 S \<and> prior x \<in> S"

text \<open>The cluster stores a tame workload with this rest.\<close>

definition keeps_tame :: "('w \<Rightarrow> cluster) \<Rightarrow> 'o kind_store \<Rightarrow> namespaced_name \<Rightarrow> ('o \<Rightarrow> bool) \<Rightarrow> 'w \<Rightarrow> bool" where
  "keeps_tame view ks k Q w \<longleftrightarrow> (\<exists>y. ks_get ks (view w) k = Some y \<and> Q y)"

lemma keeps_tame_cong: "ks_get ks (view w') = ks_get ks (view w) \<Longrightarrow> keeps_tame view ks k Q w' = keeps_tame view ks k Q w"
  by (simp add: keeps_tame_def)

context workload_reconciler
begin

lemma stored_keeps_tame: "stored view ops ks w x \<Longrightarrow> Q x \<Longrightarrow> keeps_tame view ks (object_key ops x) Q w"
  by (auto simp: stored_def keeps_tame_def)

text \<open>\<open>Q\<close>: tame in \<open>S\<close>, with the rest \<open>rho\<close>.\<close>

lemma tame_view:
  assumes "workload_view ops level prior_level y = a" "wl_level a \<in> insert 0 S" "wl_prior a \<in> S" "valid y"
  shows "tame valid level prior_level S y"
  using assms by (auto simp: tame_def workload_view_def)

lemma SetReference_outcome:
  assumes "kind_contract view ops ks kc" "stored view ops ks w x" "tame valid level prior_level S x"
    and run: "SetReference (New kc) i (w, x) = (r, (w', x'))"
  shows "if r = Ret None
     then stored view ops ks w' x' \<and> object_key ops x' = object_key ops x \<and> rest x' = rest x \<and>
       tame valid level prior_level S x' \<and> reference_of ops x' \<noteq> None
     else view w' = view w"
proof (cases "r = Ret None")
  case True
  with SetReference_stage [OF assms(1,2), of i w' x'] run assms(3) show ?thesis
    by (auto simp: tame_def workload_view_def split: option.splits)
next
  case False
  with ObjectIdler_SetReference_run [OF assms(1) run[unfolded New_SetReference]] show ?thesis
    by (auto simp: untouched_def split: if_splits)
qed

lemma Idle_outcome:
  assumes "kind_contract view ops ks kc" "stored view ops ks w x" "tame valid level prior_level S x" "0 < level x"
    and run: "Idle (New kc) (w, x) = (r, (w', x'))"
  shows "if r = Ret None
     then stored view ops ks w' x' \<and> object_key ops x' = object_key ops x \<and> rest x' = rest x \<and>
       tame valid level prior_level S x'
     else view w' = view w"
proof -
  have v: "valid x" "level x \<in> S" using assms(3,4) by (auto simp: tame_def)
  show ?thesis
  proof (cases "r = Ret None")
    case True
    with Idle_stage [OF assms(1,2) v(1) assms(4), of w' x'] run v(2) show ?thesis
      by (auto simp: tame_def workload_view_def)
  next
    case False
    have "kc_retry kc (refetch_update kc ops sleep_step) (w, x) = (r, (w', x'))"
      using run New_Idle [OF v(1) assms(4)] by simp
    from retry_wrote [OF assms(1) keeps_identity_sleep this, of "\<lambda>z. case sleep_step z of Ret y \<Rightarrow> y | Panic p \<Rightarrow> z"]
    show ?thesis using False by (simp add: untouched_def)
  qed
qed

lemma Wakeup_outcome:
  assumes "kind_contract view ops ks kc" "stored view ops ks w x" "tame valid level prior_level S x"
    and S: "\<forall>n \<in> S. 0 \<le> n" and run: "Wakeup (New kc) (w, x) = (r, (w', x'))"
  shows "if \<exists>n. r = Ret (Inr n)
     then stored view ops ks w' x' \<and> object_key ops x' = object_key ops x \<and> rest x' = rest x \<and>
       tame valid level prior_level S x' \<and> reference_of ops x' = reference_of ops x
     else view w' = view w"
proof -
  have v: "valid x" "prior_level x \<in> S" using assms(3) by (auto simp: tame_def)
  show ?thesis
  proof (cases "\<exists>n. r = Ret (Inr n)")
    case True
    with Wakeup_stage [OF assms(1,2) v(1)] run v(2) S show ?thesis
      by (auto simp: tame_def workload_view_def)
  next
    case False
    show ?thesis
    proof (cases "wake_error x = None \<and> \<not> skips x")
      case True
      then have e: "wake_error x = None" by simp
      obtain q w1 x1 where q: "kc_retry kc (refetch_update kc ops (\<lambda>obj. Ret (wake x obj))) (w, x) = (q, (w1, x1))"
        by (metis surj_pair)
      note wr = retry_wrote_Ret [OF assms(1) keeps_identity_wake [OF e] q]
      have "q \<noteq> Ret None \<and> w' = w1"
        using run New_Wakeup [OF v(1)] True q False
        by (auto simp: go_check_def go_bind_def split: outcome.splits option.splits)
      with wr False show ?thesis by (auto simp: untouched_def split: if_splits)
    next
      case False
      with run New_Wakeup [OF v(1)] \<open>\<nexists>n. r = Ret (Inr n)\<close> show ?thesis
        by (auto split: option.splits if_splits)
    qed
  qed
qed

lemma RemoveAnnotations_outcome:
  assumes "kind_contract view ops ks kc" "stored view ops ks w x" "tame valid level prior_level S x"
    and "1 \<in> S" "reference_of ops x \<noteq> None"
    and run: "RemoveAnnotations (New kc) (w, x) = (r, (w', x'))"
  shows "if r = Ret None
     then stored view ops ks w' x' \<and> object_key ops x' = object_key ops x \<and> rest x' = rest x \<and>
       tame valid level prior_level S x'
     else view w' = view w"
proof (cases "r = Ret None")
  case True
  with RemoveAnnotations_stage [OF assms(1,2,5), of w' x'] run assms(3,4) show ?thesis
    by (auto simp: tame_def workload_view_def)
next
  case False
  with ObjectIdler_RemoveAnnotations_run [OF assms(1) run[unfolded New_RemoveAnnotations]] show ?thesis
    by (auto simp: untouched_def split: if_splits)
qed

text \<open>The parts of \<open>ReconcileWithIdler\<close>, whatever they end with.\<close>

lemma quiet_event:
  assumes "reconciler_contract view R"
  shows "quiet view ks (go_outer (r_event R i ty re msg err))" "quiet view ks (go_outer (wakeup_event R i n))"
    "quiet view ks (go_outer (removeFinalizer R i))"
  by (intro quiet_outer keeps_part_event [OF assms] wakeup_event_keeps_part [OF assms] removeFinalizer_keeps [OF assms])+

lemma reconcileWakeup_tame:
  assumes R: "reconciler_contract view R" and kc: "kind_contract view ops ks kc"
    and x: "stored view ops ks w x" "tame valid level prior_level S x" and S: "\<forall>n \<in> S. 0 \<le> n"
    and run: "reconcileWakeup R i (New kc) (w, x) = (r, (w', x'))"
  shows "keeps_tame view ks (object_key ops x) (\<lambda>y. tame valid level prior_level S y \<and> rest y = rest x) w'"
proof -
  let ?Q = "\<lambda>y. tame valid level prior_level S y \<and> rest y = rest x"
  obtain q w1 x1 where wk: "Wakeup (New kc) (w, x) = (q, (w1, x1))" by (metis surj_pair)
  have "ks_get ks (view w') = ks_get ks (view w1)"
    using run unfolding reconcileWakeup_def Let_def go_try_def
    by (rule quiet_after [where m = "Wakeup (New kc)" and w = w and x = x, OF _ wk]) (auto split: sum.splits intro!: quiet_bind quiet_event [OF R] quiet_return)
  moreover have "keeps_tame view ks (object_key ops x) ?Q w1"
    using Wakeup_outcome [OF kc x S wk] stored_keeps_tame [of view w1 x1 ?Q] stored_keeps_tame [of view w x ?Q] x
    by (auto simp: keeps_tame_def split: if_splits)
  ultimately show ?thesis by (simp add: keeps_tame_def)
qed

lemma reconcileIdle_tame:
  assumes R: "reconciler_contract view R" and kc: "kind_contract view ops ks kc"
    and x: "stored view ops ks w x" "tame valid level prior_level S x" "0 < level x"
    and run: "reconcileIdle R i (New kc) (w, x) = (r, (w', x'))"
  shows "keeps_tame view ks (object_key ops x) (\<lambda>y. tame valid level prior_level S y \<and> rest y = rest x) w'"
proof -
  let ?Q = "\<lambda>y. tame valid level prior_level S y \<and> rest y = rest x"
  obtain q w1 x1 where idl: "Idle (New kc) (w, x) = (q, (w1, x1))" by (metis surj_pair)
  have "ks_get ks (view w') = ks_get ks (view w1)"
    using run unfolding reconcileIdle_def Let_def go_check_def
    by (rule quiet_after [where m = "Idle (New kc)" and w = w and x = x, OF _ idl]) (auto split: option.splits intro!: quiet_bind quiet_event [OF R] quiet_return)
  moreover have "keeps_tame view ks (object_key ops x) ?Q w1"
    using Idle_outcome [OF kc x idl] stored_keeps_tame [of view w1 x1 ?Q] stored_keeps_tame [of view w x ?Q] x
    by (auto simp: keeps_tame_def split: if_splits)
  ultimately show ?thesis by (simp add: keeps_tame_def)
qed

lemma reconcileDeletion_tame:
  assumes R: "reconciler_contract view R" and kc: "kind_contract view ops ks kc"
    and x: "stored view ops ks w x" "tame valid level prior_level S x" "reference_of ops x \<noteq> None"
    and S: "\<forall>n \<in> S. 0 \<le> n" "1 \<in> S"
    and run: "reconcileDeletion R i (New kc) (w, x) = (r, (w', x'))"
  shows "keeps_tame view ks (object_key ops x) (\<lambda>y. tame valid level prior_level S y \<and> rest y = rest x) w'"
proof -
  let ?Q = "\<lambda>y. tame valid level prior_level S y \<and> rest y = rest x"
  obtain q w1 x1 where wk: "Wakeup (New kc) (w, x) = (q, (w1, x1))" by (metis surj_pair)
  note out = Wakeup_outcome [OF kc x(1,2) S(1) wk]
  note quiet = quiet_bind quiet_check quiet_event [OF R] quiet_return
  show ?thesis
  proof (cases "\<exists>n. q = Ret (Inr n)")
    case False
    then have same: "view w1 = view w" using out by simp
    have "ks_get ks (view w') = ks_get ks (view w1)"
    proof (cases q)
      case (Panic e)
      with run wk show ?thesis by (simp add: reconcileDeletion_def Let_def go_try_def)
    next
      case (Ret s)
      with False obtain e where "s = Inl e" by (cases s) auto
      with wk Ret show ?thesis
        using run unfolding reconcileDeletion_def Let_def
        by (simp only: go_try_Inl) (erule quiet_run, intro quiet)
    qed
    then show ?thesis using same stored_keeps_tame [OF x(1), of ?Q] x(2) by (simp add: keeps_tame_def)
  next
    case True
    then obtain n where n: "q = Ret (Inr n)" by blast
    have st1: "stored view ops ks w1 x1" "object_key ops x1 = object_key ops x" "rest x1 = rest x"
      "tame valid level prior_level S x1" "reference_of ops x1 \<noteq> None"
      using out True x(3) by auto
    obtain e w2 where ev: "go_outer (wakeup_event R i n) (w1, x1) = (e, (w2, x1))" by simp
    have v2: "ks_get ks (view w2) = ks_get ks (view w1)" using quietD [OF quiet_event(2) [OF R] ev] by simp
    show ?thesis
    proof (cases e)
      case (Panic e)
      with run wk n ev have "w' = w2" by (simp add: reconcileDeletion_def Let_def)
      then show ?thesis using v2 stored_keeps_tame [OF st1(1), of ?Q] st1 by (simp add: keeps_tame_def)
    next
      case (Ret u)
      obtain q3 w3 x3 where rm: "RemoveAnnotations (New kc) (w2, x1) = (q3, (w3, x3))" by (metis surj_pair)
      have s2: "stored view ops ks w2 x1" using st1(1) v2 by (simp add: stored_def)
      have "ks_get ks (view w') = ks_get ks (view w3)"
        using run unfolding reconcileDeletion_def Let_def go_try_Inr [where m = "Wakeup (New kc)" and s = "(w, x)", OF wk [unfolded n]]
          go_bind_Ret [where m = "go_outer (wakeup_event R i n)" and s = "(w1, x1)", OF ev [unfolded Ret]] go_check_def
        by (rule quiet_after [where m = "RemoveAnnotations (New kc)" and w = w2 and x = x1, OF _ rm]) (auto split: option.splits intro!: quiet [unfolded go_check_def])
      moreover have "keeps_tame view ks (object_key ops x) ?Q w3"
        using RemoveAnnotations_outcome [OF kc s2 st1(4) S(2) st1(5) rm] st1
          stored_keeps_tame [of view w3 x3 ?Q] stored_keeps_tame [OF s2, of ?Q]
        by (auto simp: keeps_tame_def split: if_splits)
      ultimately show ?thesis by (simp add: keeps_tame_def)
    qed
  qed
qed

lemma ReconcileWithIdler_tame:
  assumes R: "reconciler_contract view R" and kc: "kind_contract view ops ks kc"
    and x: "stored view ops ks w x" "tame valid level prior_level S x"
    and S: "\<forall>n \<in> S. 0 \<le> n" "1 \<in> S"
    and run: "ReconcileWithIdler R i (New kc) (w, x) = (r, (w', x'))"
  shows "keeps_tame view ks (object_key ops x) (\<lambda>y. tame valid level prior_level S y \<and> rest y = rest x) w'"
proof -
  let ?Q = "\<lambda>y. tame valid level prior_level S y \<and> rest y = rest x"
  obtain q w1 x1 where sr: "SetReference (New kc) (om_Name (ir_meta i)) (w, x) = (q, (w1, x1))" by (metis surj_pair)
  note out = SetReference_outcome [OF kc x sr]
  show ?thesis
  proof (cases "q = Ret None")
    case False
    then have "view w1 = view w" using out by simp
    moreover have "w' = w1"
      using run sr False unfolding ReconcileWithIdler_def go_check_def go_bind_def
      by (auto split: outcome.splits option.splits)
    ultimately show ?thesis using stored_keeps_tame [OF x(1), of ?Q] x(2) by (simp add: keeps_tame_def)
  next
    case True
    then have st1: "stored view ops ks w1 x1" "object_key ops x1 = object_key ops x" "rest x1 = rest x"
      "tame valid level prior_level S x1" "reference_of ops x1 \<noteq> None"
      using out by auto
    have v1: "valid x1" using st1(4) by (simp add: tame_def)
    have "(if IsBeingDeleted i then reconcileDeletion R i (New kc)
        else if \<not> spec_Idle (ir_Spec i) \<and> level x1 = 0 then reconcileWakeup R i (New kc)
        else if spec_Idle (ir_Spec i) \<and> 0 < level x1 then reconcileIdle R i (New kc)
        else go_return (no_requeue, None)) (w1, x1) = (r, (w', x'))"
      using run sr True v1 unfolding ReconcileWithIdler_def
      by (auto simp: go_bind_def on_object_def New_NeedWakeup New_NeedIdle split: if_splits)
    then show ?thesis
      using reconcileDeletion_tame [OF R kc st1(1,4,5) S] reconcileWakeup_tame [OF R kc st1(1,4) S(1)]
        reconcileIdle_tame [OF R kc st1(1,4)] stored_keeps_tame [OF st1(1), of ?Q] st1
      by (auto split: if_splits)
  qed
qed

end


context reconciled_kind
begin

lemma reconcileKind_tame:
  assumes R: "reconciler_contract view R" and fresh: "fresh_reads view R"
    and x: "ks_get ks (view w) (target_key i) = Some x" "tame valid level prior_level S x"
    and S: "\<forall>n \<in> S. 0 \<le> n" "1 \<in> S"
    and run: "reconcileKind R i (client R) New w = (r, w')"
  shows "keeps_tame view ks (target_key i) (\<lambda>y. tame valid level prior_level S y \<and> rest y = rest x) w'"
proof -
  obtain g w1 where get: "kc_get (client R) (target_key i) w = (g, w1)" by fastforce
  have gc: "get_contract view ops ks (client R)"
    using client_contract [OF R] by (simp add: kind_contract_def)
  note gd = get_contractD [OF gc get] and cd = coherentD [OF client_coherent [OF fresh] get]
  show ?thesis
  proof (cases g)
    case (Inl e)
    then have "reconcileResourceNotFound R i e w1 = (r, w')"
      using run get by (simp add: reconcileKind_def target_key_def instance_key_def Let_def go_try_def go_bind_def r_get_def)
    moreover have "keeps_part view (ks_get ks) (reconcileResourceNotFound R i e)"
      unfolding reconcileResourceNotFound_def
      by (intro keeps_part_if keeps_part_check keeps_part_return removeFinalizer_keeps [OF R])
    ultimately have "ks_get ks (view w') = ks_get ks (view w1)" by (blast dest: keeps_partD)
    then show ?thesis using x gd(1) by (simp add: keeps_tame_def)
  next
    case (Inr y)
    then have y: "y = x" using cd(1) x(1) by simp
    obtain x1 where "ReconcileWithIdler R i (New (client R)) (w1, x) = (r, (w', x1))"
      using run get Inr y
      by (auto simp: reconcileKind_def target_key_def instance_key_def Let_def go_try_def go_bind_def r_get_def
          go_local_eq simp del: go_local_apply)
    moreover have "object_key ops x = target_key i" "persisted ops x = Some x" using gd(2,4) Inr y by auto
    then have "stored view ops ks w1 x" using gd(1) x(1) by (simp add: stored_def)
    ultimately show ?thesis
      using ReconcileWithIdler_tame [OF R client_contract [OF R] _ x(2) S] \<open>object_key ops x = target_key i\<close> by metis
  qed
qed

text \<open>A run for an instance that refers to the workload, and one that does not.\<close>

lemma Reconcile_tame:
  fixes R :: "'c reconciler"
  assumes R: "reconciler_contract view R" and fresh: "fresh_reads view R"
    and x: "ks_get ks (view w) k = Some x" "tame valid level prior_level S x"
    and S: "\<forall>n \<in> S. 0 \<le> n" "1 \<in> S"
    and owned: "\<And>i. cl_IdlingResources (view w) req = Some i \<Longrightarrow> apart_from_owned i (\<lambda>c. ks_get ks c k)"
    and other: "\<And>i. ref_Kind (ref_of i) \<noteq> kind_name \<or> target_key i \<noteq> k \<Longrightarrow> apart_from_workload i (\<lambda>c. ks_get ks c k)"
    and run: "Reconcile R req w = (r, w')"
  shows "keeps_tame view ks k (\<lambda>y. tame valid level prior_level S y \<and> rest y = rest x) w'"
proof -
  let ?p = "\<lambda>c. ks_get ks c k"
  consider (same) "?p (view w') = ?p (view w)"
    | (reach) i j w3 where "cl_IdlingResources (view w) req = Some i" "same_instance i j" "?p (view w3) = ?p (view w)"
        "reconcileWorkload R j w3 = (r, w')"
    using Reconcile_prefix [where view = view and R = R and w = w and req = req and p = ?p and r = r and w' = w',
        OF R fresh _ _ run] owned instances_apart by metis
  then show ?thesis
  proof cases
    case same
    with x show ?thesis by (simp add: keeps_tame_def)
  next
    case reach
    show ?thesis
    proof (cases "ref_Kind (ref_of j) = kind_name \<and> target_key j = k")
      case True
      then have "reconcileKind R j (client R) New w3 = (r, w')" using reach(4) dispatch by simp
      then show ?thesis
        using reconcileKind_tame [OF R fresh _ x(2) S, of w3 j] reach(3) x(1) True by auto
    next
      case False
      then have "apart_from_workload j ?p" using other by blast
      from keeps_partD [OF reconcileWorkload_keeps [OF R this] reach(4)] reach(3) x show ?thesis
        by (simp add: keeps_tame_def)
    qed
  qed
qed

end

end
