(* ===== verification/System.thy ===== *)
theory System
  imports Levels Kidlectl_Properties
begin

text \<open>
  The system as a step relation: runs of the operator for any request, commands of kidlectl and steps
  of everybody else, in any order. An invariant of the reachable states is proved by rule induction.
\<close>

section \<open>What kidlectl leaves alone\<close>

text \<open>Output and discovery change nothing in the cluster.\<close>

definition output_contract :: "('w \<Rightarrow> cluster) \<Rightarrow> 'w cli_library \<Rightarrow> bool" where
  "output_contract view cli \<longleftrightarrow>
     (\<forall>s w. view (cli_Println cli s w) = view w) \<and> (\<forall>w. view (cli_WriteHelp cli w) = view w)"

definition discovery_contract :: "('w \<Rightarrow> cluster) \<Rightarrow> ('w, 'rest) client_library \<Rightarrow> bool" where
  "discovery_contract view lib \<longleftrightarrow>
     (\<forall>c w d w'. lib_NewDiscovery lib c w = (Inr d, w') \<longrightarrow> (\<forall>v. view (snd (d v)) = view v))"

lemma NewKidleClient_discovery:
  assumes "discovery_contract view lib" "NewKidleClient lib ns w = (Ret (Inr k), w')"
  shows "view (snd (kd_ServerGroupsAndResources k v)) = view v"
proof -
  have "\<exists>c u u'. lib_NewDiscovery lib c u = (Inr (kd_ServerGroupsAndResources k), u')"
    using assms(2) by (auto simp: NewKidleClient_def go_eq_Ret go_call_Ret simp del: go_call_apply) blast
  with assms(1) show ?thesis unfolding discovery_contract_def by blast
qed

lemma kidlectl_client_keeps:
  assumes kc: "kind_contract view IdlingResources IdlingResourceStore (kd_IdlingResources k)"
    and disc: "\<And>v. view (snd (kd_ServerGroupsAndResources k v)) = view v"
    and p: "\<And>c f. p (cl_IdlingResources_update f c) = p c"
  shows "keeps_part view p (ApplyDesiredIdleState k idle req)"
    and "keeps_part view p (CreateIdlingResource k idle ref req)"
proof -
  have contracts: "get_contract view IdlingResources IdlingResourceStore (kd_IdlingResources k)"
    "update_contract view IdlingResources IdlingResourceStore (kd_IdlingResources k)"
    "create_contract view IdlingResources IdlingResourceStore (kd_IdlingResources k)"
    using kc by (simp_all add: kind_contract_def)
  have get: "keeps_part view p (go_call (kc_get (kd_IdlingResources k) key))" for key
    using ik.keeps_part_get [OF contracts(1)] by (simp add: r_get_def)
  have update: "keeps_part view p (go_call (kc_update (kd_IdlingResources k) x))" for x
    unfolding r_update_def [symmetric]
    by (rule ik.keeps_part_update [OF contracts(2)]) (simp add: p IdlingResourceStore_def)
  have create: "keeps_part view p (go_call (kc_create (kd_IdlingResources k) x))" for x
    unfolding r_create_def [symmetric]
    by (rule ik.keeps_part_create [OF contracts(3)]) (simp add: p IdlingResourceStore_def)
  show "keeps_part view p (ApplyDesiredIdleState k idle req)"
    unfolding ApplyDesiredIdleState_def Let_def
    by (intro keeps_part_try keeps_part_if keeps_part_return get update)
  have "keeps_part view p (go_call (kd_ServerGroupsAndResources k))"
    by (rule keeps_partI) (use disc in \<open>auto simp: go_call_Ret\<close>)
  then have "keeps_part view p (GetAllowedResources k)"
    unfolding GetAllowedResources_def by (intro keeps_part_try keeps_part_return keeps_part_sum)
  then show "keeps_part view p (CreateIdlingResource k idle ref req)"
    unfolding CreateIdlingResource_def Let_def
    by (intro keeps_part_if keeps_part_return keeps_part_try keeps_part_bind keeps_part_pure create)
qed

text \<open>The arguments of a command that parsed, or a parse error: no command touches a workload.\<close>

lemma kidlectl_keeps:
  assumes lib: "client_library_contract view lib" "discovery_contract view lib" and cli: "cli_New cli = NewKidleClient lib"
    and out: "output_contract view cli"
    and p: "\<And>c f. p (cl_IdlingResources_update f c) = p c"
  shows "keeps_part view p (kidlectl_main cli vars parsed)"
proof -
  have client: "keeps_part view p (go_try (NewKidleClient lib ns) (\<lambda>err. go_return 2) f)"
    if "\<And>k. kind_contract view IdlingResources IdlingResourceStore (kd_IdlingResources k) \<Longrightarrow>
        (\<And>v. view (snd (kd_ServerGroupsAndResources k v)) = view v) \<Longrightarrow> keeps_part view p (f k)" for ns f
  proof (rule keeps_partI)
    fix w r w' assume run: "go_try (NewKidleClient lib ns) (\<lambda>err. go_return 2) f w = (r, w')"
    obtain q w1 where new: "NewKidleClient lib ns w = (q, w1)" by (metis surj_pair)
    note n = NewKidleClient_run [OF lib(1) new]
    show "p (view w') = p (view w)"
    proof (cases q)
      case (Panic e)
      with n show ?thesis by simp
    next
      case (Ret s)
      show ?thesis
      proof (cases s)
        case (Inl e)
        with Ret run new n show ?thesis by simp
      next
        case (Inr k)
        then have "keeps_part view p (f k)"
          using that [of k] n Ret NewKidleClient_discovery [OF lib(2), of ns w k w1] new by simp
        moreover have "f k w1 = (r, w')" using run new Ret Inr by simp
        ultimately show ?thesis using n by (auto dest: keeps_partD)
      qed
    qed
  qed
  have "keeps_part view p (IdleCommand (cli_New cli) opts)" "keeps_part view p (WakeupCommand (cli_New cli) opts)" for opts
    unfolding IdleCommand_def WakeupCommand_def cli
    by (rule client, intro keeps_part_try keeps_part_return kidlectl_client_keeps(1) p; simp)+
  moreover have "keeps_part view p (CreateCommand (cli_New cli) opts)" for opts
    unfolding CreateCommand_def cli
    by (rule client, intro keeps_part_try keeps_part_return kidlectl_client_keeps(2) p; simp)
  moreover have "keeps_part view p (VersionCommand cli vars)" "keeps_part view p (go_call (\<lambda>w. ((), cli_WriteHelp cli w)))"
    using out by (auto simp: VersionCommand_def output_contract_def intro!: keeps_partI split: sum.splits)
  ultimately show ?thesis
    unfolding kidlectl_main_def
    by (auto split: sum.splits prod.splits intro!: keeps_part_bind keeps_part_return)
qed

section \<open>The system\<close>

inductive system_step :: "'w reconciler \<Rightarrow> 'w cli_library \<Rightarrow> ('w \<Rightarrow> 'w \<Rightarrow> bool) \<Rightarrow> 'w \<Rightarrow> 'w \<Rightarrow> bool"
  for R cli others where
  operator: "Reconcile R req w = (r, w') \<Longrightarrow> system_step R cli others w w'"
| command: "kidlectl_main cli vars parsed w = (r, w') \<Longrightarrow> system_step R cli others w w'"
| others: "others w w' \<Longrightarrow> system_step R cli others w w'"

inductive_simps system_step_iff: "system_step R cli others w w'"

inductive reachable :: "'w reconciler \<Rightarrow> 'w cli_library \<Rightarrow> ('w \<Rightarrow> 'w \<Rightarrow> bool) \<Rightarrow> 'w \<Rightarrow> 'w \<Rightarrow> bool"
  for R cli others w where
  start: "reachable R cli others w w"
| step: "reachable R cli others w u \<Longrightarrow> system_step R cli others u v \<Longrightarrow> reachable R cli others w v"

context reconciled_kind
begin

text \<open>A workload stays tame, and its template stays what it is.\<close>

lemma reachable_tame:
  fixes R :: "'c reconciler"
  assumes R: "reconciler_contract view R" "fresh_reads view R"
    and lib: "client_library_contract view lib" "discovery_contract view lib" "cli_New cli = NewKidleClient lib"
      "output_contract view cli"
    and others: "\<And>u v. others u v \<Longrightarrow> ks_get ks (view v) k = ks_get ks (view u) k"
    and S: "\<forall>n \<in> S. 0 \<le> n" "1 \<in> S"
    and apart: "\<And>i. apart_from_owned i (\<lambda>c. ks_get ks c k)"
      "\<And>i. ref_Kind (ref_of i) \<noteq> kind_name \<or> target_key i \<noteq> k \<Longrightarrow> apart_from_workload i (\<lambda>c. ks_get ks c k)"
    and x: "ks_get ks (view w) k = Some x" "tame valid level prior_level S x"
    and reach: "reachable R cli others w w'"
  shows "\<exists>y. ks_get ks (view w') k = Some y \<and> tame valid level prior_level S y \<and> rest y = rest x"
  using reach
proof (induction rule: reachable.induct)
  case start
  with x show ?case by blast
next
  case (step u v)
  then obtain y where y: "ks_get ks (view u) k = Some y" "tame valid level prior_level S y" "rest y = rest x" by blast
  from step.hyps(2) consider (operator) req r where "Reconcile R req u = (r, v)"
    | (command) vars parsed r where "kidlectl_main cli vars parsed u = (r, v)" | (others) "others u v"
    unfolding system_step_iff by blast
  then show ?case
  proof cases
    case operator
    from Reconcile_tame [OF R y(1,2) S apart operator] y(3) show ?thesis
      by (auto simp: keeps_tame_def)
  next
    case command
    have "keeps_part view (\<lambda>c. ks_get ks c k) (kidlectl_main cli vars parsed)"
      by (rule kidlectl_keeps [OF lib]) (simp add: instances_apart)
    from keeps_partD [OF this command] y show ?thesis by simp
  next
    case others
    with assms(7) y show ?thesis by simp
  qed
qed

end

text \<open>
  C4: However runs of the operator for any instances, failing runs and runs that panic included, commands
  of kidlectl and steps of others that leave the Deployment and the StatefulSet of this name alone
  follow each other, neither is lost, its template never changes, and it runs at 0, at the number it
  had at the start, or at 1, which a wakeup takes when there is no record. The record, if any, is of
  one of the last two.
\<close>

theorem reachable_replicas:
  assumes "reconciler_contract view R" "fresh_reads view R"
    and "client_library_contract view lib" "discovery_contract view lib" "cli_New cli = NewKidleClient lib"
      "output_contract view cli"
    and "\<forall>u v. others u v \<longrightarrow> cl_Deployments (view v) k = cl_Deployments (view u) k \<and>
        cl_StatefulSets (view v) k = cl_StatefulSets (view u) k"
    and "reachable R cli others w w'"
  shows "(\<forall>d. cl_Deployments (view w) k = Some d \<longrightarrow> deployment_valid d \<longrightarrow>
       sint (deployment_prior d) \<in> {1, deployment_level d} \<longrightarrow>
       (\<exists>d'. cl_Deployments (view w') k = Some d' \<and> d_rest d' = d_rest d \<and>
          deployment_level d' \<in> {0, 1, deployment_level d} \<and>
          sint (deployment_prior d') \<in> {1, deployment_level d})) \<and>
     (\<forall>s. cl_StatefulSets (view w) k = Some s \<longrightarrow> statefulset_valid s \<longrightarrow>
       sint (statefulset_prior s) \<in> {1, statefulset_level s} \<longrightarrow>
       (\<exists>s'. cl_StatefulSets (view w') k = Some s' \<and> s_rest s' = s_rest s \<and>
          statefulset_level s' \<in> {0, 1, statefulset_level s} \<and>
          sint (statefulset_prior s') \<in> {1, statefulset_level s}))"
proof (intro conjI allI impI)
  fix d assume d: "cl_Deployments (view w) k = Some d" "deployment_valid d"
    "sint (deployment_prior d) \<in> {1, deployment_level d}"
  have "0 \<le> deployment_level d" by (rule dep.valid_level [OF d(2)])
  moreover have "apart_from_owned i (\<lambda>c. ks_get DeploymentStore c k)"
    "ref_Kind (ref_of i) \<noteq> ''Deployment'' \<or> target_key i \<noteq> k \<Longrightarrow>
      apart_from_workload i (\<lambda>c. ks_get DeploymentStore c k)" for i
    by (auto simp: DeploymentStore_def apart_from_owned_def apart_from_workload_def)
  note apart = this
  ultimately show "\<exists>d'. cl_Deployments (view w') k = Some d' \<and> d_rest d' = d_rest d \<and>
      deployment_level d' \<in> {0, 1, deployment_level d} \<and> sint (deployment_prior d') \<in> {1, deployment_level d}"
    using d rec_d.reachable_tame [OF assms(1-6) _ _ _ apart _ _ assms(8), where S = "{1, deployment_level d}" and x = d]
      assms(7)
    by (auto simp: tame_def DeploymentStore_def)
next
  fix s assume s: "cl_StatefulSets (view w) k = Some s" "statefulset_valid s"
    "sint (statefulset_prior s) \<in> {1, statefulset_level s}"
  have "0 \<le> statefulset_level s" by (rule sts.valid_level [OF s(2)])
  moreover have "apart_from_owned i (\<lambda>c. ks_get StatefulSetStore c k)"
    "ref_Kind (ref_of i) \<noteq> ''StatefulSet'' \<or> target_key i \<noteq> k \<Longrightarrow>
      apart_from_workload i (\<lambda>c. ks_get StatefulSetStore c k)" for i
    by (auto simp: StatefulSetStore_def apart_from_owned_def apart_from_workload_def)
  note apart = this
  ultimately show "\<exists>s'. cl_StatefulSets (view w') k = Some s' \<and> s_rest s' = s_rest s \<and>
      statefulset_level s' \<in> {0, 1, statefulset_level s} \<and> sint (statefulset_prior s') \<in> {1, statefulset_level s}"
    using s rec_s.reachable_tame [OF assms(1-6) _ _ _ apart _ _ assms(8), where S = "{1, statefulset_level s}" and x = s]
      assms(7)
    by (auto simp: tame_def StatefulSetStore_def)
qed

text \<open>\<open>kidlectl idle\<close> on the small cluster, and a run of the operator.\<close>

lemma demo_system_contracts:
  "discovery_contract sim_view demo_library" "output_contract sim_view demo_cli"
  by (auto simp: discovery_contract_def output_contract_def demo_library_def demo_client_def demo_cli_def)

theorem reachable_replicas_witness:
  "\<exists>w1 r w' d'. kidlectl_main demo_cli version_defaults (Inr (''idle'', demo_options))
       (demo_world (demo_instance ''Deployment'' False)) = (Ret 0, w1) \<and>
     Reconcile demo_reconciler demo_req w1 = (r, w') \<and>
     cl_Deployments (sim_view w') demo_target = Some d' \<and> deployment_level d' \<in> {0, 1, 3}"
proof -
  let ?w = "demo_world (demo_instance ''Deployment'' False)"
  obtain w1 v g where cmd: "kidlectl_main demo_cli version_defaults (Inr (''idle'', demo_options)) ?w = (Ret 0, w1)"
    by (rule demo_command)
  obtain r w' where run: "Reconcile demo_reconciler demo_req w1 = (r, w')" by (metis surj_pair)
  have reach: "reachable demo_reconciler demo_cli (\<lambda>u v. False) ?w w'"
    by (rule reachable.step [OF reachable.step [OF reachable.start system_step.command [OF cmd]] system_step.operator [OF run]])
  have cli: "cli_New demo_cli = NewKidleClient demo_library" by (simp add: demo_cli_def)
  have d: "cl_Deployments (sim_view ?w) demo_target = Some demo_deployment" "deployment_valid demo_deployment"
    "sint (deployment_prior demo_deployment) = 1" "deployment_level demo_deployment = 3"
    by (simp_all add: demo_workloads)
  have "\<forall>u v :: sim_world. False \<longrightarrow> cl_Deployments (sim_view v) demo_target = cl_Deployments (sim_view u) demo_target \<and>
      cl_StatefulSets (sim_view v) demo_target = cl_StatefulSets (sim_view u) demo_target" by simp
  note all = reachable_replicas [OF sim_reconciler_contract sim_fresh_reads demo_library_contract demo_system_contracts(1)
      cli demo_system_contracts(2) this reach, THEN conjunct1, rule_format, OF d(1,2)]
  obtain d' where "cl_Deployments (sim_view w') demo_target = Some d'" "deployment_level d' \<in> {0, 1, 3}"
    using all d(3,4) by auto
  with cmd run show ?thesis by blast
qed

end
