(* ===== verification/Requeue.thy ===== *)
theory Requeue
  imports Demo
begin

text \<open>
  How often a request is run. The controller runtime runs a request again when a run returned an
  error or asked for another run, and forgets it otherwise; a panic ends the program. Others act
  between the runs. \<open>worked_off\<close> follows one request this way; \<open>None\<close> is a request that is run for
  ever.
\<close>

section \<open>The runs of a request\<close>

definition wants_more :: "reconcile_result \<times> go_error option \<Rightarrow> bool" where
  "wants_more answer \<longleftrightarrow>
     snd answer \<noteq> None \<or> res_Requeue (fst answer) \<or> 0 < res_RequeueAfter (fst answer)"

lemma wants_more_simps [simp]:
  "wants_more (res, Some err)" "\<not> wants_more (no_requeue, None)"
  "0 < t \<Longrightarrow> wants_more (no_requeue\<lparr> res_RequeueAfter := t \<rparr>, None)"
  by (simp_all add: wants_more_def no_requeue_def)





section \<open>Waiting for a workload\<close>











end
