(* ===== verification/Events.thy ===== *)
theory Events
  imports Demo
begin

text \<open>
  What a user sees of a run that failed: the events. The recorder appends to a log; which errors of
  a run are the subject of its last event, and which are only returned, to the log of the operator.
\<close>

definition event_log :: "('w \<Rightarrow> event list) \<Rightarrow> 'w reconciler \<Rightarrow> bool" where
  "event_log log R \<longleftrightarrow> (\<forall>ev w. log (rc_Event R ev w) = log w @ [ev])"

text \<open>The last event is a warning about the object, with the error that \<open>e\<close> formats.\<close>

definition reported :: "('w \<Rightarrow> event list) \<Rightarrow> namespaced_name \<Rightarrow> go_error \<Rightarrow> 'w \<Rightarrow> bool" where
  "reported log key e w \<longleftrightarrow>
     (\<exists>msg err ev. e = Errorf msg err \<and> log w \<noteq> [] \<and> last (log w) = ev \<and> ev_Object ev = key \<and>
        ev_Type ev = EventTypeWarning \<and> ev_Error ev = Some err)"

lemma reported_event:
  assumes "event_log log R" "r_event R i EventTypeWarning reason text (Some err) w = (r, w')"
  shows "reported log (meta_key (ir_meta i)) (Errorf msg err) w'"
  using assms by (auto simp: reported_def event_log_def r_event_def)

text \<open>The errors that are not: the reads, the reference, and the finalizer of an instance without workload.\<close>

definition only_returned :: "'w reconciler \<Rightarrow> namespaced_name \<Rightarrow> go_error \<Rightarrow> bool" where
  "only_returned R req e \<longleftrightarrow>
     (\<exists>w. fst (kc_get (rc_IdlingResources R) req w) = Inl e) \<or>
     (\<exists>err. e = Errorf ''error during adding annotation'' err) \<or>
     (\<exists>err. e = Errorf ''error when deleting finalizer'' err) \<or>
     (\<exists>kind err. e = Errorf (''unable to read '' @ kind) err)"

lemma ReconcileWithIdler_reported:
  assumes log: "event_log log R"
    and run: "ReconcileWithIdler R i idl (w, x) = (Ret (res, Some e), (w', x'))"
  shows "reported log (meta_key (ir_meta i)) e w' \<or> (\<exists>err. e = Errorf ''error during adding annotation'' err)"
  using run
  by (auto simp: ReconcileWithIdler_def reconcileDeletion_def reconcileWakeup_def reconcileIdle_def Let_def
      go_eq_Ret go_outer_eq_Ret simp del: go_outer_apply split: if_splits
      dest: reported_event [OF log])

lemma reconcileKind_reported:
  assumes log: "event_log log R"
    and run: "reconcileKind R i kc New w = (Ret (res, Some e), w')"
  shows "reported log (meta_key (ir_meta i)) e w' \<or> only_returned R req e"
  using run
  by (auto simp: reconcileKind_def Let_def go_eq_Ret r_call_Ret go_local_eq reconcileResourceNotFound_def
      only_returned_def simp del: go_local_apply split: if_splits dest!: ReconcileWithIdler_reported [OF log])

lemma reconcileWorkload_reported:
  assumes log: "event_log log R"
    and run: "reconcileWorkload R i w = (Ret (res, Some e), w')"
  shows "reported log (meta_key (ir_meta i)) e w' \<or> only_returned R req e"
  using run by (auto simp: reconcileWorkload_def split: if_splits dest!: reconcileKind_reported [OF log, where req = req])

lemma reconcileCron_reported:
  assumes log: "event_log log R"
    and run: "reconcileCron R i command strategy w = (Ret (Some e), w')"
  shows "reported log (meta_key (ir_meta i)) e w'"
  using run
  by (auto simp: reconcileCron_def Let_def go_eq_Ret r_call_Ret split: option.splits
      dest: reported_event [OF log])

lemma ReconcileCronStrategies_reported:
  assumes log: "event_log log R"
    and run: "ReconcileCronStrategies R i w = (Ret (res, Some e), w')"
  shows "reported log (meta_key (ir_meta i)) e w'"
  using run
  by (auto simp: ReconcileCronStrategies_def go_eq_Ret 
      dest: reported_event [OF log] reconcileCron_reported [OF log])

lemma reconcileFinalizer_reported:
  assumes log: "event_log log R" and R: "reconciler_contract view R"
    and run: "reconcileFinalizer R i w = (Ret f, w')"
  shows "case f of Inl e \<Rightarrow> reported log (meta_key (ir_meta i)) e w' | Inr j \<Rightarrow> meta_key (ir_meta j) = meta_key (ir_meta i)"
proof -
  have uc: "update_contract view IdlingResources IdlingResourceStore (rc_IdlingResources R)"
    using R by (simp add: reconciler_contract_def kind_contract_def)
  have key: "meta_key (ir_meta y) = meta_key (ir_meta (set_finalizers i fs))"
    if "kc_update (rc_IdlingResources R) (set_finalizers i fs) u = (Inr y, u')" for fs u y u'
    using ik.update_contractD(2) [OF uc that] by (auto simp: stamp_def meta_key_def)
  have same: "meta_key (ir_meta (set_finalizers i fs)) = meta_key (ir_meta i)" for fs
    by (simp add: set_finalizers_def meta_key_def)
  show ?thesis
    using run
    by (auto simp: reconcileFinalizer_def addFinalizer_def Let_def go_eq_Ret r_call_Ret same
        split: if_splits sum.splits option.splits dest: key reported_event [OF log, where i = "set_finalizers i fs" for fs, unfolded same])
qed

text \<open>
  C16: A run that ends with an error has told the user, or ends with one of four errors. Either its last
  event is a warning about the instance of the request with the error it met; or the error is
  that of reading the instance, of setting the reference on the workload, of reading the workload, or
  of taking the finalizer off an instance whose workload is gone, and it is only returned. The idlers
  and the API server are arbitrary here, but that the server keeps keys.
\<close>

theorem failed_runs_reported:
  assumes R: "reconciler_contract view R" and log: "event_log log R"
    and run: "Reconcile R req w = (Ret (res, Some e), w')"
  shows "reported log req e w' \<or> only_returned R req e"
proof -
  obtain g w1 where get: "kc_get (rc_IdlingResources R) req w = (g, w1)" by fastforce
  have gc: "get_contract view IdlingResources IdlingResourceStore (rc_IdlingResources R)"
    using R by (simp add: reconciler_contract_def kind_contract_def)
  show ?thesis
  proof (cases g)
    case (Inl err)
    with run get have "e = err" by (auto simp: Reconcile_def go_eq_Ret r_call_Ret split: if_splits)
    moreover have "fst (kc_get (rc_IdlingResources R) req w) = Inl err" using get Inl by simp
    ultimately show ?thesis unfolding only_returned_def by blast
  next
    case (Inr i)
    have key: "meta_key (ir_meta i) = req" using ik.get_contractD(2) [OF gc get Inr] by simp
    consider (finalizer) "reconcileFinalizer R i w1 = (Ret (Inl e), w')"
      | (cron) j w2 where "reconcileFinalizer R i w1 = (Ret (Inr j), w2)"
          "ReconcileCronStrategies R j w2 = (Ret (res, Some e), w')"
      | (workload) j w2 w3 where "reconcileFinalizer R i w1 = (Ret (Inr j), w2)"
          "reconcileWorkload R j w3 = (Ret (res, Some e), w')"
      using run get Inr by (auto simp: Reconcile_def go_eq_Ret r_call_Ret split: option.splits)
    then show ?thesis
    proof cases
      case finalizer
      with reconcileFinalizer_reported [OF log R finalizer] key show ?thesis by simp
    next
      case cron
      with reconcileFinalizer_reported [OF log R cron(1)] ReconcileCronStrategies_reported [OF log cron(2)] key
      show ?thesis by simp
    next
      case workload
      with reconcileFinalizer_reported [OF log R workload(1)] reconcileWorkload_reported [OF log workload(2), of req] key
      show ?thesis by simp
    qed
  qed
qed


text \<open>A server that refuses to update the instance.\<close>

definition read_only :: go_error where
  "read_only = ApiError (OtherReason ''read only'')"

definition demo_read_only :: "sim_world reconciler" where
  "demo_read_only = demo_reconciler\<lparr> rc_IdlingResources :=
     (rc_IdlingResources demo_reconciler)\<lparr> kc_update := \<lambda>x w. (Inl read_only, w) \<rparr> \<rparr>"

lemma demo_read_only_contract: "reconciler_contract sim_view demo_read_only"
  using sim_reconciler_contract
  by (auto simp: demo_read_only_def reconciler_contract_def kind_contract_def get_contract_def update_contract_def
      create_contract_def delete_contract_def retry_contract_def controllerutil_contract_def)

theorem failed_runs_reported_witness:
  "\<exists>w' err. Reconcile demo_read_only demo_req (demo_world (demo_instance ''Deployment'' True))
       = (Ret (no_requeue, Some (Errorf ''error when adding finalizer'' err)), w') \<and>
     sw_events w' \<noteq> [] \<and> ev_Type (last (sw_events w')) = EventTypeWarning \<and>
     ev_Object (last (sw_events w')) = demo_req"
proof -
  let ?i = "demo_instance ''Deployment'' True"
  obtain g w1 where get: "kc_get (rc_IdlingResources demo_reconciler) demo_req (demo_world ?i) = (g, w1)" by fastforce
  have "g = Inr ?i"
    using available_getD [OF _ get, of sim_view IdlingResources IdlingResourceStore] sim_reconciler_available
    by (simp add: reconciler_available_def IdlingResourceStore_def)
  moreover have "\<not> HasFinalizer ?i IdlingResourceFinalizerName" by (simp add: HasFinalizer_def demo_defs)
  ultimately obtain w' where run: "Reconcile demo_read_only demo_req (demo_world ?i) = (Ret (no_requeue,
      Some (Errorf ''error when adding finalizer'' (Errorf ''failed to update idling resource finalizer'' read_only))), w')"
    using get
    by (simp add: Reconcile_def demo_read_only_def r_get_def r_update_def go_try_def go_bind_def
        reconcileFinalizer_def addFinalizer_def r_event_def)
  have log: "event_log sw_events demo_read_only"
    by (simp add: event_log_def demo_read_only_def sim_reconciler_def)
  have "fst (kc_get (rc_IdlingResources demo_read_only) demo_req w)
      \<noteq> Inl (Errorf ''error when adding finalizer'' err)" for w err
    using available_getD [of sim_view IdlingResources IdlingResourceStore "rc_IdlingResources demo_reconciler" demo_req w]
      sim_reconciler_available
    by (cases "kc_get (rc_IdlingResources demo_reconciler) demo_req w")
      (auto simp: demo_read_only_def reconciler_available_def split: option.splits)
  then have "reported sw_events demo_req
      (Errorf ''error when adding finalizer'' (Errorf ''failed to update idling resource finalizer'' read_only)) w'"
    using failed_runs_reported [OF demo_read_only_contract log run] by (simp add: only_returned_def)
  with run show ?thesis by (auto simp: reported_def)
qed

end
