(* ===== verification/Interleaving.thy ===== *)
theory Interleaving
  imports Demo "HOL-Library.Sublist"
begin

text \<open>
  Runs that are not alone: other clients of the API server act between any two calls of a run, and a
  call may be answered with an error although the server has applied it. The world shows its history,
  the clusters the server has gone through, each with who made the step; \<open>shared_contract\<close> says what a
  call adds to it. The judgement \<open>performs\<close> says which changes a program makes to one object, each
  applied to the object the server stored at that very moment; a run of \<open>Reconcile\<close> performs at most
  the steps of its branch, each once and in order, and writes no other object.
\<close>

section \<open>Histories\<close>

datatype actor = Own | Others

type_synonym history = "(actor \<times> cluster) list"

text \<open>The newest step is the last.\<close>

definition now :: "history \<Rightarrow> cluster" where
  "now h = snd (last h)"

definition others :: "history \<Rightarrow> bool" where
  "others es \<longleftrightarrow> list_all (\<lambda>e. fst e = Others) es"

text \<open>The changes of a part \<open>p\<close> of the cluster \<open>c\<close> by own steps: what it was and what it became.\<close>

fun own_writes :: "(cluster \<Rightarrow> 'b) \<Rightarrow> cluster \<Rightarrow> history \<Rightarrow> ('b \<times> 'b) list" where
  "own_writes p c [] = []"
| "own_writes p c ((a, c') # es) =
     (if a = Own \<and> p c' \<noteq> p c then [(p c, p c')] else []) @ own_writes p c' es"

lemma now_snoc [simp]: "now (h @ [(a, c)]) = c"
  by (simp add: now_def)

lemma own_writes_append:
  "own_writes p (now h) (es @ fs) = own_writes p (now h) es @ own_writes p (now (h @ es)) fs"
proof (induction es arbitrary: h)
  case (Cons e es)
  obtain a c where e: "e = (a, c)" by fastforce
  show ?case using Cons.IH [of "h @ [e]"] by (simp add: e)
qed simp

lemma own_writes_others: "others es \<Longrightarrow> own_writes p c es = []"
  by (induction p c es rule: own_writes.induct) (auto simp: others_def)

lemma own_writes_image:
  "(a, b) \<in> set (own_writes (\<lambda>c. f (p c)) c es) \<Longrightarrow> \<exists>x y. (x, y) \<in> set (own_writes p c es) \<and> f x = a \<and> f y = b"
proof (induction es arbitrary: c)
  case (Cons e es)
  obtain who c' where e: "e = (who, c')" by fastforce
  from Cons.prems consider "(a, b) \<in> set (own_writes (\<lambda>c. f (p c)) c' es)"
    | "who = Own" "f (p c') \<noteq> f (p c)" "a = f (p c)" "b = f (p c')"
    by (auto simp: e split: if_splits)
  then show ?case
  proof cases
    case 1
    from Cons.IH [OF this] show ?thesis by (auto simp: e)
  next
    case 2
    then show ?thesis by (intro exI [of _ "p c"] exI [of _ "p c'"]) (auto simp: e)
  qed
qed simp

lemma others_append [simp]: "others (es @ fs) \<longleftrightarrow> others es \<and> others fs"
  by (simp add: others_def)

text \<open>One own step, from a cluster \<open>c\<close> to a cluster \<open>c'\<close>, among steps of others.\<close>

definition own_step :: "history \<Rightarrow> history \<Rightarrow> (cluster \<Rightarrow> cluster \<Rightarrow> bool) \<Rightarrow> bool" where
  "own_step h es Q \<longleftrightarrow>
     (\<exists>os c' fs. es = os @ (Own, c') # fs \<and> others os \<and> others fs \<and> Q (now (h @ os)) c')"

lemma own_step_writes:
  assumes "own_step h es Q" "h \<noteq> []"
  obtains c c' where "Q c c'" "c \<in> snd ` set (h @ es)"
    "own_writes p (now h) es = (if p c' = p c then [] else [(p c, p c')])"
proof -
  obtain os c' fs where es: "es = os @ (Own, c') # fs" "others os" "others fs" and Q: "Q (now (h @ os)) c'"
    using assms(1) unfolding own_step_def by blast
  have "last (h @ os) \<in> set (h @ os)" using assms(2) by (intro last_in_set) simp
  then have "now (h @ os) \<in> snd ` set (h @ os)" unfolding now_def by (rule imageI)
  then have "now (h @ os) \<in> snd ` set (h @ es)" by (auto simp: es(1))
  moreover have "own_writes p (now h) es = (if p c' = p (now (h @ os)) then [] else [(p (now (h @ os)), p c')])"
    unfolding es(1) own_writes_append using es(2,3) by (simp add: own_writes_others)
  ultimately show ?thesis using that Q by blast
qed

section \<open>What a shared server promises\<close>

text \<open>
  The server as a world shows it: the worlds it can be in and their history. Every call keeps
  \<open>srv_ok\<close> and appends to the history.
\<close>

record 'w server =
  srv_ok :: "'w \<Rightarrow> bool"
  srv_history :: "'w \<Rightarrow> history"

definition went :: "'w server \<Rightarrow> 'w \<Rightarrow> 'w \<Rightarrow> history \<Rightarrow> bool" where
  "went S w w' es \<longleftrightarrow> srv_ok S w' \<and> srv_history S w' = srv_history S w @ es"

text \<open>What the own steps between two worlds changed of a part of the cluster.\<close>

definition own_changes :: "'w server \<Rightarrow> (cluster \<Rightarrow> 'b) \<Rightarrow> 'w \<Rightarrow> 'w \<Rightarrow> ('b \<times> 'b) list" where
  "own_changes S p w w' = own_writes p (now (srv_history S w))
     (drop (length (srv_history S w)) (srv_history S w'))"

lemma own_changes_went: "went S w w' es \<Longrightarrow> own_changes S p w w' = own_writes p (now (srv_history S w)) es"
  by (simp add: own_changes_def went_def)

text \<open>The versions of an object the server has stored.\<close>

definition versions :: "'o kind_store \<Rightarrow> history \<Rightarrow> namespaced_name \<Rightarrow> 'o set" where
  "versions ks h key = {x. \<exists>c \<in> snd ` set h. ks_get ks c key = Some x}"

text \<open>The step of an accepted call, on the cluster at the moment the server takes it.\<close>

definition update_step ::
  "'o object_ops \<Rightarrow> 'o kind_store \<Rightarrow> 'o \<Rightarrow> 'o \<Rightarrow> cluster \<Rightarrow> cluster \<Rightarrow> bool"
  where
  "update_step ops ks x y c c' \<longleftrightarrow>
     (\<exists>cur. ks_get ks c (object_key ops x) = Some cur \<and>
        (resource_version ops x \<noteq> '''' \<longrightarrow> resource_version ops cur = resource_version ops x)) \<and>
     c' = ks_map ks (\<lambda>m. m(object_key ops x := persisted ops y)) c"

definition create_step ::
  "'o object_ops \<Rightarrow> 'o kind_store \<Rightarrow> 'o \<Rightarrow> 'o \<Rightarrow> cluster \<Rightarrow> cluster \<Rightarrow> bool"
  where
  "create_step ops ks x y c c' \<longleftrightarrow>
     ks_get ks c (object_key ops x) = None \<and> c' = ks_map ks (\<lambda>m. m(object_key ops x \<mapsto> y)) c"

definition delete_step :: "'o object_ops \<Rightarrow> 'o kind_store \<Rightarrow> 'o \<Rightarrow> cluster \<Rightarrow> cluster \<Rightarrow> bool" where
  "delete_step ops ks x c c' \<longleftrightarrow>
     (\<exists>cur t v g. ks_get ks c (object_key ops x) = Some cur \<and>
        c' = ks_map ks (\<lambda>m. m(object_key ops x :=
           (if om_Finalizers (getMeta ops cur) = [] then None
            else Some (stamp ops v g (terminating ops t cur))))) c)"

text \<open>
  A read returns a version of the object the server has stored at some time. An accepted write is one
  own step; a failed one is none, or, when the error is not that of a conflict, the step whose answer
  was lost.
\<close>

definition shared_get :: "'w server \<Rightarrow> 'o object_ops \<Rightarrow> 'o kind_store \<Rightarrow> ('w, 'o) kind_client \<Rightarrow> bool" where
  "shared_get S ops ks kc \<longleftrightarrow> (\<forall>key w r w'. kc_get kc key w = (r, w') \<longrightarrow>
     (\<forall>x. r = Inr x \<longrightarrow> object_key ops x = key) \<and>
     (srv_ok S w \<longrightarrow> (\<exists>es. went S w w' es \<and> others es) \<and>
        (\<forall>x. r = Inr x \<longrightarrow> resource_version ops x \<noteq> '''' \<and> x \<in> versions ks (srv_history S w') key)))"

definition shared_update :: "'w server \<Rightarrow> 'o object_ops \<Rightarrow> 'o kind_store \<Rightarrow> ('w, 'o) kind_client \<Rightarrow> bool" where
  "shared_update S ops ks kc \<longleftrightarrow> (\<forall>x w r w'. kc_update kc x w = (r, w') \<longrightarrow>
     (\<forall>y. r = Inr y \<longrightarrow> (\<exists>v g. y = stamp ops v g x \<and> v \<noteq> '''')) \<and>
     (srv_ok S w \<longrightarrow> (\<exists>es. went S w w' es \<and>
        (case r of
           Inr y \<Rightarrow> own_step (srv_history S w) es (update_step ops ks x y)
         | Inl e \<Rightarrow> others es \<or> \<not> IsConflict e \<and>
             (\<exists>v g. v \<noteq> '''' \<and> own_step (srv_history S w) es (update_step ops ks x (stamp ops v g x)))))))"

definition shared_create :: "'w server \<Rightarrow> 'o object_ops \<Rightarrow> 'o kind_store \<Rightarrow> ('w, 'o) kind_client \<Rightarrow> bool" where
  "shared_create S ops ks kc \<longleftrightarrow> (\<forall>x w r w'. kc_create kc x w = (r, w') \<longrightarrow>
     (srv_ok S w \<longrightarrow> (\<exists>es. went S w w' es \<and>
        (case r of
           Inr y \<Rightarrow> own_step (srv_history S w) es (create_step ops ks x y)
         | Inl e \<Rightarrow> others es \<or> (\<exists>y. own_step (srv_history S w) es (create_step ops ks x y))))))"

definition shared_delete :: "'w server \<Rightarrow> 'o object_ops \<Rightarrow> 'o kind_store \<Rightarrow> ('w, 'o) kind_client \<Rightarrow> bool" where
  "shared_delete S ops ks kc \<longleftrightarrow> (\<forall>x policy w r w'. kc_delete kc x policy w = (r, w') \<longrightarrow>
     (srv_ok S w \<longrightarrow> (\<exists>es. went S w w' es \<and>
        (others es \<and> r \<noteq> None \<or> own_step (srv_history S w) es (delete_step ops ks x)))))"

definition shared_contract :: "'w server \<Rightarrow> 'o object_ops \<Rightarrow> 'o kind_store \<Rightarrow> ('w, 'o) kind_client \<Rightarrow> bool" where
  "shared_contract S ops ks kc \<longleftrightarrow>
     shared_get S ops ks kc \<and> shared_update S ops ks kc \<and> shared_create S ops ks kc \<and>
     shared_delete S ops ks kc \<and> retry_contract kc"

text \<open>Versions are never reused: two stored states of an object with the same version are the same.\<close>

definition versioned :: "'w server \<Rightarrow> 'o object_ops \<Rightarrow> 'o kind_store \<Rightarrow> bool" where
  "versioned S ops ks \<longleftrightarrow> (\<forall>w key. srv_ok S w \<longrightarrow>
     inj_on (resource_version ops) (versions ks (srv_history S w) key))"

definition shared_reconciler :: "'w server \<Rightarrow> 'w reconciler \<Rightarrow> bool" where
  "shared_reconciler S R \<longleftrightarrow>
     shared_contract S Deployments DeploymentStore (rc_Deployments R) \<and>
     shared_contract S StatefulSets StatefulSetStore (rc_StatefulSets R) \<and>
     shared_contract S CronJobs CronJobStore (rc_CronJobs R) \<and>
     shared_contract S IdlingResources IdlingResourceStore (rc_IdlingResources R) \<and>
     shared_contract S ServiceAccounts ServiceAccountStore (rc_ServiceAccounts R) \<and>
     shared_contract S Roles RoleStore (rc_Roles R) \<and>
     shared_contract S RoleBindings RoleBindingStore (rc_RoleBindings R) \<and>
     (\<forall>ev w. srv_ok S w \<longrightarrow> (\<exists>es. went S w (rc_Event R ev w) es \<and> others es)) \<and>
     (\<forall>w. srv_ok S w \<longrightarrow> srv_history S w \<noteq> []) \<and>
     controllerutil_contract R"

section \<open>What own steps leave alone\<close>

definition leaves :: "'w server \<Rightarrow> (cluster \<Rightarrow> 'b) \<Rightarrow> 'w \<Rightarrow> 'w \<Rightarrow> bool" where
  "leaves S p w w' \<longleftrightarrow> (srv_ok S w \<longrightarrow>
     (\<exists>es. went S w w' es \<and> own_writes p (now (srv_history S w)) es = []))"

lemma leaves_refl: "reflp (leaves S p)"
  by (auto simp: reflp_def leaves_def went_def)

lemma leaves_trans: "transp (leaves S p)"
proof (rule transpI)
  fix u v w assume uv: "leaves S p u v" and vw: "leaves S p v w"
  show "leaves S p u w"
    unfolding leaves_def
  proof
    assume "srv_ok S u"
    then obtain es where es: "went S u v es" "own_writes p (now (srv_history S u)) es = []"
      using uv by (auto simp: leaves_def)
    then obtain fs where fs: "went S v w fs" "own_writes p (now (srv_history S v)) fs = []"
      using vw by (auto simp: leaves_def went_def)
    from es fs show "\<exists>es. went S u w es \<and> own_writes p (now (srv_history S u)) es = []"
      by (intro exI [of _ "es @ fs"]) (simp add: went_def own_writes_append)
  qed
qed

lemma shared_updateD:
  assumes "shared_contract S ops ks kc" "kc_update kc x w = (r, w')" "srv_ok S w"
  shows "\<exists>es. went S w w' es \<and> (others es \<and> (\<forall>y. r \<noteq> Inr y) \<or> (\<forall>e. r = Inl e \<longrightarrow> \<not> IsConflict e) \<and>
     (\<exists>y v g. y = stamp ops v g x \<and> v \<noteq> '''' \<and> (\<forall>z. r = Inr z \<longrightarrow> z = y) \<and>
        own_step (srv_history S w) es (update_step ops ks x y)))"
proof -
  have ans: "\<forall>y. r = Inr y \<longrightarrow> (\<exists>v g. y = stamp ops v g x \<and> v \<noteq> '''')"
    using assms(1,2) unfolding shared_contract_def shared_update_def by blast
  obtain es where es: "went S w w' es" "case r of
       Inr y \<Rightarrow> own_step (srv_history S w) es (update_step ops ks x y)
     | Inl e \<Rightarrow> others es \<or> \<not> IsConflict e \<and>
         (\<exists>v g. v \<noteq> '''' \<and> own_step (srv_history S w) es (update_step ops ks x (stamp ops v g x)))"
    using assms unfolding shared_contract_def shared_update_def by blast
  show ?thesis
  proof (rule exI [of _ es], rule conjI [OF es(1)], cases r)
    case (Inl e)
    then show "others es \<and> (\<forall>y. r \<noteq> Inr y) \<or> (\<forall>e. r = Inl e \<longrightarrow> \<not> IsConflict e) \<and>
       (\<exists>y v g. y = stamp ops v g x \<and> v \<noteq> '''' \<and> (\<forall>z. r = Inr z \<longrightarrow> z = y) \<and>
          own_step (srv_history S w) es (update_step ops ks x y))"
      using es(2) by auto
  next
    case (Inr y)
    then show "others es \<and> (\<forall>y. r \<noteq> Inr y) \<or> (\<forall>e. r = Inl e \<longrightarrow> \<not> IsConflict e) \<and>
       (\<exists>y v g. y = stamp ops v g x \<and> v \<noteq> '''' \<and> (\<forall>z. r = Inr z \<longrightarrow> z = y) \<and>
          own_step (srv_history S w) es (update_step ops ks x y))"
      using es(2) ans by auto
  qed
qed

lemma shared_createD:
  assumes "shared_contract S ops ks kc" "kc_create kc x w = (r, w')" "srv_ok S w"
  shows "\<exists>es y. went S w w' es \<and> (others es \<or> own_step (srv_history S w) es (create_step ops ks x y))"
proof -
  obtain es where es: "went S w w' es" "case r of
       Inr y \<Rightarrow> own_step (srv_history S w) es (create_step ops ks x y)
     | Inl e \<Rightarrow> others es \<or> (\<exists>y. own_step (srv_history S w) es (create_step ops ks x y))"
    using assms unfolding shared_contract_def shared_create_def by blast
  then show ?thesis by (cases r) auto
qed

context stored_kind
begin

lemma shared_calls_keep:
  assumes contract: "shared_contract S ops ks kc" and h: "\<And>w. srv_ok S w \<Longrightarrow> srv_history S w \<noteq> []"
    and p: "\<And>k c v. k \<in> K \<Longrightarrow> p (ks_map ks (\<lambda>m. m(k := v)) c) = p c"
  shows "calls_keep (leaves S p) ops K kc"
proof (rule calls_keepI)
  show "retry_contract kc" using contract by (simp add: shared_contract_def)
  show "object_key ops x = key" if "kc_get kc key w = (Inr x, w')" for key w x w'
    using contract that unfolding shared_contract_def shared_get_def by blast
  show "\<exists>v g. y = stamp ops v g x" if "kc_update kc x w = (Inr y, w')" for x w y w'
    using contract that unfolding shared_contract_def shared_update_def by blast
  have quiet: "own_writes p (now (srv_history S w)) es = []"
    if quiet: "others es \<or> own_step (srv_history S w) es Q" "\<And>c c'. Q c c' \<Longrightarrow> p c' = p c" and ok: "srv_ok S w" for w es Q
  proof -
    from quiet(1) show ?thesis
    proof
      assume step: "own_step (srv_history S w) es Q"
      obtain c c' where "Q c c'" "own_writes p (now (srv_history S w)) es = (if p c' = p c then [] else [(p c, p c')])"
        by (rule own_step_writes [OF step h [OF ok], where p = p])
      then show ?thesis using quiet(2) by simp
    qed (rule own_writes_others)
  qed
  show "leaves S p w w'" if "kc_get kc key w = (r, w')" for key w r w'
    using contract that unfolding shared_contract_def shared_get_def leaves_def by (meson own_writes_others)
  show "leaves S p w w'" if k: "object_key ops x \<in> K" and run: "kc_update kc x w = (r, w')" for x w r w'
    unfolding leaves_def
  proof
    assume ok: "srv_ok S w"
    then obtain es y where es: "went S w w' es" "others es \<or> own_step (srv_history S w) es (update_step ops ks x y)"
      using shared_updateD [OF contract run ok] by blast
    have "own_writes p (now (srv_history S w)) es = []"
      using es(2) by (rule quiet) (auto simp: update_step_def p [OF k] ok)
    with es(1) show "\<exists>es. went S w w' es \<and> own_writes p (now (srv_history S w)) es = []" by blast
  qed
  show "leaves S p w w'" if k: "object_key ops x \<in> K" and run: "kc_create kc x w = (r, w')" for x w r w'
    unfolding leaves_def
  proof
    assume ok: "srv_ok S w"
    then obtain es y where es: "went S w w' es" "others es \<or> own_step (srv_history S w) es (create_step ops ks x y)"
      using shared_createD [OF contract run ok] by blast
    have "own_writes p (now (srv_history S w)) es = []"
      using es(2) by (rule quiet) (auto simp: create_step_def p [OF k] ok)
    with es(1) show "\<exists>es. went S w w' es \<and> own_writes p (now (srv_history S w)) es = []" by blast
  qed
  show "leaves S p w w'" if k: "object_key ops x \<in> K" and run: "kc_delete kc x pol w = (r, w')" for x pol w r w'
    unfolding leaves_def
  proof
    assume ok: "srv_ok S w"
    then obtain es where es: "went S w w' es" "others es \<or> own_step (srv_history S w) es (delete_step ops ks x)"
      using contract run unfolding shared_contract_def shared_delete_def by meson
    have "own_writes p (now (srv_history S w)) es = []"
      using es(2) by (rule quiet) (auto simp: delete_step_def p [OF k] ok)
    with es(1) show "\<exists>es. went S w w' es \<and> own_writes p (now (srv_history S w)) es = []" by blast
  qed
qed

end

lemma shared_reconciler_keeps:
  assumes "shared_reconciler S R"
  shows "reconciler_keeps (leaves S p) (Collect (independent p)) R"
proof -
  have h: "srv_history S w \<noteq> []" if "srv_ok S w" for w
    using assms that by (simp add: shared_reconciler_def)
  show ?thesis
    using assms unfolding shared_reconciler_def reconciler_keeps_def mem_Collect_eq
    by (auto simp: store_defs leaves_refl leaves_trans intro!: dk.shared_calls_keep sk.shared_calls_keep
        ck.shared_calls_keep ik.shared_calls_keep ak.shared_calls_keep rk.shared_calls_keep
        bk.shared_calls_keep h)
      (meson leaves_def own_writes_others)
qed

lemma leaves_changes: "leaves S p w w' \<Longrightarrow> srv_ok S w \<Longrightarrow> own_changes S p w w' = [] \<and> srv_ok S w'"
  by (auto simp: leaves_def own_changes_went went_def)

section \<open>The steps of an idler\<close>

datatype idler_step = Refer string | Sleep | Wake | Clear

text \<open>
  What a step makes of an object, \<open>sleep\<close> and \<open>wake\<close> being those of the kind. The number to wake up to
  was recorded on one of the versions \<open>Z\<close> of the object.
\<close>

fun step_effect ::
  "'o object_ops \<Rightarrow> ('o \<Rightarrow> 'o outcome) \<Rightarrow> ('o \<Rightarrow> 'o \<Rightarrow> 'o) \<Rightarrow> 'o set \<Rightarrow> idler_step \<Rightarrow> 'o \<Rightarrow> 'o \<Rightarrow> bool"
  where
  "step_effect ops sleep wake Z (Refer i) x y \<longleftrightarrow> y = with_reference ops i x"
| "step_effect ops sleep wake Z Sleep x y \<longleftrightarrow> sleep x = Ret y"
| "step_effect ops sleep wake Z Wake x y \<longleftrightarrow> (\<exists>z \<in> Z. y = wake z x)"
| "step_effect ops sleep wake Z Clear x y \<longleftrightarrow> y = without_annotations ops x"

text \<open>The change of the stored object by a step.\<close>

definition step_change ::
  "'o object_ops \<Rightarrow> ('o \<Rightarrow> 'o outcome) \<Rightarrow> ('o \<Rightarrow> 'o \<Rightarrow> 'o) \<Rightarrow> 'o set \<Rightarrow> idler_step \<Rightarrow> 'o option \<times> 'o option \<Rightarrow> bool"
  where
  "step_change ops sleep wake Z st ch \<longleftrightarrow>
     (\<exists>x y v g. fst ch = Some x \<and> step_effect ops sleep wake Z st x y \<and> v \<noteq> '''' \<and>
        snd ch = persisted ops (stamp ops v g y))"

text \<open>The changes of one object are those of some of the steps, each at most once and in order.\<close>

definition performs ::
  "'w server \<Rightarrow> 'o object_ops \<Rightarrow> 'o kind_store \<Rightarrow> ('o \<Rightarrow> 'o outcome) \<Rightarrow> ('o \<Rightarrow> 'o \<Rightarrow> 'o) \<Rightarrow> namespaced_name \<Rightarrow>
     idler_step list \<Rightarrow> 'w \<Rightarrow> 'w \<Rightarrow> bool"
  where
  "performs S ops ks sleep wake key steps w w' \<longleftrightarrow> (srv_ok S w \<longrightarrow>
     (\<exists>es sts. went S w w' es \<and> subseq sts steps \<and>
        list_all2 (step_change ops sleep wake (versions ks (srv_history S w') key)) sts
          (own_writes (\<lambda>c. ks_get ks c key) (now (srv_history S w)) es)))"

lemma versions_mono: "went S w w' es \<Longrightarrow> versions ks (srv_history S w) key \<subseteq> versions ks (srv_history S w') key"
  by (auto simp: versions_def went_def)

lemma step_effect_mono:
  "step_effect ops sleep wake Z st x y \<Longrightarrow> Z \<subseteq> Z' \<Longrightarrow> step_effect ops sleep wake Z' st x y"
  by (cases st) auto

lemma step_change_mono:
  "Z \<subseteq> Z' \<Longrightarrow> step_change ops sleep wake Z st ch \<Longrightarrow> step_change ops sleep wake Z' st ch"
  unfolding step_change_def by (elim exE conjE, intro exI conjI) (assumption | erule step_effect_mono)+

lemma performs_trans:
  assumes "performs S ops ks sleep wake key a u v" "performs S ops ks sleep wake key b v w"
  shows "performs S ops ks sleep wake key (a @ b) u w"
  unfolding performs_def
proof
  assume "srv_ok S u"
  then obtain es sa where es: "went S u v es" "subseq sa a"
      "list_all2 (step_change ops sleep wake (versions ks (srv_history S v) key)) sa
        (own_writes (\<lambda>c. ks_get ks c key) (now (srv_history S u)) es)"
    using assms(1) by (auto simp: performs_def)
  then obtain fs sb where fs: "went S v w fs" "subseq sb b"
      "list_all2 (step_change ops sleep wake (versions ks (srv_history S w) key)) sb
        (own_writes (\<lambda>c. ks_get ks c key) (now (srv_history S v)) fs)"
    using assms(2) by (auto simp: performs_def went_def)
  have "went S u w (es @ fs)" using es(1) fs(1) by (simp add: went_def)
  moreover have "subseq (sa @ sb) (a @ b)" using es(2) fs(2) by (rule list_emb_append_mono)
  moreover have "list_all2 (step_change ops sleep wake (versions ks (srv_history S w) key)) sa
      (own_writes (\<lambda>c. ks_get ks c key) (now (srv_history S u)) es)"
    using es(3) by (rule list_all2_mono) (rule step_change_mono [OF versions_mono [OF fs(1)]])
  then have "list_all2 (step_change ops sleep wake (versions ks (srv_history S w) key)) (sa @ sb)
      (own_writes (\<lambda>c. ks_get ks c key) (now (srv_history S u)) (es @ fs))"
    using es(1) fs(3) unfolding own_writes_append by (intro list_all2_appendI) (simp_all add: went_def)
  ultimately show "\<exists>es sts. went S u w es \<and> subseq sts (a @ b) \<and>
      list_all2 (step_change ops sleep wake (versions ks (srv_history S w) key)) sts
        (own_writes (\<lambda>c. ks_get ks c key) (now (srv_history S u)) es)" by blast
qed

lemma performs_leaves:
  "leaves S (\<lambda>c. ks_get ks c key) w w' \<Longrightarrow> performs S ops ks sleep wake key [] w w'"
  unfolding performs_def leaves_def by fastforce

lemma performs_more:
  "performs S ops ks sleep wake key a w w' \<Longrightarrow> subseq a b \<Longrightarrow> performs S ops ks sleep wake key b w w'"
  unfolding performs_def by (meson subseq_order.order_trans)

text \<open>
  A program that owns the object in memory with key \<open>key\<close> performs the steps, from states with \<open>P\<close> to
  states with \<open>Q\<close>.
\<close>

definition steps_of ::
  "'w server \<Rightarrow> 'o object_ops \<Rightarrow> 'o kind_store \<Rightarrow> ('o \<Rightarrow> 'o outcome) \<Rightarrow> ('o \<Rightarrow> 'o \<Rightarrow> 'o) \<Rightarrow> namespaced_name \<Rightarrow>
     ('w \<times> 'o \<Rightarrow> bool) \<Rightarrow> idler_step list \<Rightarrow> ('w \<times> 'o, 'a) go \<Rightarrow> ('w \<times> 'o \<Rightarrow> bool) \<Rightarrow> bool"
  where
  "steps_of S ops ks sleep wake key P steps m Q \<longleftrightarrow> (\<forall>s r t. m s = (r, t) \<longrightarrow>
     srv_ok S (fst s) \<longrightarrow> object_key ops (snd s) = key \<longrightarrow> P s \<longrightarrow>
     srv_ok S (fst t) \<and> object_key ops (snd t) = key \<and> Q t \<and> performs S ops ks sleep wake key steps (fst s) (fst t))"

lemma steps_of_bind:
  assumes m: "steps_of S ops ks sleep wake key P a m Q" and f: "\<And>x. steps_of S ops ks sleep wake key Q b (f x) (\<lambda>_. True)"
  shows "steps_of S ops ks sleep wake key P (a @ b) (go_bind m f) (\<lambda>_. True)"
  unfolding steps_of_def
proof (intro allI impI)
  fix s r t assume run: "go_bind m f s = (r, t)" and s: "srv_ok S (fst s)" "object_key ops (snd s) = key" "P s"
  obtain q u where q: "m s = (q, u)" by (cases "m s")
  then have u: "srv_ok S (fst u)" "object_key ops (snd u) = key" "Q u"
      "performs S ops ks sleep wake key a (fst s) (fst u)"
    using m s unfolding steps_of_def by blast+
  show "srv_ok S (fst t) \<and> object_key ops (snd t) = key \<and> True \<and> performs S ops ks sleep wake key (a @ b) (fst s) (fst t)"
  proof (cases q)
    case (Ret x)
    then have "f x u = (r, t)" using run q by simp
    then have "srv_ok S (fst t) \<and> object_key ops (snd t) = key \<and> performs S ops ks sleep wake key b (fst u) (fst t)"
      using f u unfolding steps_of_def by blast
    then show ?thesis using performs_trans [OF u(4)] by blast
  next
    case (Panic p)
    then have "t = u" using run q by simp
    then show ?thesis using u performs_more [OF u(4) prefix_imp_subseq, of "a @ b"] by simp
  qed
qed

lemma steps_of_check:
  assumes "steps_of S ops ks sleep wake key P a m Q"
    and "\<And>e. steps_of S ops ks sleep wake key Q b (h e) (\<lambda>_. True)" "steps_of S ops ks sleep wake key Q b n (\<lambda>_. True)"
  shows "steps_of S ops ks sleep wake key P (a @ b) (go_check m h n) (\<lambda>_. True)"
  unfolding go_check_def by (rule steps_of_bind [OF assms(1)]) (use assms(2,3) in \<open>auto split: option.splits\<close>)

lemma steps_of_try:
  assumes "steps_of S ops ks sleep wake key P a m Q"
    and "\<And>e. steps_of S ops ks sleep wake key Q b (h e) (\<lambda>_. True)" "\<And>x. steps_of S ops ks sleep wake key Q b (n x) (\<lambda>_. True)"
  shows "steps_of S ops ks sleep wake key P (a @ b) (go_try m h n) (\<lambda>_. True)"
  unfolding go_try_def by (rule steps_of_bind [OF assms(1)]) (use assms(2,3) in \<open>auto split: sum.splits\<close>)

lemma steps_of_more:
  "steps_of S ops ks sleep wake key P a m Q \<Longrightarrow> subseq a b \<Longrightarrow> (\<And>s. P' s \<Longrightarrow> P s) \<Longrightarrow> (\<And>s. Q s \<Longrightarrow> Q' s) \<Longrightarrow>
     steps_of S ops ks sleep wake key P' b m Q'"
  unfolding steps_of_def
proof (intro allI impI)
  fix s r t
  assume m: "\<forall>s r t. m s = (r, t) \<longrightarrow> srv_ok S (fst s) \<longrightarrow> object_key ops (snd s) = key \<longrightarrow> P s \<longrightarrow>
      srv_ok S (fst t) \<and> object_key ops (snd t) = key \<and> Q t \<and> performs S ops ks sleep wake key a (fst s) (fst t)"
    and weaker: "subseq a b" "\<And>s. P' s \<Longrightarrow> P s" "\<And>s. Q s \<Longrightarrow> Q' s"
    and run: "m s = (r, t)" "srv_ok S (fst s)" "object_key ops (snd s) = key" "P' s"
  from m run weaker(2) have "srv_ok S (fst t)" "object_key ops (snd t) = key" "Q t"
      "performs S ops ks sleep wake key a (fst s) (fst t)" by blast+
  with weaker(1,3) performs_more
  show "srv_ok S (fst t) \<and> object_key ops (snd t) = key \<and> Q' t \<and> performs S ops ks sleep wake key b (fst s) (fst t)"
    by metis
qed

text \<open>A program that leaves the object alone.\<close>

lemma steps_of_owning:
  "go_keeps (owning (leaves S (\<lambda>c. ks_get ks c key)) ops key) m \<Longrightarrow>
     steps_of S ops ks sleep wake key P [] m (\<lambda>_. True)"
  unfolding steps_of_def
proof (intro allI impI)
  fix s r t
  assume m: "go_keeps (owning (leaves S (\<lambda>c. ks_get ks c key)) ops key) m" and run: "m s = (r, t)"
    and s: "srv_ok S (fst s)" "object_key ops (snd s) = key"
  from go_keepsD [OF m run] s have t: "object_key ops (snd t) = key" "leaves S (\<lambda>c. ks_get ks c key) (fst s) (fst t)"
    by (simp_all add: owning_def)
  then show "srv_ok S (fst t) \<and> object_key ops (snd t) = key \<and> True \<and>
      performs S ops ks sleep wake key [] (fst s) (fst t)"
    using s performs_leaves [OF t(2)] leaves_changes [OF t(2)] by simp
qed

lemma steps_of_object:
  assumes "\<And>x b. f x = Ret b \<Longrightarrow> steps_of S ops ks sleep wake key P steps (g b) (\<lambda>_. True)"
  shows "steps_of S ops ks sleep wake key P steps (go_bind (on_object f) g) (\<lambda>_. True)"
  unfolding steps_of_def
proof (intro allI impI)
  fix s r t
  assume run: "go_bind (on_object f) g s = (r, t)"
    and s: "srv_ok S (fst s)" "object_key ops (snd s) = key" "P s"
  show "srv_ok S (fst t) \<and> object_key ops (snd t) = key \<and> True \<and> performs S ops ks sleep wake key steps (fst s) (fst t)"
  proof (cases "f (snd s)")
    case (Ret b)
    then have "g b s = (r, t)" using run by (cases s) (simp add: on_object_def go_bind_def)
    then show ?thesis using assms [OF Ret] s unfolding steps_of_def by blast
  next
    case (Panic p)
    then have "t = s" using run by (cases s) (simp add: on_object_def go_bind_def)
    moreover have "performs S ops ks sleep wake key steps (fst s) (fst s)"
      by (rule performs_more [OF performs_leaves [OF reflpD [OF leaves_refl]]]) simp
    ultimately show ?thesis using s by simp
  qed
qed

section \<open>One closure of a retry\<close>

text \<open>What a call knows of an object it has read, changed or written back.\<close>

definition seen ::
  "'w server \<Rightarrow> 'o object_ops \<Rightarrow> 'o kind_store \<Rightarrow> namespaced_name \<Rightarrow> ('o \<Rightarrow> 'o outcome) \<Rightarrow> 'w \<Rightarrow> 'o \<Rightarrow> bool"
  where
  "seen S ops ks key f w x \<longleftrightarrow> (\<exists>z \<in> versions ks (srv_history S w) key.
     x = z \<or> f z = Ret x \<or> (\<exists>y v g. f z = Ret y \<and> x = stamp ops v g y))"

lemma seenI:
  assumes "z \<in> versions ks (srv_history S w) key"
  shows "seen S ops ks key f w z" "f z = Ret y \<Longrightarrow> seen S ops ks key f w y"
    "f z = Ret y \<Longrightarrow> seen S ops ks key f w (stamp ops v g y)"
  using assms unfolding seen_def by blast+

context stored_kind
begin

lemma refetch_update_shared:
  assumes contract: "shared_contract S ops ks kc" "versioned S ops ks" and h: "\<And>w. srv_ok S w \<Longrightarrow> srv_history S w \<noteq> []"
    and id: "keeps_identity ops f"
    and run: "refetch_update kc ops f (w, x) = (r, (w', x'))" and ok: "srv_ok S w" and key: "object_key ops x = key"
  shows "object_key ops x' = key \<and> (x' = x \<or> seen S ops ks key f w' x') \<and>
     (\<exists>es. went S w w' es \<and>
       (own_writes (\<lambda>c. ks_get ks c key) (now (srv_history S w)) es = [] \<or>
        (\<forall>e. r = Ret (Some e) \<longrightarrow> \<not> IsConflict e) \<and>
        (\<exists>z y v g. f z = Ret y \<and> v \<noteq> '''' \<and>
          own_writes (\<lambda>c. ks_get ks c key) (now (srv_history S w)) es = [(Some z, persisted ops (stamp ops v g y))])))"
proof -
  let ?p = "\<lambda>c. ks_get ks c key"
  obtain g w1 where get: "kc_get kc key w = (g, w1)" by fastforce
  note get_contract = contract(1)[unfolded shared_contract_def shared_get_def]
  obtain es1 where es1: "went S w w1 es1" "others es1" using get_contract get ok by blast
  have ok1: "srv_ok S w1" using es1(1) by (simp add: went_def)
  have quiet: ?thesis if "went S w w' es" "own_writes ?p (now (srv_history S w)) es = []"
      "object_key ops x' = key" "x' = x \<or> seen S ops ks key f w' x'" for es
    using that by blast
  show ?thesis
  proof (cases g)
    case (Inl e)
    with run get key have "r = Ret (Some e)" "w' = w1" "x' = x"
      by (auto simp: refetch_update_def mem_get_def go_check_def go_bind_def)
    then show ?thesis using es1 key own_writes_others [OF es1(2)] by (intro quiet [of es1]) auto
  next
    case (Inr cur)
    have cur: "object_key ops cur = key" "resource_version ops cur \<noteq> ''''" "cur \<in> versions ks (srv_history S w1) key"
      using get_contract get ok Inr by blast+
    show ?thesis
    proof (cases "f cur")
      case (Panic q)
      with run get key Inr have "w' = w1" "x' = cur"
        by (auto simp: refetch_update_def mem_get_def mem_modify_def go_check_def go_bind_def)
      then show ?thesis
        using es1 cur(1) seenI(1) [OF cur(3)] own_writes_others [OF es1(2)] by (intro quiet [of es1]) auto
    next
      case (Ret y)
      have y: "object_key ops y = key" "resource_version ops y = resource_version ops cur"
        using id Ret cur(1) unfolding keeps_identity_def by auto
      obtain u w2 where upd: "kc_update kc y w1 = (u, w2)" by fastforce
      have end': "w' = w2" "u = Inl e \<Longrightarrow> r = Ret (Some e) \<and> x' = y" "u = Inr z \<Longrightarrow> r = Ret None \<and> x' = z" for e z
        using run get key Inr Ret upd
        by (cases u; auto simp: refetch_update_def mem_get_def mem_modify_def mem_update_def go_check_def go_bind_def)+
      obtain es2 where es2: "went S w1 w2 es2" and step: "others es2 \<and> (\<forall>z. u \<noteq> Inr z) \<or>
          (\<forall>e. u = Inl e \<longrightarrow> \<not> IsConflict e) \<and> (\<exists>z v g. z = stamp ops v g y \<and> v \<noteq> '''' \<and> (\<forall>z'. u = Inr z' \<longrightarrow> z' = z) \<and>
            own_step (srv_history S w1) es2 (update_step ops ks y z))"
        using shared_updateD [OF contract(1) upd ok1] by blast
      have went: "went S w w' (es1 @ es2)" using es1(1) es2 end'(1) by (simp add: went_def)
      have writes: "own_writes ?p (now (srv_history S w)) (es1 @ es2) = own_writes ?p (now (srv_history S w1)) es2"
        using es1 unfolding own_writes_append by (simp add: own_writes_others went_def)
      have old: "cur \<in> versions ks (srv_history S w') key"
        using cur(3) versions_mono [OF es2, of ks key] end'(1) by auto
      show ?thesis
      proof (cases "others es2 \<and> (\<forall>z. u \<noteq> Inr z)")
        case True
        then obtain e where "x' = y" using end'(2) by (cases u) auto
        then show ?thesis
          using went writes y(1) seenI(2) [where f = f, OF old, OF Ret] True own_writes_others [of es2]
          by (intro quiet [of "es1 @ es2"]) auto
      next
        case False
        then obtain z v g where z: "z = stamp ops v g y" "v \<noteq> ''''" "\<And>z'. u = Inr z' \<Longrightarrow> z' = z"
            and conflict: "\<And>e. u = Inl e \<Longrightarrow> \<not> IsConflict e"
            and own: "own_step (srv_history S w1) es2 (update_step ops ks y z)"
          using step by blast
        obtain c c' where c: "update_step ops ks y z c c'" "c \<in> snd ` set (srv_history S w1 @ es2)"
            and chg: "own_writes ?p (now (srv_history S w1)) es2 = (if ?p c' = ?p c then [] else [(?p c, ?p c')])"
          by (rule own_step_writes [OF own h [OF ok1], where p = ?p])
        obtain old' where old': "?p c = Some old'" "resource_version ops old' = resource_version ops cur"
          using c(1) y cur(2) unfolding update_step_def by auto
        have "old' \<in> versions ks (srv_history S w') key"
          using old'(1) c(2) es2 end'(1) unfolding versions_def went_def by auto
        then have "old' = cur"
          using contract(2) old old'(2) went unfolding versioned_def went_def inj_on_def by blast
        moreover have "?p c' = persisted ops z" using c(1) y(1) unfolding update_step_def by auto
        ultimately have "own_writes ?p (now (srv_history S w)) (es1 @ es2) = [] \<or>
            own_writes ?p (now (srv_history S w)) (es1 @ es2) = [(Some cur, persisted ops (stamp ops v g y))]"
          using writes chg old'(1) z(1) by auto
        moreover have "\<forall>e. r = Ret (Some e) \<longrightarrow> \<not> IsConflict e"
          using end'(2,3) conflict by (cases u) auto
        moreover have "seen S ops ks key f w' x'" "object_key ops x' = key"
        proof -
          have "x' = y \<or> x' = z" using end'(2,3) z(3) by (cases u) auto
          then show "seen S ops ks key f w' x'" "object_key ops x' = key"
            using seenI(2,3) [where f = f, OF old, OF Ret] y(1) z(1) by auto
        qed
        ultimately show ?thesis using went Ret z(2) by blast
      qed
    qed
  qed
qed

lemma retry_run_shared:
  assumes contract: "shared_contract S ops ks kc" "versioned S ops ks" and h: "\<And>w. srv_ok S w \<Longrightarrow> srv_history S w \<noteq> []"
    and id: "keeps_identity ops f"
    and run: "retry_run (refetch_update kc ops f) s r t" and ok: "srv_ok S (fst s)" and key: "object_key ops (snd s) = key"
  shows "object_key ops (snd t) = key \<and> (snd t = snd s \<or> seen S ops ks key f (fst t) (snd t)) \<and>
     (\<exists>es. went S (fst s) (fst t) es \<and>
       (own_writes (\<lambda>c. ks_get ks c key) (now (srv_history S (fst s))) es = [] \<or>
        (\<exists>z y v g. f z = Ret y \<and> v \<noteq> '''' \<and>
          own_writes (\<lambda>c. ks_get ks c key) (now (srv_history S (fst s))) es
            = [(Some z, persisted ops (stamp ops v g y))])))"
  using run ok key
proof (induction rule: retry_run.induct)
  case (again s e t r u)
  note one = refetch_update_shared [OF contract h id, of "fst s" "snd s" "Ret (Some e)" "fst t" "snd t", simplified, OF again.hyps(1) again.prems]
  then obtain es where es: "went S (fst s) (fst t) es" "own_writes (\<lambda>c. ks_get ks c key) (now (srv_history S (fst s))) es = []"
    using again.hyps(2) by auto
  have t: "srv_ok S (fst t)" "object_key ops (snd t) = key" using es(1) one by (simp_all add: went_def)
  obtain fs where fs: "went S (fst t) (fst u) fs"
      "own_writes (\<lambda>c. ks_get ks c key) (now (srv_history S (fst t))) fs = [] \<or>
        (\<exists>z y v g. f z = Ret y \<and> v \<noteq> '''' \<and>
          own_writes (\<lambda>c. ks_get ks c key) (now (srv_history S (fst t))) fs = [(Some z, persisted ops (stamp ops v g y))])"
    using again.IH [OF t] by blast
  have u: "object_key ops (snd u) = key" "snd u = snd t \<or> seen S ops ks key f (fst u) (snd u)"
    using again.IH [OF t] by blast+
  have "seen S ops ks key f (fst u) (snd t)" if "seen S ops ks key f (fst t) (snd t)"
    using that versions_mono [OF fs(1), of ks key] unfolding seen_def by blast
  then have "snd u = snd s \<or> seen S ops ks key f (fst u) (snd u)" using u(2) one by auto
  moreover have "went S (fst s) (fst u) (es @ fs)" using es(1) fs(1) by (simp add: went_def)
  moreover have "own_writes (\<lambda>c. ks_get ks c key) (now (srv_history S (fst s))) (es @ fs)
      = own_writes (\<lambda>c. ks_get ks c key) (now (srv_history S (fst t))) fs"
    using es by (simp add: own_writes_append went_def)
  ultimately show ?case using u(1) fs(2) by (intro conjI exI [of _ "es @ fs"]) simp_all
qed (use refetch_update_shared [OF contract h id, where key = key] in \<open>metis (no_types, lifting) prod.collapse\<close>)+

lemma retry_steps_of:
  assumes contract: "shared_contract S ops ks kc" "versioned S ops ks" and h: "\<And>w. srv_ok S w \<Longrightarrow> srv_history S w \<noteq> []"
    and id: "keeps_identity ops f"
    and run: "kc_retry kc (refetch_update kc ops f) s = (r, t)" and ok: "srv_ok S (fst s)" and key: "object_key ops (snd s) = key"
    and effect: "\<And>z y. f z = Ret y \<Longrightarrow> step_effect ops sleep wake (versions ks (srv_history S (fst s)) key) st z y"
  shows "object_key ops (snd t) = key \<and> srv_ok S (fst t) \<and> (snd t = snd s \<or> seen S ops ks key f (fst t) (snd t)) \<and>
     versions ks (srv_history S (fst s)) key \<subseteq> versions ks (srv_history S (fst t)) key \<and>
     performs S ops ks sleep wake key [st] (fst s) (fst t)"
proof -
  have "retry_run (refetch_update kc ops f) s r t"
    using contract(1) run unfolding shared_contract_def retry_contract_def by blast
  note result = retry_run_shared [OF contract h id this ok key]
  then obtain es where es: "went S (fst s) (fst t) es"
      "own_writes (\<lambda>c. ks_get ks c key) (now (srv_history S (fst s))) es = [] \<or>
        (\<exists>z y v g. f z = Ret y \<and> v \<noteq> '''' \<and>
          own_writes (\<lambda>c. ks_get ks c key) (now (srv_history S (fst s))) es = [(Some z, persisted ops (stamp ops v g y))])"
    by blast
  note mono = versions_mono [OF es(1), of ks key]
  have "performs S ops ks sleep wake key [st] (fst s) (fst t)"
    unfolding performs_def
  proof (intro impI exI conjI)
    show "went S (fst s) (fst t) es" by (rule es(1))
    let ?ch = "own_writes (\<lambda>c. ks_get ks c key) (now (srv_history S (fst s))) es"
    show "subseq (if ?ch = [] then [] else [st]) [st]" by simp
    show "list_all2 (step_change ops sleep wake (versions ks (srv_history S (fst t)) key)) (if ?ch = [] then [] else [st]) ?ch"
      using es(2)
    proof
      assume "\<exists>z y v g. f z = Ret y \<and> v \<noteq> '''' \<and> ?ch = [(Some z, persisted ops (stamp ops v g y))]"
      then obtain z y v g where ch: "f z = Ret y" "v \<noteq> ''''" "?ch = [(Some z, persisted ops (stamp ops v g y))]" by blast
      have "step_effect ops sleep wake (versions ks (srv_history S (fst t)) key) st z y"
        using effect [OF ch(1)] mono by (rule step_effect_mono)
      then show ?thesis using ch(2,3) by (auto simp: step_change_def)
    qed simp
  qed
  then show ?thesis using result mono es(1) by (simp add: went_def)
qed

lemma retries_steps:
  assumes contract: "shared_contract S ops ks kc" "versioned S ops ks" and h: "\<And>w. srv_ok S w \<Longrightarrow> srv_history S w \<noteq> []"
    and m: "retries kc ops F m"
    and F: "\<And>w x f. P (w, x) \<Longrightarrow> f \<in> F x \<Longrightarrow> keeps_identity ops f \<and>
        (\<forall>z y. f z = Ret y \<longrightarrow> step_effect ops sleep wake (versions ks (srv_history S w) key) st z y)"
    and Q: "\<And>w x w' x' f. P (w, x) \<Longrightarrow> versions ks (srv_history S w) key \<subseteq> versions ks (srv_history S w') key \<Longrightarrow>
        x' = x \<or> f \<in> F x \<and> seen S ops ks key f w' x' \<Longrightarrow> Q (w', x')"
  shows "steps_of S ops ks sleep wake key P [st] m Q"
  unfolding steps_of_def
proof (intro allI impI)
  fix s r t assume run: "m s = (r, t)" and ok: "srv_ok S (fst s)" and key: "object_key ops (snd s) = key" and P: "P s"
  obtain w x where s: "s = (w, x)" by fastforce
  obtain w' x' where t: "t = (w', x')" by fastforce
  from m[unfolded retries_def, rule_format, of w x] run
  consider "t = s" | (retry) f where "f \<in> F x" "snd (kc_retry kc (refetch_update kc ops f) s) = t"
    unfolding s by auto
  then show "srv_ok S (fst t) \<and> object_key ops (snd t) = key \<and> Q t \<and>
      performs S ops ks sleep wake key [st] (fst s) (fst t)"
  proof cases
    case 1
    have "performs S ops ks sleep wake key [] (fst s) (fst s)"
      by (rule performs_leaves [OF reflpD [OF leaves_refl]])
    then have "performs S ops ks sleep wake key [st] (fst s) (fst s)" by (rule performs_more) simp
    moreover have "Q (w, x)" by (rule Q [of w x]) (use P s in auto)
    ultimately show ?thesis using 1 ok key s by simp
  next
    case retry
    obtain q where q: "kc_retry kc (refetch_update kc ops f) s = (q, t)" using retry(2) by (metis prod.collapse)
    note one = retry_steps_of [OF contract h, of f s q t key sleep wake st, OF _ conjunct1 [OF F] q ok key]
    have "object_key ops (snd t) = key \<and> srv_ok S (fst t) \<and> (snd t = snd s \<or> seen S ops ks key f (fst t) (snd t)) \<and>
       versions ks (srv_history S (fst s)) key \<subseteq> versions ks (srv_history S (fst t)) key \<and>
       performs S ops ks sleep wake key [st] (fst s) (fst t)"
      using F [of w x f] P retry(1) unfolding s
      by (intro retry_steps_of [OF contract h _ q[unfolded s] ok[unfolded s] key[unfolded s]]) auto
    moreover from this have "Q (w', x')" by (intro Q [of w x w' x' f]) (use P retry(1) s t in auto)
    ultimately show ?thesis using t by simp
  qed
qed

end

text \<open>
  What \<open>Wakeup\<close> reads of the object in memory, the recorded number, was on a version the server stored.
\<close>

definition recalls :: "'w server \<Rightarrow> 'o object_ops \<Rightarrow> 'o kind_store \<Rightarrow> namespaced_name \<Rightarrow> 'w \<times> 'o \<Rightarrow> bool" where
  "recalls S ops ks key s \<longleftrightarrow>
     (\<exists>z \<in> versions ks (srv_history S (fst s)) key. previous_of ops z = previous_of ops (snd s))"

context workload_reconciler
begin

lemma idler_steps:
  assumes contract: "shared_contract S ops ks kc" "versioned S ops ks" and history: "\<forall>w. srv_ok S w \<longrightarrow> srv_history S w \<noteq> []"
  shows "steps_of S ops ks sleep_step wake key (recalls S ops ks key) [Refer i] (SetReference (New kc) i) (recalls S ops ks key)"
    and "steps_of S ops ks sleep_step wake key P [Sleep] (Idle (New kc)) (\<lambda>_. True)"
    and "steps_of S ops ks sleep_step wake key (recalls S ops ks key) [Wake] (Wakeup (New kc)) (\<lambda>_. True)"
    and "steps_of S ops ks sleep_step wake key P [Clear] (RemoveAnnotations (New kc)) (\<lambda>_. True)"
proof -
  have h: "\<And>w. srv_ok S w \<Longrightarrow> srv_history S w \<noteq> []" using history by blast
  show "steps_of S ops ks sleep_step wake key (recalls S ops ks key) [Refer i] (SetReference (New kc) i) (recalls S ops ks key)"
    unfolding New_SetReference
  proof (rule retries_steps [OF contract h ObjectIdler_SetReference_retries], goal_cases)
    case (3 w x w' x' f)
    then show ?case unfolding recalls_def seen_def by auto
  qed (auto simp: keeps_identity_annotations)
  show "steps_of S ops ks sleep_step wake key P [Sleep] (Idle (New kc)) (\<lambda>_. True)"
    by (rule retries_steps [OF contract h Idle_retries]) (use keeps_identity_sleep in auto)
  show "steps_of S ops ks sleep_step wake key P [Clear] (RemoveAnnotations (New kc)) (\<lambda>_. True)"
    unfolding New_RemoveAnnotations
    by (rule retries_steps [OF contract h ObjectIdler_RemoveAnnotations_retries]) (use keeps_identity_annotations in auto)
  show "steps_of S ops ks sleep_step wake key (recalls S ops ks key) [Wake] (Wakeup (New kc)) (\<lambda>_. True)"
  proof (rule retries_steps [OF contract h Wakeup_retries], goal_cases)
    case (2 w x f)
    then obtain z where z: "z \<in> versions ks (srv_history S w) key" "previous_of ops z = previous_of ops x"
      unfolding recalls_def by auto
    have "wake z = wake x" by (rule wake_recorded [OF z(2)])
    moreover have f: "f = (\<lambda>obj. Ret (wake x obj))" "wake_error x = None" using 2(2) by auto
    ultimately have "step_effect ops sleep_step wake (versions ks (srv_history S w) key) Wake a b" if "f a = Ret b" for a b
      using that z(1) by (simp, metis)
    then show ?case using keeps_identity_wake [OF f(2)] f(1) by blast
  qed auto
qed

text \<open>The steps of a run, by the branch it takes.\<close>

end

definition branch_steps :: "IdlingResource \<Rightarrow> idler_step list" where
  "branch_steps i = Refer (om_Name (ir_meta i)) #
     (if IsBeingDeleted i then [Wake, Clear] else if spec_Idle (ir_Spec i) then [Sleep] else [Wake])"

context workload_reconciler
begin

lemma ReconcileWithIdler_steps:
  fixes S :: "'b server"
  assumes R: "shared_reconciler S R" and contract: "shared_contract S ops ks kc" "versioned S ops ks"
  shows "steps_of S ops ks sleep_step wake key (recalls S ops ks key) (branch_steps i)
     (ReconcileWithIdler R i (New kc)) (\<lambda>_. True)"
proof -
  let ?steps = "\<lambda>P. steps_of S ops ks sleep_step wake key P" and ?T = "\<lambda>_. True"
  have h: "\<forall>w. srv_ok S w \<longrightarrow> srv_history S w \<noteq> []"
    using R by (simp add: shared_reconciler_def)
  note calls = idler_steps [OF contract h, of key]
  note F = shared_reconciler_keeps [OF R, of "\<lambda>c. ks_get ks c key"]
  have "IdlingResourceSlot k \<in> Collect (independent (\<lambda>c. ks_get ks c key))" for k
    by (simp add: instances_apart)
  note frame = owning_rules [OF F] frame_rules(7) [OF F] wakeup_event_frame [OF F]
    removeFinalizer_frame [OF F this]
  have quiet: "?steps P b m ?T" if "go_keeps (owning (leaves S (\<lambda>c. ks_get ks c key)) ops key) m" for P b m
    by (rule steps_of_more [OF steps_of_owning [OF that]]) simp_all
  have deletion: "?steps (recalls S ops ks key) [Wake, Clear] (reconcileDeletion R i (New kc)) ?T"
    unfolding reconcileDeletion_def Let_def
  proof (rule steps_of_try [where a = "[Wake]" and b = "[Clear]" and Q = ?T, simplified], goal_cases)
    case 1
    show ?case by (rule calls(3))
  next
    case (2 e)
    show ?case by (rule quiet) (intro frame)
  next
    case (3 replicas)
    show ?case
    proof (rule steps_of_bind [where a = "[]" and b = "[Clear]" and Q = ?T, simplified], goal_cases)
      case 1
      show ?case by (rule quiet) (intro frame)
    next
      case (2 x)
      show ?case
      proof (rule steps_of_check [where a = "[Clear]" and b = "[]" and Q = ?T, simplified], goal_cases)
        case 1
        show ?case by (rule calls(4))
      qed (rule quiet, intro frame)+
    qed
  qed
  have waking: "?steps (recalls S ops ks key) [Wake] (reconcileWakeup R i (New kc)) ?T"
    unfolding reconcileWakeup_def Let_def
    by (rule steps_of_try [where a = "[Wake]" and b = "[]" and Q = ?T, simplified], rule calls(3))
      (rule quiet, intro frame)+
  have idling: "?steps P [Sleep] (reconcileIdle R i (New kc)) ?T" for P
    unfolding reconcileIdle_def Let_def
    by (rule steps_of_check [where a = "[Sleep]" and b = "[]" and Q = ?T, simplified], rule calls(2))
      (rule quiet, intro frame)+
  have working: "?steps (recalls S ops ks key) (if spec_Idle (ir_Spec i) then [Sleep] else [Wake])
      (go_bind (on_object (NeedWakeup (New kc) i)) (\<lambda>needWakeup.
             if needWakeup then reconcileWakeup R i (New kc)
             else go_bind (on_object (NeedIdle (New kc) i)) (\<lambda>needIdle.
                  if needIdle then reconcileIdle R i (New kc)
                  else go_return (no_requeue, None)))) ?T"
  proof (rule steps_of_object, goal_cases)
    case (1 x needWakeup)
    then have "needWakeup \<Longrightarrow> \<not> spec_Idle (ir_Spec i)" using NeedWakeup_wish [of kc i x] by (cases needWakeup) auto
    moreover have "?steps (recalls S ops ks key) (if spec_Idle (ir_Spec i) then [Sleep] else [Wake])
        (go_bind (on_object (NeedIdle (New kc) i)) (\<lambda>needIdle.
           if needIdle then reconcileIdle R i (New kc) else go_return (no_requeue, None))) ?T"
    proof (rule steps_of_object, goal_cases)
      case (1 x needIdle)
      then have "needIdle \<Longrightarrow> spec_Idle (ir_Spec i)" using NeedIdle_wish [of kc i x] by (cases needIdle) auto
      then show ?case using idling quiet [OF frame(1)] by (cases needIdle) auto
    qed
    ultimately show ?case using waking by (cases needWakeup) auto
  qed
  show ?thesis
    unfolding ReconcileWithIdler_def branch_steps_def
  proof (rule steps_of_check [where a = "[Refer (om_Name (ir_meta i))]" and Q = "recalls S ops ks key", simplified], goal_cases)
    case 1
    show ?case by (rule calls(1))
  next
    case (2 e)
    show ?case by (rule quiet [OF frame(1)])
  next
    case 3
    show ?case using deletion working by auto
  qed
qed

end

section \<open>A run of Reconcile\<close>

lemma branch_steps_same: "same_instance i j \<Longrightarrow> branch_steps j = branch_steps i"
  by (simp add: branch_steps_def same_instanceD) (simp add: same_instance_def)

context reconciled_kind
begin

lemma reconcileKind_performs:
  assumes R: "shared_reconciler S R" and client: "shared_contract S ops ks (client R)" "versioned S ops ks"
    and run: "reconcileKind R i (client R) New w = (r, w')"
  shows "performs S ops ks sleep_step wake (target_key i) (branch_steps i) w w'"
proof -
  let ?k = "target_key i" and ?p = "\<lambda>c. ks_get ks c (target_key i)"
  note F = shared_reconciler_keeps [OF R, of ?p]
  have mine: "IdlingResourceSlot (meta_key (ir_meta i)) \<in> Collect (independent ?p)"
    by (simp add: instances_apart)
  obtain g w1 where get: "kc_get (client R) ?k w = (g, w1)" by fastforce
  have read: "leaves S ?p w w1"
    using client(1) get own_writes_others unfolding shared_contract_def shared_get_def leaves_def by meson
  have start: "performs S ops ks sleep_step wake ?k [] w w1" by (rule performs_leaves [OF read])
  have "performs S ops ks sleep_step wake ?k (branch_steps i) w1 w'" if ok: "srv_ok S w"
  proof (cases g)
    case (Inl e)
    then have "reconcileResourceNotFound R i e w1 = (r, w')"
      using run get by (simp add: reconcileKind_def target_key_def instance_key_def Let_def go_try_def go_bind_def r_get_def
          del: go_local_apply)
    moreover have "go_keeps (leaves S ?p) (reconcileResourceNotFound R i e)"
      unfolding reconcileResourceNotFound_def by (intro frame_rules [OF F] removeFinalizer_frame [OF F mine])
    ultimately have "leaves S ?p w1 w'" by (blast dest: go_keepsD)
    then show ?thesis by (rule performs_more [OF performs_leaves]) simp
  next
    case (Inr x)
    have x: "object_key ops x = ?k" "x \<in> versions ks (srv_history S w1) ?k"
      using client(1) get ok Inr unfolding shared_contract_def shared_get_def by blast+
    have ok1: "srv_ok S w1" using leaves_changes [OF read ok] by simp
    have "go_local x (ReconcileWithIdler R i (New (client R))) w1 = (r, w')"
      using run get Inr by (simp add: reconcileKind_def target_key_def instance_key_def Let_def go_try_def go_bind_def r_get_def
          del: go_local_apply)
    then obtain x' where "ReconcileWithIdler R i (New (client R)) (w1, x) = (r, (w', x'))"
      by (auto simp: go_local_eq simp del: go_local_apply)
    moreover have "recalls S ops ks ?k (w1, x)" using x(2) by (auto simp: recalls_def)
    ultimately show ?thesis
      using ReconcileWithIdler_steps [OF R client, of ?k i] ok1 x(1) unfolding steps_of_def by fastforce
  qed
  then show ?thesis
    using performs_trans [OF start] unfolding performs_def by auto
qed

lemma Reconcile_performs:
  fixes R :: "'c reconciler"
  assumes R: "shared_reconciler S R" and client: "shared_contract S ops ks (client R)" "versioned S ops ks"
    and get: "kc_get (rc_IdlingResources R) req w = (Inr i, w1)" and kind: "ref_Kind (ref_of i) = kind_name"
    and apart: "apart_from_owned i (\<lambda>c. ks_get ks c (target_key i))"
    and run: "Reconcile R req w = (r, w')"
  shows "performs S ops ks sleep_step wake (target_key i) (branch_steps i) w w'"
proof -
  let ?p = "\<lambda>c. ks_get ks c (target_key i)"
  have mine: "insert (IdlingResourceSlot (meta_key (ir_meta j))) (owned_slots j) \<subseteq> Collect (independent ?p)"
    if "Inr i = (Inr j :: go_error + IdlingResource)" for j
    using that apart by (simp add: instances_apart apart_from_owned_slots)
  consider "leaves S ?p w w'" | (reach) j w3 where "same_instance i j" "leaves S ?p w w3" "reconcileWorkload R j w3 = (r, w')"
    using Reconcile_until_workload [OF shared_reconciler_keeps [OF R, of ?p] get mine run] by auto
  then show ?thesis
  proof cases
    case 1
    then show ?thesis by (rule performs_more [OF performs_leaves]) simp
  next
    case reach
    have "reconcileKind R j (client R) New w3 = (r, w')"
      using reach(3) dispatch [of j R] kind same_instanceD(3) [OF reach(1)] by simp
    from reconcileKind_performs [OF R client this]
    have "performs S ops ks sleep_step wake (target_key i) (branch_steps i) w3 w'"
      using branch_steps_same [OF reach(1)] target_key_same [OF reach(1)] by simp
    with performs_trans [OF performs_leaves [OF reach(2)]] show ?thesis by fastforce
  qed
qed

lemma Reconcile_steps:
  fixes R :: "'c reconciler"
  assumes "shared_reconciler S R" "shared_contract S ops ks (client R)" "versioned S ops ks" and ok: "srv_ok S w"
    and "kc_get (rc_IdlingResources R) req w = (Inr i, w1)" "ref_Kind (ref_of i) = kind_name"
    and "apart_from_owned i (\<lambda>c. ks_get ks c (target_key i))" "Reconcile R req w = (r, w')"
  shows "\<exists>sts. subseq sts (branch_steps i) \<and>
     list_all2 (step_change ops sleep_step wake (versions ks (srv_history S w') (target_key i))) sts
       (own_changes S (\<lambda>c. ks_get ks c (target_key i)) w w')"
  using Reconcile_performs [OF assms(1-3,5-8)] ok by (auto simp: performs_def own_changes_went)

end

end
