(* ===== verification/Shared_Sim.thy ===== *)
theory Shared_Sim
  imports Interleaving
begin

text \<open>
  A concrete server that is not alone: the server of \<open>Sim\<close>, a record of what it went through, and a plan
  of what happens around each call of a run. A turn of the plan says which Deployment somebody scales
  just before the call and whether the answer of the call is lost. It meets \<open>shared_contract\<close> with
  versions that are never reused, so the theorems on interleaved runs apply to runs against it.
\<close>

section \<open>The server\<close>

datatype turn = Turn "(namespaced_name \<times> int32) option" bool

record shared_world =
  sh_sim :: sim_world
  sh_past :: history
  sh_plan :: "turn list"

text \<open>A step that moved the clock is a step of the history.\<close>

definition sh_record :: "actor \<Rightarrow> sim_world \<Rightarrow> shared_world \<Rightarrow> shared_world" where
  "sh_record a s w = w\<lparr> sh_sim := s, sh_past := sh_past w @
     (if sw_clock s = sw_clock (sh_sim w) then [] else [(a, sim_view s)]) \<rparr>"

definition scale :: "namespaced_name \<Rightarrow> int32 \<Rightarrow> sim_world \<Rightarrow> sim_world" where
  "scale key n s =
     (case sim_lookup Deployments DeploymentStore s key of
        None \<Rightarrow> s
      | Some d \<Rightarrow> snd (sim_update Deployments DeploymentStore (d\<lparr> d_Replicas := Some n \<rparr>) s))"

definition sh_turn :: "shared_world \<Rightarrow> bool \<times> shared_world" where
  "sh_turn w =
     (case sh_plan w of
        [] \<Rightarrow> (False, w)
      | Turn action lost # turns \<Rightarrow>
          (lost, (case action of
                    None \<Rightarrow> w
                  | Some (key, n) \<Rightarrow> sh_record Others (scale key n (sh_sim w)) w)\<lparr> sh_plan := turns \<rparr>))"

definition sh_read :: "(sim_world \<Rightarrow> 'r \<times> sim_world) \<Rightarrow> shared_world \<Rightarrow> 'r \<times> shared_world" where
  "sh_read f w = (case sh_turn w of (lost, w1) \<Rightarrow> (fst (f (sh_sim w1)), w1))"

definition sh_write :: "(sim_world \<Rightarrow> 'r \<times> sim_world) \<Rightarrow> 'r \<Rightarrow> shared_world \<Rightarrow> 'r \<times> shared_world" where
  "sh_write f timeout w =
     (case sh_turn w of (lost, w1) \<Rightarrow>
        (case f (sh_sim w1) of (r, s) \<Rightarrow> (if lost then timeout else r, sh_record Own s w1)))"

definition timed_out :: go_error where
  "timed_out = OtherError ''timed out''"

definition sh_client :: "'o object_ops \<Rightarrow> 'o kind_store \<Rightarrow> (shared_world, 'o) kind_client" where
  "sh_client ops ks =
     \<lparr> kc_get = \<lambda>key. sh_read (sim_get ops ks key),
       kc_update = \<lambda>x. sh_write (sim_update ops ks x) (Inl timed_out),
       kc_create = \<lambda>x. sh_write (sim_create ops ks x) (Inl timed_out),
       kc_delete = \<lambda>x policy. sh_write (sim_delete ops ks x policy) (Some timed_out),
       kc_retry = retry_steps 4 \<rparr>"

section \<open>Its worlds\<close>

definition sh_ok :: "shared_world \<Rightarrow> bool" where
  "sh_ok w \<longleftrightarrow> sh_past w \<noteq> [] \<and> now (sh_past w) = sim_view (sh_sim w) \<and>
     (\<forall>key. (\<forall>d \<in> versions DeploymentStore (sh_past w) key.
        \<exists>n < sw_clock (sh_sim w). resource_version Deployments d = Itoa (int n)) \<and>
        inj_on (resource_version Deployments) (versions DeploymentStore (sh_past w) key))"

definition sh_server :: "shared_world server" where
  "sh_server = \<lparr> srv_ok = sh_ok, srv_history = sh_past \<rparr>"

text \<open>What one step of the server inside may do.\<close>

definition sim_moves :: "sim_world \<Rightarrow> sim_world \<Rightarrow> bool" where
  "sim_moves s t \<longleftrightarrow>
     sw_clock t = sw_clock s \<and> sim_view t = sim_view s \<or>
     sw_clock t = Suc (sw_clock s) \<and>
     (\<forall>key d. cl_Deployments (sim_view t) key = Some d \<longrightarrow> cl_Deployments (sim_view s) key = Some d \<or>
        resource_version Deployments d = Itoa (int (sw_clock s)))"

lemma digit_char_inject: "a < 10 \<Longrightarrow> b < 10 \<Longrightarrow> digit_char a = digit_char b \<Longrightarrow> a = b"
  by (metis digit_value_digit_char option.inject)

lemma itoa_nat_inject: "itoa_nat m = itoa_nat n \<Longrightarrow> m = n"
proof (induction m arbitrary: n rule: itoa_nat.induct)
  case (1 m)
  have ne: "itoa_nat k \<noteq> []" for k using itoa_nat_head [of k] by auto
  show ?case
  proof (cases "m < 10 \<longleftrightarrow> n < 10")
    case True
    show ?thesis
    proof (cases "m < 10")
      case small: True
      then show ?thesis
        using "1.prems" True by (simp add: itoa_nat.simps [of m] itoa_nat.simps [of n] digit_char_inject)
    next
      case False
      then have "itoa_nat (m div 10) = itoa_nat (n div 10)" "digit_char (m mod 10) = digit_char (n mod 10)"
        using "1.prems" True by (simp_all add: itoa_nat.simps [of m] itoa_nat.simps [of n])
      then have "m div 10 = n div 10" "m mod 10 = n mod 10"
        using "1.IH" [OF False] digit_char_inject [of "m mod 10" "n mod 10"] by simp_all
      then show ?thesis by (metis mult_div_mod_eq)
    qed
  next
    case False
    then show ?thesis
      using "1.prems" ne by (cases "m < 10") (auto simp: itoa_nat.simps [of m] itoa_nat.simps [of n]
          append_eq_Cons_conv Cons_eq_append_conv)
  qed
qed

lemma Itoa_nat_inject: "Itoa (int m) = Itoa (int n) \<Longrightarrow> m = n"
  by (simp add: Itoa_def itoa_nat_inject)

lemma versions_snoc: "versions ks (h @ [(a, c)]) key = versions ks h key \<union> set_option (ks_get ks c key)"
  by (auto simp: versions_def)

lemma sh_record_ok:
  assumes ok: "sh_ok w" and moves: "sim_moves (sh_sim w) s"
  shows "sh_ok (sh_record a s w)"
proof (cases "sw_clock s = sw_clock (sh_sim w)")
  case True
  with ok moves show ?thesis by (auto simp: sh_ok_def sh_record_def sim_moves_def)
next
  case False
  let ?n = "sw_clock (sh_sim w)" and ?rv = "resource_version Deployments"
  have clock: "sw_clock s = Suc ?n"
    and new: "\<And>key d. cl_Deployments (sim_view s) key = Some d \<Longrightarrow>
        cl_Deployments (sim_view (sh_sim w)) key = Some d \<or> ?rv d = Itoa (int ?n)"
    using False moves by (auto simp: sim_moves_def)
  have now: "sh_past w \<noteq> []" "now (sh_past w) = sim_view (sh_sim w)" using ok by (simp_all add: sh_ok_def)
  have old: "d \<in> versions DeploymentStore (sh_past w) key" if "cl_Deployments (sim_view (sh_sim w)) key = Some d" for key d
    using that now last_in_set [OF now(1)] unfolding versions_def now_def
    by (auto simp: DeploymentStore_def intro!: bexI [of _ "last (sh_past w)"])
  have below: "\<exists>n < ?n. ?rv d = Itoa (int n)" if "d \<in> versions DeploymentStore (sh_past w) key" for d key
    using ok that by (simp add: sh_ok_def)
  have inj: "inj_on ?rv (versions DeploymentStore (sh_past w) key)" for key
    using ok by (simp add: sh_ok_def)
  have apart: "?rv d \<noteq> Itoa (int ?n)" if "d \<in> versions DeploymentStore (sh_past w) key" for d key
    using below [OF that] by (auto dest: Itoa_nat_inject)
  have vs: "versions DeploymentStore (sh_past w @ [(a, sim_view s)]) key
      = versions DeploymentStore (sh_past w) key \<union> set_option (cl_Deployments (sim_view s) key)" for key
    unfolding versions_snoc by (simp add: DeploymentStore_def)
  have "\<exists>n < Suc ?n. ?rv d = Itoa (int n)" if "d \<in> versions DeploymentStore (sh_past w @ [(a, sim_view s)]) key" for d key
  proof (cases "d \<in> versions DeploymentStore (sh_past w) key")
    case True
    from below [OF this] show ?thesis by (auto intro: less_SucI)
  next
    case False
    with that have d: "cl_Deployments (sim_view s) key = Some d" unfolding vs by simp
    have "?rv d = Itoa (int ?n)" using new [OF d] old [of key d] False by blast
    then show ?thesis by blast
  qed
  moreover have "inj_on ?rv (versions DeploymentStore (sh_past w @ [(a, sim_view s)]) key)" for key
  proof (cases "cl_Deployments (sim_view s) key")
    case None
    then show ?thesis using inj [of key] unfolding vs by simp
  next
    case (Some d)
    show ?thesis
    proof (cases "d \<in> versions DeploymentStore (sh_past w) key")
      case True
      then show ?thesis using inj [of key] Some unfolding vs by (simp add: insert_absorb)
    next
      case new': False
      then have "?rv d = Itoa (int ?n)" using new [OF Some] old by blast
      then have "?rv d \<notin> ?rv ` versions DeploymentStore (sh_past w) key" using apart by (metis imageE)
      then show ?thesis using inj [of key] Some unfolding vs by (auto simp: inj_on_insert)
    qed
  qed
  ultimately show ?thesis using False clock by (simp add: sh_ok_def sh_record_def)
qed

section \<open>It meets the contracts\<close>

locale shared_sim_kind = sim_kind +
  assumes deployments_put: "cl_Deployments (ks_map ks (\<lambda>m. m(k := v)) c) key = Some d \<Longrightarrow>
      cl_Deployments c key = Some d \<or> (\<exists>x. v = Some x \<and> resource_version Deployments d = resource_version ops x)"
begin

lemma resource_version_sim_stamp [simp]: "resource_version ops (sim_stamp ops s x) = Itoa (int (sw_clock s))"
  by (simp add: sim_stamp_def)

lemma put_moves:
  assumes view: "sim_view (sim_put ks key v s) = ks_map ks (\<lambda>m. m(key := v)) (sim_view s)"
    and v: "\<And>x. v = Some x \<Longrightarrow> resource_version ops x = Itoa (int (sw_clock s))"
  shows "sim_moves s (sim_put ks key v s)"
proof -
  have "cl_Deployments (sim_view s) k = Some d \<or> resource_version Deployments d = Itoa (int (sw_clock s))"
    if "cl_Deployments (sim_view (sim_put ks key v s)) k = Some d" for k d
    using deployments_put [of key v "sim_view s" k d] that v unfolding view by auto
  then show ?thesis by (simp add: sim_moves_def sim_put_def)
qed

lemma persisted_version: "persisted ops (sim_stamp ops s x) = Some y \<Longrightarrow> resource_version ops y = Itoa (int (sw_clock s))"
  by (auto simp: persisted_def split: if_splits)

text \<open>A call inside either changes nothing, and fails if it was to write, or puts one object.\<close>

lemma sim_calls:
  shows "sim_get ops ks key s = (r, t) \<Longrightarrow> t = s"
    and "sim_update ops ks x s = (r, t) \<Longrightarrow> (\<exists>e. r = Inl e) \<and> t = s \<or>
        r = Inr (sim_stamp ops s x) \<and> t = sim_put ks (object_key ops x) (persisted ops (sim_stamp ops s x)) s"
    and "sim_create ops ks x s = (r, t) \<Longrightarrow> (\<exists>e. r = Inl e) \<and> t = s \<or>
        r = Inr (sim_stamp ops s x) \<and> t = sim_put ks (object_key ops x) (Some (sim_stamp ops s x)) s"
    and "sim_delete ops ks x policy s = (q, t) \<Longrightarrow> q \<noteq> None \<and> t = s \<or>
        q = None \<and> (\<exists>cur. sim_lookup ops ks s (object_key ops x) = Some cur \<and> t = sim_put ks (object_key ops x) (if om_Finalizers (getMeta ops cur) = [] then None
              else Some (sim_stamp ops s (terminating ops (sw_clock s) cur))) s)"
  by (auto simp: sim_get_def sim_update_def sim_create_def sim_delete_def Let_def split: option.splits if_splits)

lemma sim_write_moves:
  shows "sim_update ops ks x s = (r, t) \<Longrightarrow> sim_moves s t"
    and "sim_create ops ks x s = (r, t) \<Longrightarrow> sim_moves s t"
    and "sim_delete ops ks x policy s = (q, t) \<Longrightarrow> sim_moves s t"
proof -
  have stay: "sim_moves s s" by (simp add: sim_moves_def)
  show "sim_moves s t" if run: "sim_update ops ks x s = (r, t)"
  proof (cases r)
    case (Inr y)
    note u = update_contractD(4) [OF sim_update_contract, unfolded sim_client_def kind_client.simps, OF run Inr]
    from sim_calls(2) [OF run] Inr have "y = sim_stamp ops s x"
      "t = sim_put ks (object_key ops x) (persisted ops y) s" by auto
    then show ?thesis using u by (auto intro!: put_moves dest: persisted_version)
  qed (use sim_calls(2) [OF run] stay in auto)
  show "sim_moves s t" if run: "sim_create ops ks x s = (r, t)"
  proof (cases r)
    case (Inr y)
    have run': "kc_create (sim_client ops ks) x s = (Inr y, t)" using run Inr by (simp add: sim_client_def)
    note u = create_contractD(3) [OF sim_create_contract run']
    from sim_calls(3) [OF run] Inr have "y = sim_stamp ops s x" "t = sim_put ks (object_key ops x) (Some y) s" by auto
    then show ?thesis using u by (auto intro!: put_moves)
  qed (use sim_calls(3) [OF run] stay in auto)
  show "sim_moves s t" if run: "sim_delete ops ks x policy s = (q, t)"
    using sim_calls(4) [OF run]
  proof (elim disjE conjE exE)
    fix cur
    assume cur: "sim_lookup ops ks s (object_key ops x) = Some cur" and t: "t = sim_put ks (object_key ops x) (if om_Finalizers (getMeta ops cur) = [] then None
              else Some (sim_stamp ops s (terminating ops (sw_clock s) cur))) s"
    have "object_key ops cur = object_key ops x"
      using cur lookup_genuine by (simp add: lookup_view genuine_def)
    then show ?thesis
      using view_put_deleted [of cur "object_key ops x" s "sw_clock s"] unfolding t by (intro put_moves) (auto split: if_splits)
  qed (use stay in auto)
qed

lemma sim_put_clock [simp]: "sw_clock (sim_put ks key v s) = Suc (sw_clock s)"
  by (simp add: sim_put_def)

lemma sim_put_neq [simp]: "sim_put ks key v s \<noteq> s" "s \<noteq> sim_put ks key v s"
  by (metis n_not_Suc_n sim_put_clock)+

lemma sim_writes:
  "\<forall>s r t. sim_update ops ks x s = (r, t) \<longrightarrow> sim_moves s t \<and> (t = s \<or> sw_clock t = Suc (sw_clock s))"
  "\<forall>s r t. sim_create ops ks x s = (r, t) \<longrightarrow> sim_moves s t \<and> (t = s \<or> sw_clock t = Suc (sw_clock s))"
  "\<forall>s r t. sim_delete ops ks x policy s = (r, t) \<longrightarrow> sim_moves s t \<and> (t = s \<or> sw_clock t = Suc (sw_clock s))"
  using sim_write_moves(1) [of x] sim_calls(2) [of x] sim_write_moves(2) [of x] sim_calls(3) [of x]
    sim_write_moves(3) [of x policy] sim_calls(4) [of x policy]
  by (metis sim_put_clock)+

end

interpretation shared_d: shared_sim_kind Deployments DeploymentStore
  by unfold_locales (auto simp: DeploymentStore_def resource_version_def split: if_splits)

interpretation shared_s: shared_sim_kind StatefulSets StatefulSetStore
  by unfold_locales (simp add: StatefulSetStore_def)

interpretation shared_c: shared_sim_kind CronJobs CronJobStore
  by unfold_locales (simp add: CronJobStore_def)

interpretation shared_i: shared_sim_kind IdlingResources IdlingResourceStore
  by unfold_locales (simp add: IdlingResourceStore_def)

interpretation shared_a: shared_sim_kind ServiceAccounts ServiceAccountStore
  by unfold_locales (simp add: ServiceAccountStore_def)

interpretation shared_r: shared_sim_kind Roles RoleStore
  by unfold_locales (simp add: RoleStore_def)

interpretation shared_b: shared_sim_kind RoleBindings RoleBindingStore
  by unfold_locales (simp add: RoleBindingStore_def)

lemma sh_record_simps [simp]:
  "sh_sim (sh_record a s w) = s"
  "sh_past (sh_record a s w) = sh_past w @ (if sw_clock s = sw_clock (sh_sim w) then [] else [(a, sim_view s)])"
  by (simp_all add: sh_record_def)

lemma sh_ok_plan [simp]: "sh_ok (w\<lparr> sh_plan := p \<rparr>) = sh_ok w"
  by (simp add: sh_ok_def)

lemma scale_moves: "sim_moves s (scale key n s)"
proof (cases "sim_lookup Deployments DeploymentStore s key")
  case (Some d)
  obtain r t where "sim_update Deployments DeploymentStore (d\<lparr> d_Replicas := Some n \<rparr>) s = (r, t)" by fastforce
  with Some shared_d.sim_write_moves(1) [OF this] show ?thesis by (simp add: scale_def)
qed (simp add: scale_def sim_moves_def)

text \<open>What happens just before a call.\<close>

lemma sh_turn_ok:
  assumes "sh_turn w = (lost, w1)" "sh_ok w"
  shows "sh_ok w1 \<and> (\<exists>es. sh_past w1 = sh_past w @ es \<and> others es)"
proof (cases "sh_plan w")
  case Nil
  with assms show ?thesis by (simp add: sh_turn_def others_def)
next
  case (Cons t turns)
  obtain action l where t: "t = Turn action l" by (cases t)
  show ?thesis
  proof (cases action)
    case None
    with assms Cons t show ?thesis by (auto simp: sh_turn_def others_def)
  next
    case (Some a)
    obtain key n where a: "a = (key, n)" by fastforce
    have "w1 = (sh_record Others (scale key n (sh_sim w)) w)\<lparr> sh_plan := turns \<rparr>"
      using assms(1) Cons t Some a by (simp add: sh_turn_def)
    with sh_record_ok [OF assms(2) scale_moves] show ?thesis by (auto simp: others_def)
  qed
qed

lemma now_ok: "sh_ok w \<Longrightarrow> now (sh_past w) = sim_view (sh_sim w)"
  by (simp add: sh_ok_def)

text \<open>A call that writes, after its turn: none or one own step.\<close>

lemma sh_write_step:
  assumes run: "sh_write f timeout w = (r, w')" and ok: "sh_ok w"
    and writes: "\<forall>s r t. f s = (r, t) \<longrightarrow> sim_moves s t \<and> (t = s \<or> sw_clock t = Suc (sw_clock s))"
  shows "\<exists>lost s r1 t. f s = (r1, t) \<and> r = (if lost then timeout else r1) \<and>
    (t = s \<longrightarrow> (\<exists>es. went sh_server w w' es \<and> others es)) \<and>
    (t \<noteq> s \<longrightarrow> (\<exists>es. went sh_server w w' es \<and>
       (\<forall>Q. Q (sim_view s) (sim_view t) \<longrightarrow> own_step (sh_past w) es Q)))"
proof -
  obtain lost w1 where turn: "sh_turn w = (lost, w1)" by fastforce
  obtain r1 s where call: "f (sh_sim w1) = (r1, s)" by fastforce
  have r: "r = (if lost then timeout else r1)" and w': "w' = sh_record Own s w1"
    using run turn call by (simp_all add: sh_write_def)
  obtain es where ok1: "sh_ok w1" and es: "sh_past w1 = sh_past w @ es" "others es"
    using sh_turn_ok [OF turn ok] by blast
  have f: "sim_moves (sh_sim w1) s" "s = sh_sim w1 \<or> sw_clock s = Suc (sw_clock (sh_sim w1))"
    using writes call by blast+
  have ok': "sh_ok w'" unfolding w' by (rule sh_record_ok [OF ok1 f(1)])
  have "\<exists>es. went sh_server w w' es \<and> others es" if "s = sh_sim w1"
    using that ok' es by (auto simp: went_def sh_server_def w')
  moreover have "\<exists>es. went sh_server w w' es \<and> (\<forall>Q. Q (sim_view (sh_sim w1)) (sim_view s) \<longrightarrow> own_step (sh_past w) es Q)"
    if moved: "s \<noteq> sh_sim w1"
  proof -
    have "sw_clock s \<noteq> sw_clock (sh_sim w1)" using f(2) moved by auto
    then have "went sh_server w w' (es @ [(Own, sim_view s)])"
      using ok' es by (simp add: went_def sh_server_def w')
    moreover have "own_step (sh_past w) (es @ [(Own, sim_view s)]) Q" if "Q (sim_view (sh_sim w1)) (sim_view s)" for Q
      unfolding own_step_def
      by (intro exI [of _ es] exI [of _ "sim_view s"] exI [of _ "[]"]) (use that es now_ok [OF ok1] in \<open>simp add: others_def\<close>)
    ultimately show ?thesis by blast
  qed
  ultimately show ?thesis using call r by blast
qed

context shared_sim_kind
begin

lemma sh_get: "shared_get sh_server ops ks (sh_client ops ks)"
  unfolding shared_get_def
proof (intro allI impI conjI)
  fix key w r w'
  assume "kc_get (sh_client ops ks) key w = (r, w')"
  then obtain lost where turn: "sh_turn w = (lost, w')" and r: "r = fst (sim_get ops ks key (sh_sim w'))"
    by (auto simp: sh_client_def sh_read_def split: prod.splits)
  have x: "ks_get ks (sim_view (sh_sim w')) key = Some x" if "r = Inr x" for x
    using r that by (auto simp: sim_get_def lookup_view split: option.splits)
  show "object_key ops x = key" if "r = Inr x" for x
    using lookup_genuine [OF x [OF that]] by (simp add: genuine_def)
  assume ok: "srv_ok sh_server w"
  then have turned: "sh_ok w' \<and> (\<exists>es. sh_past w' = sh_past w @ es \<and> others es)"
    using sh_turn_ok [OF turn] by (simp add: sh_server_def)
  then show "\<exists>es. went sh_server w w' es \<and> others es" by (auto simp: went_def sh_server_def)
  fix y assume y: "r = Inr y"
  show "resource_version ops y \<noteq> ''''" using lookup_genuine [OF x [OF y]] by (simp add: genuine_def)
  have "sim_view (sh_sim w') \<in> snd ` set (sh_past w')"
    using turned last_in_set unfolding sh_ok_def now_def by (metis imageI)
  then show "y \<in> versions ks (srv_history sh_server w') key"
    using x [OF y] unfolding versions_def sh_server_def server.simps mem_Collect_eq by blast
qed

lemma sh_update: "shared_update sh_server ops ks (sh_client ops ks)"
  unfolding shared_update_def
proof (intro allI impI conjI)
  fix x w r w'
  assume run: "kc_update (sh_client ops ks) x w = (r, w')"
  then have call: "sh_write (sim_update ops ks x) (Inl timed_out) w = (r, w')" by (simp add: sh_client_def)
  show "\<exists>v g. y = stamp ops v g x \<and> v \<noteq> ''''" if y: "r = Inr y" for y
  proof -
    obtain lost w1 r1 s where "sh_turn w = (lost, w1)" "sim_update ops ks x (sh_sim w1) = (r1, s)"
        "r = (if lost then Inl timed_out else r1)"
      using call by (auto simp: sh_write_def split: prod.splits)
    with sim_calls(2) [of x "sh_sim w1" r1 s] y have "y = sim_stamp ops (sh_sim w1) x" by (auto split: if_splits)
    then show ?thesis using sim_stamp_form by simp
  qed
  assume ok: "srv_ok sh_server w"
  then have ok': "sh_ok w" by (simp add: sh_server_def)
  obtain lost s r1 t where f: "sim_update ops ks x s = (r1, t)" and r: "r = (if lost then Inl timed_out else r1)"
    and quiet: "t = s \<longrightarrow> (\<exists>es. went sh_server w w' es \<and> others es)"
    and moved: "t \<noteq> s \<longrightarrow> (\<exists>es. went sh_server w w' es \<and> (\<forall>Q. Q (sim_view s) (sim_view t) \<longrightarrow> own_step (sh_past w) es Q))"
    using sh_write_step [OF call ok' sim_writes(1)] by blast
  show "\<exists>es. went sh_server w w' es \<and>
      (case r of
         Inr y \<Rightarrow> own_step (srv_history sh_server w) es (update_step ops ks x y)
       | Inl e \<Rightarrow> others es \<or> \<not> IsConflict e \<and>
           (\<exists>v g. v \<noteq> '''' \<and> own_step (srv_history sh_server w) es (update_step ops ks x (stamp ops v g x))))"
  proof (cases "t = s")
    case True
    then have "\<exists>e. r1 = Inl e" using sim_calls(2) [OF f] by auto
    then show ?thesis using quiet True r by auto
  next
    case False
    then have r1: "r1 = Inr (sim_stamp ops s x)" using sim_calls(2) [OF f] by auto
    then have "kc_update (sim_client ops ks) x s = (Inr (sim_stamp ops s x), t)" using f by (simp add: sim_client_def)
    note u = update_contractD(3,4) [OF sim_update_contract this, of "sim_stamp ops s x", simplified]
    have "update_step ops ks x (sim_stamp ops s x) (sim_view s) (sim_view t)"
      using u by (auto simp: update_step_def)
    then obtain es where es: "went sh_server w w' es" "own_step (sh_past w) es (update_step ops ks x (sim_stamp ops s x))"
      using moved False by blast
    obtain v g where "sim_stamp ops s x = stamp ops v g x" "v \<noteq> ''''" using sim_stamp_form by blast
    with es r r1 show ?thesis by (intro exI [of _ es]) (auto simp: sh_server_def timed_out_def)
  qed
qed

lemma sh_create: "shared_create sh_server ops ks (sh_client ops ks)"
  unfolding shared_create_def
proof (intro allI impI)
  fix x w r w'
  assume "kc_create (sh_client ops ks) x w = (r, w')" and "srv_ok sh_server w"
  then have call: "sh_write (sim_create ops ks x) (Inl timed_out) w = (r, w')" and ok: "sh_ok w"
    by (simp_all add: sh_client_def sh_server_def)
  obtain lost s r1 t where f: "sim_create ops ks x s = (r1, t)" and r: "r = (if lost then Inl timed_out else r1)"
    and quiet: "t = s \<longrightarrow> (\<exists>es. went sh_server w w' es \<and> others es)"
    and moved: "t \<noteq> s \<longrightarrow> (\<exists>es. went sh_server w w' es \<and> (\<forall>Q. Q (sim_view s) (sim_view t) \<longrightarrow> own_step (sh_past w) es Q))"
    using sh_write_step [OF call ok sim_writes(2)] by blast
  show "\<exists>es. went sh_server w w' es \<and>
      (case r of
         Inr y \<Rightarrow> own_step (srv_history sh_server w) es (create_step ops ks x y)
       | Inl e \<Rightarrow> others es \<or> (\<exists>y. own_step (srv_history sh_server w) es (create_step ops ks x y)))"
  proof (cases "t = s")
    case True
    then have "\<exists>e. r1 = Inl e" using sim_calls(3) [OF f] by auto
    then show ?thesis using quiet True r by auto
  next
    case False
    then have r1: "r1 = Inr (sim_stamp ops s x)" using sim_calls(3) [OF f] by auto
    then have "kc_create (sim_client ops ks) x s = (Inr (sim_stamp ops s x), t)" using f by (simp add: sim_client_def)
    note u = create_contractD(2,3) [OF sim_create_contract this]
    have "create_step ops ks x (sim_stamp ops s x) (sim_view s) (sim_view t)"
      using u by (simp add: create_step_def)
    then obtain es where "went sh_server w w' es" "own_step (sh_past w) es (create_step ops ks x (sim_stamp ops s x))"
      using moved False by blast
    with r r1 show ?thesis by (intro exI [of _ es]) (auto simp: sh_server_def)
  qed
qed

lemma sh_delete: "shared_delete sh_server ops ks (sh_client ops ks)"
  unfolding shared_delete_def
proof (intro allI impI)
  fix x policy w r w'
  assume "kc_delete (sh_client ops ks) x policy w = (r, w')" and "srv_ok sh_server w"
  then have call: "sh_write (sim_delete ops ks x policy) (Some timed_out) w = (r, w')" and ok: "sh_ok w"
    by (simp_all add: sh_client_def sh_server_def)
  obtain lost s r1 t where f: "sim_delete ops ks x policy s = (r1, t)" and r: "r = (if lost then Some timed_out else r1)"
    and quiet: "t = s \<longrightarrow> (\<exists>es. went sh_server w w' es \<and> others es)"
    and moved: "t \<noteq> s \<longrightarrow> (\<exists>es. went sh_server w w' es \<and> (\<forall>Q. Q (sim_view s) (sim_view t) \<longrightarrow> own_step (sh_past w) es Q))"
    using sh_write_step [OF call ok sim_writes(3)] by blast
  show "\<exists>es. went sh_server w w' es \<and>
      (others es \<and> r \<noteq> None \<or> own_step (srv_history sh_server w) es (delete_step ops ks x))"
  proof (cases "t = s")
    case True
    then have "r1 \<noteq> None" using sim_calls(4) [OF f] by auto
    then show ?thesis using quiet True r by auto
  next
    case False
    then have "r1 = None" using sim_calls(4) [OF f] by auto
    then have "kc_delete (sim_client ops ks) x policy s = (None, t)" using f by (simp add: sim_client_def)
    from delete_contractD(3) [OF sim_delete_contract this]
    have "delete_step ops ks x (sim_view s) (sim_view t)" by (simp add: delete_step_def)
    then show ?thesis using moved False unfolding sh_server_def by auto
  qed
qed

lemma sh_contract: "shared_contract sh_server ops ks (sh_client ops ks)"
proof -
  have "retry_contract (sh_client ops ks)"
    by (simp add: retry_contract_def sh_client_def retry_steps_run)
  with sh_get sh_update sh_create sh_delete show ?thesis by (simp only: shared_contract_def)
qed

end

text \<open>The versions of the Deployments are never reused.\<close>

lemma sh_versioned: "versioned sh_server Deployments DeploymentStore"
  by (simp add: versioned_def sh_server_def sh_ok_def)

definition sh_reconciler :: "string \<Rightarrow> shared_world reconciler" where
  "sh_reconciler kidlectl =
     \<lparr> rc_Deployments = sh_client Deployments DeploymentStore,
       rc_StatefulSets = sh_client StatefulSets StatefulSetStore,
       rc_CronJobs = sh_client CronJobs CronJobStore,
       rc_IdlingResources = sh_client IdlingResources IdlingResourceStore,
       rc_ServiceAccounts = sh_client ServiceAccounts ServiceAccountStore,
       rc_Roles = sh_client Roles RoleStore,
       rc_RoleBindings = sh_client RoleBindings RoleBindingStore,
       rc_Event = (\<lambda>ev w. w\<lparr> sh_sim := (sh_sim w)\<lparr> sw_events := sw_events (sh_sim w) @ [ev] \<rparr> \<rparr>),
       rc_SetControllerReference = sim_owner,
       rc_AddFinalizer = (\<lambda>fs f. if f \<in> set fs then fs else fs @ [f]),
       rc_RemoveFinalizer = (\<lambda>fs f. filter (\<lambda>g. g \<noteq> f) fs),
       rc_RoleGroup = (\<lambda>_. ''''),
       rc_KidlectlImage = kidlectl \<rparr>"

theorem sh_reconciler_shared: "shared_reconciler sh_server (sh_reconciler kidlectl)"
proof -
  have "controllerutil_contract (sh_reconciler kidlectl)"
    by (auto simp: controllerutil_contract_def sh_reconciler_def sim_owner_def)
  moreover have "went sh_server w (rc_Event (sh_reconciler kidlectl) ev w) [] \<and> others []" if "srv_ok sh_server w" for ev w
    using that by (simp add: went_def sh_server_def sh_reconciler_def sh_ok_def others_def sim_view_def)
  moreover have "srv_history sh_server w \<noteq> []" if "srv_ok sh_server w" for w
    using that by (simp add: sh_server_def sh_ok_def)
  ultimately show ?thesis
    by (simp add: shared_reconciler_def) (simp add: sh_reconciler_def shared_d.sh_contract shared_s.sh_contract
        shared_c.sh_contract shared_i.sh_contract shared_a.sh_contract shared_r.sh_contract shared_b.sh_contract,
        blast)
qed

section \<open>A small shared cluster\<close>

text \<open>
  The cluster of \<open>Sim\<close>. A run that idles the Deployment makes its sixteenth call to put the replicas to
  zero; under \<open>demo_plan\<close> somebody scales the Deployment to five just before it, so that it meets a
  conflict, and the answer of the repeated one is lost.
\<close>

definition demo_shared :: "turn list \<Rightarrow> IdlingResource \<Rightarrow> shared_world" where
  "demo_shared plan i = \<lparr> sh_sim = demo_world i, sh_past = [(Others, sim_view (demo_world i))], sh_plan = plan \<rparr>"

definition demo_plan :: "turn list" where
  "demo_plan = replicate 15 (Turn None False) @
     [Turn (Some (demo_target, 5)) False, Turn None False, Turn None True]"

lemma demo_shared_ok: "sh_ok (demo_shared plan i)"
proof -
  have only: "d = demo_deployment" if "d \<in> versions DeploymentStore [(Others, sim_view (demo_world i))] key" for d key
    using that by (auto simp: versions_def DeploymentStore_def split: if_splits)
  have version: "resource_version Deployments demo_deployment = Itoa (int 1)"
    by (simp add: demo_defs resource_version_def ops_defs Itoa_def itoa_nat.simps digit_char_def)
  have "sw_clock (demo_world i) = 7" by (simp add: demo_world_def)
  then show ?thesis
    unfolding sh_ok_def demo_shared_def shared_world.simps
    by (auto simp: now_def inj_on_def version dest!: only intro: exI [of _ 1])
qed

end
