(* ===== verification/Interleaved_Properties.thy ===== *)
theory Interleaved_Properties
  imports Shared_Sim Idler_Properties
begin

text \<open>
  Runs of \<open>Reconcile\<close> among other clients of the API server: which objects a run writes, what it does
  to the workload and to the recorded number of replicas, and what a stale read makes of the record.
  The witnesses are runs against the server of \<open>Shared_Sim\<close>: somebody scales the Deployment in the
  middle of the run, and an answer is lost.
\<close>

section \<open>What a run leaves alone\<close>

lemma run_leaves:
  fixes R :: "'w reconciler" and p :: "cluster \<Rightarrow> 'b"
  assumes R: "shared_reconciler S R" and ok: "srv_ok S w"
    and get: "kc_get (rc_IdlingResources R) req w = (Inr i, w1)" and run: "Reconcile R req w = (r, w')"
    and apart: "apart_from_run i p"
  shows "own_changes S p w w' = []"
proof -
  have "run_slots j \<subseteq> Collect (independent p)" if "(Inr i :: go_error + IdlingResource) = Inr j" for j
    using apart that by (simp add: run_slots_def apart_from_run_def apart_from_owned_slots apart_from_workload_slots)
  then have "leaves S p w w'"
    by (intro Reconcile_frame_calls [OF shared_reconciler_keeps [OF R, of p] get _ run]) simp
  from leaves_changes [OF this ok] show ?thesis by simp
qed

text \<open>
  C9: The frame among others: whoever acts between the calls of a run, however stale its reads are and
  whichever answers are lost, no step of the run changes an object but the instance it has read, the
  workload that instance refers to, and the service account, role, role binding and two cron jobs of
  the instance.
\<close>

theorem interleaved_frame:
  assumes R: "shared_reconciler S R" and ok: "srv_ok S w"
    and get: "kc_get (rc_IdlingResources R) req w = (Inr i, w1)" and run: "Reconcile R req w = (r, w')"
  shows "(ref_Kind (ref_of i) = ''Deployment'' \<and> k = target_key i
            \<or> own_changes S (\<lambda>c. cl_Deployments c k) w w' = []) \<and>
     (ref_Kind (ref_of i) = ''StatefulSet'' \<and> k = target_key i
            \<or> own_changes S (\<lambda>c. cl_StatefulSets c k) w w' = []) \<and>
     (ref_Kind (ref_of i) = ''CronJob'' \<and> k = target_key i
            \<or> k = owned_key i CommandIdle \<or> k = owned_key i CommandWakeup
            \<or> own_changes S (\<lambda>c. cl_CronJobs c k) w w' = []) \<and>
     (k = meta_key (ir_meta i) \<or> own_changes S (\<lambda>c. cl_IdlingResources c k) w w' = []) \<and>
     (k = owned_key i ''sa'' \<or> own_changes S (\<lambda>c. cl_ServiceAccounts c k) w w' = []) \<and>
     (k = owned_key i ''role'' \<or> own_changes S (\<lambda>c. cl_Roles c k) w w' = []) \<and>
     (k = owned_key i ''rb'' \<or> own_changes S (\<lambda>c. cl_RoleBindings c k) w w' = [])"
proof -
  note keep = run_leaves [OF assms]
  note apart = apart_from_run_def apart_from_workload_def apart_from_owned_def
  have "\<not> (ref_Kind (ref_of i) = ''Deployment'' \<and> k = target_key i) \<Longrightarrow>
      own_changes S (\<lambda>c. cl_Deployments c k) w w' = []"
    by (rule keep) (auto simp: apart)
  moreover have "\<not> (ref_Kind (ref_of i) = ''StatefulSet'' \<and> k = target_key i) \<Longrightarrow>
      own_changes S (\<lambda>c. cl_StatefulSets c k) w w' = []"
    by (rule keep) (auto simp: apart)
  moreover have "\<not> (ref_Kind (ref_of i) = ''CronJob'' \<and> k = target_key i) \<Longrightarrow>
      k \<noteq> owned_key i CommandIdle \<Longrightarrow> k \<noteq> owned_key i CommandWakeup \<Longrightarrow>
      own_changes S (\<lambda>c. cl_CronJobs c k) w w' = []"
    by (rule keep) (auto simp: apart)
  moreover have "k \<noteq> meta_key (ir_meta i) \<Longrightarrow> own_changes S (\<lambda>c. cl_IdlingResources c k) w w' = []"
    by (rule keep) (auto simp: apart)
  moreover have "k \<noteq> owned_key i ''sa'' \<Longrightarrow> own_changes S (\<lambda>c. cl_ServiceAccounts c k) w w' = []"
    by (rule keep) (auto simp: apart)
  moreover have "k \<noteq> owned_key i ''role'' \<Longrightarrow> own_changes S (\<lambda>c. cl_Roles c k) w w' = []"
    by (rule keep) (auto simp: apart)
  moreover have "k \<noteq> owned_key i ''rb'' \<Longrightarrow> own_changes S (\<lambda>c. cl_RoleBindings c k) w w' = []"
    by (rule keep) (auto simp: apart)
  ultimately show ?thesis by blast
qed

text \<open>The runs of the witnesses.\<close>

abbreviation shared_demo :: "shared_world reconciler" where
  "shared_demo \<equiv> sh_reconciler ''kidledev/kidlectl:main''"

abbreviation busy_world :: "IdlingResource \<Rightarrow> shared_world" where
  "busy_world \<equiv> demo_shared demo_plan"

lemma busy_world_ok [simp]: "srv_ok sh_server (busy_world i)"
  by (simp add: sh_server_def demo_shared_ok)

lemma busy_world_get:
  obtains w1 where "kc_get (rc_IdlingResources shared_demo) demo_req (busy_world (demo_instance kind idle))
      = (Inr (demo_instance kind idle), w1)"
proof -
  obtain turns where plan: "demo_plan = Turn None False # turns" by (simp add: demo_plan_def numeral_eq_Suc)
  have demo_sim: "sh_sim (demo_shared p i) = demo_world i" for p i by (simp add: demo_shared_def)
  have turn: "sh_turn (demo_shared (Turn None False # turns) i) = (False, demo_shared turns i)" for i
    by (simp add: sh_turn_def demo_shared_def)
  have "sim_lookup IdlingResources IdlingResourceStore (demo_world (demo_instance kind idle)) demo_req
      = Some (demo_instance kind idle)"
    unfolding sim_i.lookup_view by (simp add: IdlingResourceStore_def)
  then show ?thesis
    by (intro that, unfold plan) (simp add: sh_reconciler_def sh_client_def sh_read_def turn demo_sim sim_get_def)
qed

lemma shared_demo_client: "rc_Deployments shared_demo = sh_client Deployments DeploymentStore"
  by (simp add: sh_reconciler_def)

text \<open>
  Under \<open>demo_plan\<close> the run ends with the error of the lost answer, and has put the replicas from the
  five of somebody else to zero.
\<close>

lemma busy_run:
  "fst (Reconcile shared_demo demo_req (busy_world (demo_instance ''Deployment'' True)))
     = Ret (no_requeue, Some (Errorf ''error during idling'' timed_out))"
  "own_writes (\<lambda>c. map_option d_Replicas (cl_Deployments c demo_target))
       (now (sh_past (busy_world (demo_instance ''Deployment'' True))))
       (drop (length (sh_past (busy_world (demo_instance ''Deployment'' True))))
         (sh_past (snd (Reconcile shared_demo demo_req (busy_world (demo_instance ''Deployment'' True))))))
     = [(Some (Some 5), Some (Some 0))]"
  by code_simp+

lemma busy_change:
  obtains x y where "(Some x, Some y) \<in> set (own_changes sh_server (\<lambda>c. cl_Deployments c demo_target)
       (busy_world (demo_instance ''Deployment'' True))
       (snd (Reconcile shared_demo demo_req (busy_world (demo_instance ''Deployment'' True)))))"
    "d_Replicas x = Some 5" "d_Replicas y = Some 0"
proof -
  let ?i = "demo_instance ''Deployment'' True"
  have "(Some (Some 5), Some (Some 0)) \<in> set (own_writes (\<lambda>c. map_option d_Replicas (cl_Deployments c demo_target))
       (now (sh_past (busy_world ?i)))
       (drop (length (sh_past (busy_world ?i))) (sh_past (snd (Reconcile shared_demo demo_req (busy_world ?i))))))"
    unfolding busy_run by simp
  from own_writes_image [where f = "map_option d_Replicas", OF this] that show ?thesis
    by (auto simp: own_changes_def sh_server_def)
qed

theorem interleaved_frame_witness:
  "own_changes sh_server (\<lambda>c. cl_StatefulSets c demo_target) (busy_world (demo_instance ''Deployment'' True))
     (snd (Reconcile shared_demo demo_req (busy_world (demo_instance ''Deployment'' True)))) = []"
proof -
  let ?i = "demo_instance ''Deployment'' True"
  obtain w1 where get: "kc_get (rc_IdlingResources shared_demo) demo_req (busy_world ?i) = (Inr ?i, w1)"
    by (rule busy_world_get)
  obtain r w' where run: "Reconcile shared_demo demo_req (busy_world ?i) = (r, w')" by fastforce
  show ?thesis
    using interleaved_frame [OF sh_reconciler_shared busy_world_ok get run, of demo_target]
    by (simp add: demo_simps run)
qed

section \<open>What a run does to the workload\<close>

lemma reconciler_clients_shared:
  assumes "shared_reconciler S R"
  shows "shared_contract S Deployments DeploymentStore (rc_Deployments R)"
    and "shared_contract S StatefulSets StatefulSetStore (rc_StatefulSets R)"
    and "shared_contract S CronJobs CronJobStore (rc_CronJobs R)"
  using assms by (simp_all add: shared_reconciler_def)

lemma Deployment_steps:
  assumes R: "shared_reconciler S R" and versions: "versioned S Deployments DeploymentStore" and ok: "srv_ok S w"
    and get: "kc_get (rc_IdlingResources R) req w = (Inr i, w1)" and kind: "ref_Kind (ref_of i) = ''Deployment''"
    and run: "Reconcile R req w = (r, w')"
  shows "\<exists>sts. subseq sts (branch_steps i) \<and>
     list_all2 (step_change Deployments deployment_idle (\<lambda>d. deployment_wake (deployment_prior d))
         (versions DeploymentStore (srv_history S w') (target_key i))) sts
       (own_changes S (\<lambda>c. cl_Deployments c (target_key i)) w w')"
proof -
  have "apart_from_owned i (\<lambda>c. ks_get DeploymentStore c (target_key i))"
    by (simp add: DeploymentStore_def apart_from_owned_def)
  from rec_d.Reconcile_steps [OF R reconciler_clients_shared(1) [OF R] versions ok get kind this run]
  show ?thesis by (simp add: DeploymentStore_def)
qed

text \<open>
  C5: What a run may do to a Deployment, among others: the changes it makes are some of the steps of its
  branch, in their order and each at most once, however often the updates conflicted. A deleted instance
  wakes up and clears the annotations, an idle one sleeps, any other one wakes up; the reference is set
  before. Each step is taken on the Deployment the server stores at that very moment, so what others
  wrote in between is kept; the number to wake up to was recorded on a version the server has stored.
\<close>

theorem interleaved_Deployment_steps:
  assumes R: "shared_reconciler S R" and versions: "versioned S Deployments DeploymentStore" and ok: "srv_ok S w"
    and get: "kc_get (rc_IdlingResources R) req w = (Inr i, w1)" and kind: "ref_Kind (ref_of i) = ''Deployment''"
    and run: "Reconcile R req w = (r, w')"
  shows "\<exists>sts. subseq sts (branch_steps i) \<and>
     list_all2 (step_change Deployments deployment_idle (\<lambda>d. deployment_wake (deployment_prior d))
         (versions DeploymentStore (srv_history S w') (target_key i))) sts
       (own_changes S (\<lambda>c. cl_Deployments c (target_key i)) w w')"
  by (rule Deployment_steps [OF assms])

theorem interleaved_Deployment_steps_witness:
  "\<exists>sts w'. snd (Reconcile shared_demo demo_req (busy_world (demo_instance ''Deployment'' True))) = w' \<and>
     sts \<noteq> [] \<and> subseq sts [Refer ''web-idler'', Sleep] \<and>
     list_all2 (step_change Deployments deployment_idle (\<lambda>d. deployment_wake (deployment_prior d))
         (versions DeploymentStore (sh_past w') demo_target)) sts
       (own_changes sh_server (\<lambda>c. cl_Deployments c demo_target)
         (busy_world (demo_instance ''Deployment'' True)) w')"
proof -
  let ?i = "demo_instance ''Deployment'' True"
  obtain w1 where get: "kc_get (rc_IdlingResources shared_demo) demo_req (busy_world ?i) = (Inr ?i, w1)"
    by (rule busy_world_get)
  obtain r w' where run: "Reconcile shared_demo demo_req (busy_world ?i) = (r, w')" by fastforce
  have steps: "branch_steps ?i = [Refer ''web-idler'', Sleep]"
    by (simp add: branch_steps_def demo_simps) (simp add: demo_defs)
  have past: "srv_history sh_server = sh_past" by (simp add: sh_server_def)
  have changes: "own_changes sh_server (\<lambda>c. cl_Deployments c demo_target) (busy_world ?i) w' \<noteq> []"
    by (rule busy_change) (auto simp: run)
  have kind: "ref_Kind (ref_of ?i) = ''Deployment''" by (simp add: demo_objects)
  obtain sts where sts: "subseq sts [Refer ''web-idler'', Sleep]"
      "list_all2 (step_change Deployments deployment_idle (\<lambda>d. deployment_wake (deployment_prior d))
         (versions DeploymentStore (sh_past w') demo_target)) sts
       (own_changes sh_server (\<lambda>c. cl_Deployments c demo_target) (busy_world ?i) w')"
    using interleaved_Deployment_steps [OF sh_reconciler_shared sh_versioned busy_world_ok get kind run]
    unfolding steps past demo_objects(3) by blast
  moreover have "sts \<noteq> []" using sts(2) changes by auto
  ultimately show ?thesis unfolding run by (intro exI [of _ sts] exI [of _ w']) simp
qed

text \<open>The same for the two other kinds.\<close>

theorem interleaved_StatefulSet_steps:
  assumes R: "shared_reconciler S R" and versions: "versioned S StatefulSets StatefulSetStore" and ok: "srv_ok S w"
    and get: "kc_get (rc_IdlingResources R) req w = (Inr i, w1)" and kind: "ref_Kind (ref_of i) = ''StatefulSet''"
    and run: "Reconcile R req w = (r, w')"
  shows "\<exists>sts. subseq sts (branch_steps i) \<and>
     list_all2 (step_change StatefulSets statefulset_idle (\<lambda>s. statefulset_wake (statefulset_prior s))
         (versions StatefulSetStore (srv_history S w') (target_key i))) sts
       (own_changes S (\<lambda>c. cl_StatefulSets c (target_key i)) w w')"
proof -
  have "apart_from_owned i (\<lambda>c. ks_get StatefulSetStore c (target_key i))"
    by (simp add: StatefulSetStore_def apart_from_owned_def)
  from rec_s.Reconcile_steps [OF R reconciler_clients_shared(2) [OF R] versions ok get kind this run]
  show ?thesis by (simp add: StatefulSetStore_def)
qed

theorem interleaved_CronJob_steps:
  assumes R: "shared_reconciler S R" and versions: "versioned S CronJobs CronJobStore" and ok: "srv_ok S w"
    and get: "kc_get (rc_IdlingResources R) req w = (Inr i, w1)" and kind: "ref_Kind (ref_of i) = ''CronJob''"
    and apart: "target_apart i" and run: "Reconcile R req w = (r, w')"
  shows "\<exists>sts. subseq sts (branch_steps i) \<and>
     list_all2 (step_change CronJobs (\<lambda>c. Ret (cronjob_suspend c)) (\<lambda>_. cronjob_resume)
         (versions CronJobStore (srv_history S w') (target_key i))) sts
       (own_changes S (\<lambda>c. cl_CronJobs c (target_key i)) w w')"
proof -
  have "apart_from_owned i (\<lambda>c. ks_get CronJobStore c (target_key i))"
    using kind apart by (simp add: CronJobStore_def apart_from_owned_cronjob target_apart_def)
  from rec_c.Reconcile_steps [OF R reconciler_clients_shared(3) [OF R] versions ok get kind this run]
  show ?thesis by (simp add: CronJobStore_def)
qed

section \<open>The record of an idled Deployment\<close>

text \<open>One change by an idle run.\<close>

lemma persistedD: "persisted ops x = Some y \<Longrightarrow> y = x"
  by (auto simp: persisted_def split: if_splits)

lemma deployment_previous_stamp:
  "deployment_previous (stamp Deployments v g d) = deployment_previous d"
  by (simp add: deployment_previous_cases)

lemma idle_records:
  assumes "deployment_idle x = Ret y"
  shows "d_rest y = d_rest x \<and> d_Replicas y = Some 0 \<and> (\<exists>n. d_Replicas x = Some n \<and> deployment_previous y = Inr n) \<and>
     om_DeletionTimestamp (d_meta y) = om_DeletionTimestamp (d_meta x)"
  using assms by (auto simp: deployment_idle_eq deployment_previous_cases)

lemma list_all2_set2: "list_all2 P xs ys \<Longrightarrow> y \<in> set ys \<Longrightarrow> \<exists>x \<in> set xs. P x y"
  by (induction rule: list_all2_induct) auto

lemma idle_step_change:
  assumes "step_change Deployments deployment_idle wake Z st ch" "st = Refer i \<or> st = Sleep" "snd ch = Some y"
  shows "\<exists>x. fst ch = Some x \<and> d_rest y = d_rest x \<and> (st = Refer i \<and> d_Replicas y = d_Replicas x \<or>
     (\<exists>n. d_Replicas x = Some n \<and> d_Replicas y = Some 0 \<and> deployment_previous y = Inr n))"
proof -
  obtain x z v g where x: "fst ch = Some x" "step_effect Deployments deployment_idle wake Z st x z"
      "persisted Deployments (stamp Deployments v g z) = Some y"
    using assms(1,3) by (auto simp: step_change_def)
  have y: "y = stamp Deployments v g z" using x(3) by (rule persistedD)
  show ?thesis
    using assms(2)
  proof
    assume "st = Refer i"
    then show ?thesis using x by (simp add: y deployment_previous_stamp with_reference_def)
  next
    assume "st = Sleep"
    then have "deployment_idle x = Ret z" using x(2) by simp
    from idle_records [OF this] show ?thesis using x(1) by (auto simp: y deployment_previous_stamp)
  qed
qed

text \<open>
  C6: Nothing is lost while a Deployment is idled. Whoever scales or edits it during the run, the run
  changes it at most twice, keeps the rest of it, and when it changes the number of replicas, it sets
  it to 0 and records the number the server stored at that very moment.
\<close>

theorem interleaved_idle_records:
  assumes R: "shared_reconciler S R" and versions: "versioned S Deployments DeploymentStore" and ok: "srv_ok S w"
    and get: "kc_get (rc_IdlingResources R) req w = (Inr i, w1)" and kind: "ref_Kind (ref_of i) = ''Deployment''"
    and idle: "\<not> IsBeingDeleted i" "spec_Idle (ir_Spec i)" and run: "Reconcile R req w = (r, w')"
  shows "length (own_changes S (\<lambda>c. cl_Deployments c (target_key i)) w w') \<le> 2 \<and>
     (\<forall>before y. (before, Some y) \<in> set (own_changes S (\<lambda>c. cl_Deployments c (target_key i)) w w') \<longrightarrow>
        (\<exists>x. before = Some x \<and> d_rest y = d_rest x \<and> (d_Replicas y = d_Replicas x \<or>
           (\<exists>n. d_Replicas x = Some n \<and> d_Replicas y = Some 0 \<and> deployment_previous y = Inr n))))"
proof -
  let ?ch = "own_changes S (\<lambda>c. cl_Deployments c (target_key i)) w w'"
  obtain sts where sts: "subseq sts (branch_steps i)"
      "list_all2 (step_change Deployments deployment_idle (\<lambda>d. deployment_wake (deployment_prior d))
         (versions DeploymentStore (srv_history S w') (target_key i))) sts ?ch"
    using Deployment_steps [OF R versions ok get kind run] by blast
  have steps: "branch_steps i = [Refer (om_Name (ir_meta i)), Sleep]"
    using idle by (simp add: branch_steps_def)
  have "length ?ch \<le> 2"
    using list_emb_length [OF sts(1)] list_all2_lengthD [OF sts(2)] by (simp add: steps)
  moreover have "\<exists>x. before = Some x \<and> d_rest y = d_rest x \<and> (d_Replicas y = d_Replicas x \<or>
      (\<exists>n. d_Replicas x = Some n \<and> d_Replicas y = Some 0 \<and> deployment_previous y = Inr n))"
    if "(before, Some y) \<in> set ?ch" for before y
  proof -
    note ch = that
    obtain st where st: "st \<in> set sts"
        "step_change Deployments deployment_idle (\<lambda>d. deployment_wake (deployment_prior d))
           (versions DeploymentStore (srv_history S w') (target_key i)) st (before, Some y)"
      using list_all2_set2 [OF sts(2) ch] by blast
    have "st = Refer (om_Name (ir_meta i)) \<or> st = Sleep"
      using list_emb_set [OF sts(1) st(1)] by (auto simp: steps)
    from idle_step_change [OF st(2) this] show ?thesis by auto
  qed
  ultimately show ?thesis by blast
qed

theorem interleaved_idle_records_witness:
  "\<exists>x y. (Some x, Some y) \<in> set (own_changes sh_server (\<lambda>c. cl_Deployments c demo_target)
       (busy_world (demo_instance ''Deployment'' True))
       (snd (Reconcile shared_demo demo_req (busy_world (demo_instance ''Deployment'' True))))) \<and>
     d_Replicas x = Some 5 \<and> d_Replicas y = Some 0 \<and> d_rest y = d_rest x \<and> deployment_previous y = Inr 5"
proof -
  let ?i = "demo_instance ''Deployment'' True"
  obtain w1 where get: "kc_get (rc_IdlingResources shared_demo) demo_req (busy_world ?i) = (Inr ?i, w1)"
    by (rule busy_world_get)
  obtain r w' where run: "Reconcile shared_demo demo_req (busy_world ?i) = (r, w')" by fastforce
  obtain x y where change: "(Some x, Some y) \<in> set (own_changes sh_server (\<lambda>c. cl_Deployments c demo_target)
       (busy_world ?i) (snd (Reconcile shared_demo demo_req (busy_world ?i))))"
    and replicas: "d_Replicas x = Some 5" "d_Replicas y = Some 0"
    by (rule busy_change)
  have "\<exists>x'. Some x = Some x' \<and> d_rest y = d_rest x' \<and> (d_Replicas y = d_Replicas x' \<or>
      (\<exists>n. d_Replicas x' = Some n \<and> d_Replicas y = Some 0 \<and> deployment_previous y = Inr n))"
    by (rule conjunct2 [OF interleaved_idle_records [OF sh_reconciler_shared sh_versioned busy_world_ok get _ _ _ run],
        rule_format]) (use change in \<open>simp_all add: demo_simps run\<close>)
  with change replicas show ?thesis by auto
qed

section \<open>A stale read\<close>

text \<open>
  C20: The one way a record is lost: \<open>NeedIdle\<close> looks at the Deployment read first, \<open>Idle\<close> writes the one
  read again, and does not look whether that one is idle already. When the first read is stale, an idle
  run on a Deployment that is idled succeeds and overwrites the recorded number with 0, and a later
  wakeup wakes it up to 0.
\<close>

theorem stale_read_loses_record:
  assumes R: "reconciler_contract view R" and kc: "kind_contract view Deployments DeploymentStore kc"
    and idle: "\<not> IsBeingDeleted i" "spec_Idle (ir_Spec i)"
    and read: "d_Replicas d = Some n" "0 < sint n" "reference_of Deployments d \<noteq> None"
    and now: "cl_Deployments (view w) (meta_key (d_meta d)) = Some cur" "d_Replicas cur = Some 0"
      "\<not> meta_deleting (d_meta cur)"
    and run: "ReconcileWithIdler R i (NewDeploymentIdler kc) (w, d) = (Ret (res, None), (w', d'))"
  shows "\<exists>e. cl_Deployments (view w') (meta_key (d_meta d)) = Some e \<and> d_Replicas e = Some 0 \<and>
     d_rest e = d_rest cur \<and> deployment_previous e = Inr 0"
proof -
  obtain w1 where idled: "DeploymentIdler_Idle kc (w, d) = (Ret None, (w1, d'))" and w1: "view w' = view w1"
    using run idle read
    by (auto simp: ReconcileWithIdler_def reconcileIdle_def NewDeploymentIdler_def ObjectIdler_SetReference_def
        HasAnnotation_iff DeploymentIdler_NeedWakeup_def DeploymentIdler_NeedIdle_def on_object_def Let_def
        go_eq_Ret go_outer_eq_Ret simp del: go_outer_apply dest!: r_event_eq_Ret [OF R])
  then have "kc_retry kc (refetch_update kc Deployments deployment_idle) (w, d) = (Ret None, (w1, d'))"
    by (simp add: DeploymentIdler_Idle_def)
  with kc dep.keeps_identity_sleep show ?thesis
  proof (cases rule: dk.retry_outcome)
    case (wrote cur' y v g)
    then have cur': "cur' = cur" using now(1) by (simp add: DeploymentStore_def object_key_def)
    have y: "deployment_idle cur = Ret y" using wrote(3) cur' by simp
    have "persisted Deployments d' = Some d'"
      using idle_records [OF y] now(3) by (simp add: wrote(4) persisted_def stamp_def meta_deleting_def)
    then show ?thesis
      using idle_records [OF y] now(2) wrote(4,5) w1 by (simp add: deployment_previous_stamp DeploymentStore_def object_key_def)
  qed simp
qed

text \<open>The Deployment after it was idled, and as it was read before.\<close>

definition idled_deployment :: deployment where
  "idled_deployment = \<lparr> d_meta = (demo_meta ''web'')
       \<lparr> om_ResourceVersion := ''6'',
         om_Annotations := Some [MetadataIdlingResourceReference \<mapsto> ''web-idler'',
           MetadataPreviousReplicas \<mapsto> ''3'', MetadataExpectedState \<mapsto> ''0''] \<rparr>,
     d_Replicas = Some 0, d_rest = ''web pods'' \<rparr>"

definition stale_deployment :: deployment where
  "stale_deployment = demo_deployment\<lparr> d_meta := (demo_meta ''web'')
       \<lparr> om_ResourceVersion := ''5'', om_Annotations := Some [MetadataIdlingResourceReference \<mapsto> ''web-idler''] \<rparr> \<rparr>"

definition idled_world :: sim_world where
  "idled_world = (demo_world (demo_instance ''Deployment'' True))
     \<lparr> sw_cluster := (sw_cluster (demo_world (demo_instance ''Deployment'' True)))
         \<lparr> cl_Deployments := [demo_target \<mapsto> idled_deployment] \<rparr> \<rparr>"

lemma idled_world_view: "cl_Deployments (sim_view idled_world) demo_target = Some idled_deployment"
  by (auto simp: sim_view_def visible_cluster_def visible_def idled_world_def idled_deployment_def demo_defs
      genuine_def object_key_def meta_key_def resource_version_def meta_deleting_def ops_defs)

lemma stale_parts:
  "d_Replicas stale_deployment = Some 3" "reference_of Deployments stale_deployment = Some ''web-idler''"
  "meta_key (d_meta stale_deployment) = demo_target" "object_key Deployments stale_deployment = demo_target"
  "d_Replicas idled_deployment = Some 0" "\<not> meta_deleting (d_meta idled_deployment)"
  by (simp_all add: stale_deployment_def idled_deployment_def demo_defs annotation_def meta_key_def
      object_key_def meta_deleting_def MetadataIdlingResourceReference_def)

theorem stale_read_loses_record_witness:
  "\<exists>w' d' e. ReconcileWithIdler demo_reconciler (demo_instance ''Deployment'' True)
         (NewDeploymentIdler (rc_Deployments demo_reconciler)) (idled_world, stale_deployment)
       = (Ret (no_requeue, None), (w', d')) \<and>
     deployment_previous idled_deployment = Inr 3 \<and>
     cl_Deployments (sim_view w') demo_target = Some e \<and> deployment_previous e = Inr 0"
proof -
  let ?i = "demo_instance ''Deployment'' True" and ?kc = "rc_Deployments demo_reconciler"
  note kc = demo_clients(1,2) [of "''kidledev/kidlectl:main''"]
  have stored: "ks_get DeploymentStore (sim_view idled_world) (object_key Deployments stale_deployment) = Some idled_deployment"
    by (simp add: stale_parts DeploymentStore_def idled_world_view)
  obtain y where y: "deployment_idle idled_deployment = Ret y"
    using stale_parts(5) by (auto simp: deployment_idle_eq)
  obtain w1 d1 where retry: "kc_retry ?kc (refetch_update ?kc Deployments deployment_idle) (idled_world, stale_deployment)
      = (Ret None, (w1, d1))"
    using dk.refetch_update_available [OF kc, where f = deployment_idle, OF _ stored y] dep.keeps_identity_sleep
    unfolding keeps_identity_def by blast
  then have "\<exists>w'. ReconcileWithIdler demo_reconciler ?i (NewDeploymentIdler ?kc) (idled_world, stale_deployment)
      = (Ret (no_requeue, None), (w', d1))"
    using stale_parts(1,2)
    by (simp add: ReconcileWithIdler_def reconcileIdle_def NewDeploymentIdler_def ObjectIdler_SetReference_def
        HasAnnotation_iff DeploymentIdler_NeedWakeup_def DeploymentIdler_NeedIdle_def DeploymentIdler_Idle_def
        on_object_def Let_def demo_simps go_bind_def go_check_def r_event_def)
  then obtain w' where run: "ReconcileWithIdler demo_reconciler ?i (NewDeploymentIdler ?kc)
      (idled_world, stale_deployment) = (Ret (no_requeue, None), (w', d1))" by blast
  have "Itoa (sint (3 :: int32)) = ''3''" by code_simp
  then have three: "Atoi ''3'' = Inr 3" using Atoi_Itoa_sint [of 3] by simp
  have "deployment_previous idled_deployment = Inr 3"
    by (simp add: deployment_previous_cases idled_deployment_def demo_meta_def annotation_def
        MetadataIdlingResourceReference_def MetadataPreviousReplicas_def MetadataExpectedState_def three int32_of_int_def)
  moreover have "0 < sint (3 :: int32)" "reference_of Deployments stale_deployment \<noteq> None"
    "cl_Deployments (sim_view idled_world) (meta_key (d_meta stale_deployment)) = Some idled_deployment"
    using stale_parts(2) by (simp_all add: stale_parts(3) idled_world_view)
  from stale_read_loses_record [OF sim_reconciler_contract kc(1) demo_objects(5) demo_objects(7) [of _ True, simplified]
      stale_parts(1) this stale_parts(5,6) run]
  have "\<exists>e. cl_Deployments (sim_view w') demo_target = Some e \<and> deployment_previous e = Inr 0"
    by (auto simp: stale_parts(3))
  ultimately show ?thesis using run by blast
qed

end
