(* ===== verification/Permissions.thy ===== *)
theory Permissions
  imports Requeue Kidlectl_Properties Operator
begin

text \<open>
  What kidle may do: the permissions the operator is given, the \<open>kubebuilder:rbac\<close> markers above
  \<open>Reconcile\<close> in \<open>src/pkg/controllers/idlingresource_controller.go\<close>, and those it gives to the pods of
  its cron jobs, the rule of \<open>createRBAC\<close>. The world keeps a log of the requests the API server
  receives; a client adds to it what a call asks for. Proved: a run asks for nothing the operator may
  not do, but for one kind of request, and kidlectl, run by a cron job, for nothing its role forbids.
\<close>

section \<open>Requests and rules\<close>

text \<open>A request for a resource; \<open>ac_Name\<close> is empty where no one object is asked for.\<close>

record access =
  ac_Namespace :: string
  ac_Verb :: string
  ac_Group :: string
  ac_Resource :: string
  ac_Name :: string

text \<open>
  A rule as the API server reads it, without wildcards, which kidle does not use: the verb, the group
  and the resource are in its lists, and so is the name if it lists any.
\<close>

definition allows :: "policy_rule \<Rightarrow> access \<Rightarrow> bool" where
  "allows rule a \<longleftrightarrow>
     ac_Verb a \<in> set (pr_Verbs rule) \<and> ac_Group a \<in> set (pr_APIGroups rule) \<and>
     ac_Resource a \<in> set (pr_Resources rule) \<and>
     (pr_ResourceNames rule = [] \<or> ac_Name a \<in> set (pr_ResourceNames rule))"

definition permitted :: "policy_rule list \<Rightarrow> access \<Rightarrow> bool" where
  "permitted rules a \<longleftrightarrow> (\<exists>rule \<in> set rules. allows rule a)"

text \<open>The markers, in their order. They make a cluster role, which holds in every namespace.\<close>

definition marker :: "string \<Rightarrow> string \<Rightarrow> string list \<Rightarrow> policy_rule" where
  "marker grp resource verbs =
     \<lparr> pr_Verbs = verbs, pr_APIGroups = [grp], pr_Resources = [resource], pr_ResourceNames = [] \<rparr>"

definition operator_rules :: "policy_rule list" where
  "operator_rules =
     [marker ''kidle.kidle.dev'' ''idlingresources''
        [''get'', ''list'', ''watch'', ''create'', ''update'', ''patch'', ''delete''],
      marker ''kidle.kidle.dev'' ''idlingresources/status'' [''get'', ''update'', ''patch''],
      marker ''apps'' ''deployments'' [''get'', ''list'', ''watch'', ''update''],
      marker ''apps'' ''statefulsets'' [''get'', ''list'', ''watch'', ''update''],
      marker ''batch'' ''cronjobs'' [''get'', ''list'', ''watch'', ''create'', ''update'', ''delete''],
      marker ''rbac.authorization.k8s.io'' ''roles''
        [''get'', ''list'', ''watch'', ''create'', ''update'', ''delete''],
      marker ''rbac.authorization.k8s.io'' ''rolebindings''
        [''get'', ''list'', ''watch'', ''create'', ''update'', ''delete''],
      marker '''' ''serviceaccounts'' [''get'', ''list'', ''watch'', ''create'', ''update'', ''delete''],
      marker '''' ''events'' [''create'']]"

lemma permitted_marker:
  "permitted rules a \<longleftrightarrow> (\<exists>rule \<in> set rules. allows rule a)"
  "allows (marker grp resource verbs) a \<longleftrightarrow>
     ac_Verb a \<in> set verbs \<and> ac_Group a = grp \<and> ac_Resource a = resource"
  by (simp_all add: permitted_def allows_def marker_def)

section \<open>A log of the requests\<close>

text \<open>The requests made between two worlds are among \<open>A\<close>.\<close>

definition asks :: "('w \<Rightarrow> access list) \<Rightarrow> access set \<Rightarrow> 'w \<Rightarrow> 'w \<Rightarrow> bool" where
  "asks log A w w' \<longleftrightarrow> (\<exists>as. log w' = log w @ as \<and> set as \<subseteq> A)"

lemma asks_refl: "reflp (asks log A)"
  by (simp add: reflp_def asks_def)

lemma asks_trans: "transp (asks log A)"
proof (rule transpI)
  fix u v w assume "asks log A u v" "asks log A v w"
  then obtain as bs where "log v = log u @ as" "log w = log v @ bs" "set as \<subseteq> A" "set bs \<subseteq> A"
    by (auto simp: asks_def)
  then show "asks log A u w" unfolding asks_def by (intro exI [of _ "as @ bs"]) simp
qed

lemma asks_mono: "asks log A w w' \<Longrightarrow> A \<subseteq> B \<Longrightarrow> asks log B w w'"
  by (auto simp: asks_def)

text \<open>
  A client that logs: its reads ask for the object with one of the verbs \<open>reads\<close>; a client with a cache,
  as the operator has, also lists and watches the kind.
\<close>

definition request :: "string \<Rightarrow> string \<Rightarrow> string \<Rightarrow> namespaced_name \<Rightarrow> access" where
  "request grp resource verb key =
     \<lparr> ac_Namespace = nn_Namespace key, ac_Verb = verb, ac_Group = grp, ac_Resource = resource,
       ac_Name = (if verb \<in> {''create'', ''list'', ''watch''} then '''' else nn_Name key) \<rparr>"

definition logged_client ::
  "('w \<Rightarrow> access list) \<Rightarrow> string list \<Rightarrow> string \<Rightarrow> string \<Rightarrow> 'o object_ops \<Rightarrow> ('w, 'o) kind_client \<Rightarrow> bool"
  where
  "logged_client log reads grp resource ops kc \<longleftrightarrow>
     (\<forall>key w. asks log {request grp resource verb k |verb k. verb \<in> set reads \<and> (verb = ''get'' \<longrightarrow> k = key)}
        w (snd (kc_get kc key w))) \<and>
     (\<forall>x w. asks log {request grp resource ''update'' (object_key ops x)} w (snd (kc_update kc x w))) \<and>
     (\<forall>x w. asks log {request grp resource ''create'' (object_key ops x)} w (snd (kc_create kc x w))) \<and>
     (\<forall>x p w. asks log {request grp resource ''delete'' (object_key ops x)} w (snd (kc_delete kc x p w)))"

abbreviation cached_reads :: "string list" where
  "cached_reads \<equiv> [''get'', ''list'', ''watch'']"

text \<open>
  The recorder of client-go creates an event, and patches it when the same one occurs again.
\<close>

definition event_patch :: "access \<Rightarrow> bool" where
  "event_patch a \<longleftrightarrow> ac_Verb a = ''patch'' \<and> ac_Group a = '''' \<and> ac_Resource a = ''events''"

definition logged_reconciler :: "('w \<Rightarrow> access list) \<Rightarrow> 'w reconciler \<Rightarrow> bool" where
  "logged_reconciler log R \<longleftrightarrow>
     logged_client log cached_reads ''apps'' ''deployments'' Deployments (rc_Deployments R) \<and>
     logged_client log cached_reads ''apps'' ''statefulsets'' StatefulSets (rc_StatefulSets R) \<and>
     logged_client log cached_reads ''batch'' ''cronjobs'' CronJobs (rc_CronJobs R) \<and>
     logged_client log cached_reads (gv_Group GroupVersion) ''idlingresources'' IdlingResources (rc_IdlingResources R) \<and>
     logged_client log cached_reads '''' ''serviceaccounts'' ServiceAccounts (rc_ServiceAccounts R) \<and>
     logged_client log cached_reads ''rbac.authorization.k8s.io'' ''roles'' Roles (rc_Roles R) \<and>
     logged_client log cached_reads ''rbac.authorization.k8s.io'' ''rolebindings'' RoleBindings (rc_RoleBindings R) \<and>
     (\<forall>ev w. asks log {request '''' ''events'' verb k |verb k. verb \<in> {''create'', ''patch''}} w (rc_Event R ev w))"

lemma event_patch_refused: "event_patch a \<Longrightarrow> \<not> permitted operator_rules a"
  by (simp add: event_patch_def permitted_marker operator_rules_def)

section \<open>The workloads are only read and updated\<close>

text \<open>A client without create and delete.\<close>

definition read_update :: "('w, 'o) kind_client \<Rightarrow> ('w, 'o) kind_client" where
  "read_update kc = kc\<lparr> kc_create := (\<lambda>x w. (Inl (OtherError ''''), w)), kc_delete := (\<lambda>x policy w. (None, w)) \<rparr>"

definition spare :: "'w reconciler \<Rightarrow> 'w reconciler" where
  "spare R = R\<lparr> rc_Deployments := read_update (rc_Deployments R), rc_StatefulSets := read_update (rc_StatefulSets R) \<rparr>"

lemma read_update_calls [simp]:
  "kc_get (read_update kc) = kc_get kc" "kc_update (read_update kc) = kc_update kc" "kc_retry (read_update kc) = kc_retry kc"
  by (simp_all add: read_update_def)

lemma refetch_update_read_update [simp]: "refetch_update (read_update kc) ops f = refetch_update kc ops f"
  by (rule ext) (simp add: refetch_update_def mem_get_def mem_update_def split: prod.splits)

lemma idlers_read_update:
  "NewDeploymentIdler (read_update kc) = NewDeploymentIdler kc"
  "NewStatefulSetIdler (read_update kc') = NewStatefulSetIdler kc'"
  unfolding NewDeploymentIdler_def NewStatefulSetIdler_def ObjectIdler_SetReference_def
    ObjectIdler_RemoveAnnotations_def DeploymentIdler_Idle_def DeploymentIdler_Wakeup_def
    StatefulSetIdler_Idle_def StatefulSetIdler_Wakeup_def NewObjectIdler_simps read_update_calls refetch_update_read_update
  by (rule refl)+

lemma spare_fields:
  "rc_CronJobs (spare R) = rc_CronJobs R" "rc_IdlingResources (spare R) = rc_IdlingResources R"
  "rc_ServiceAccounts (spare R) = rc_ServiceAccounts R" "rc_Roles (spare R) = rc_Roles R"
  "rc_RoleBindings (spare R) = rc_RoleBindings R" "rc_Event (spare R) = rc_Event R"
  "rc_SetControllerReference (spare R) = rc_SetControllerReference R" "rc_AddFinalizer (spare R) = rc_AddFinalizer R"
  "rc_RemoveFinalizer (spare R) = rc_RemoveFinalizer R" "rc_RoleGroup (spare R) = rc_RoleGroup R"
  "rc_KidlectlImage (spare R) = rc_KidlectlImage R"
  by (simp_all add: spare_def)

lemma spare_programs:
  "addFinalizer (spare R) = addFinalizer R" "removeFinalizer (spare R) = removeFinalizer R"
  "r_event (spare R) = r_event R"
  "setCronjobValues (spare R) = setCronjobValues R" "cronJobNeedChanges (spare R) = cronJobNeedChanges R"
  "createRBAC_serviceAccount (spare R) = createRBAC_serviceAccount R" "createRBAC_role (spare R) = createRBAC_role R"
  "createRBAC_roleBinding (spare R) = createRBAC_roleBinding R"
  unfolding addFinalizer_def [abs_def] removeFinalizer_def [abs_def] r_event_def [abs_def] setCronjobValues_def [abs_def]
    cronJobNeedChanges_def [abs_def] createRBAC_serviceAccount_def [abs_def] createRBAC_role_def [abs_def]
    createRBAC_roleBinding_def [abs_def] spare_fields
  by (rule refl)+

lemma spare_strategies: "ReconcileCronStrategies (spare R) = ReconcileCronStrategies R"
  unfolding ReconcileCronStrategies_def [abs_def] createRBAC_def [abs_def] reconcileCron_def [abs_def]
    createOrUpdateCronJob_def [abs_def] spare_programs spare_fields
  by (rule refl)

lemma spare_workload:
  "ReconcileWithIdler (spare R) i (idl :: ('w, 'o) idler) = ReconcileWithIdler R i idl"
  "reconcileResourceNotFound (spare R) = reconcileResourceNotFound R"
  "reconcileFinalizer (spare R) = reconcileFinalizer R"
  unfolding ReconcileWithIdler_def reconcileDeletion_def reconcileWakeup_def reconcileIdle_def
    reconcileResourceNotFound_def [abs_def] reconcileFinalizer_def [abs_def] wakeup_event_def spare_programs
  by (rule refl)+

lemma spare_Reconcile: "Reconcile (spare R) = Reconcile R"
proof -
  have "rc_Deployments (spare R) = read_update (rc_Deployments R)"
    "rc_StatefulSets (spare R) = read_update (rc_StatefulSets R)"
    by (simp_all add: spare_def)
  note fields = this spare_fields
  have "reconcileWorkload (spare R) = reconcileWorkload R"
    unfolding reconcileWorkload_def [abs_def] reconcileKind_def r_get_def fields spare_workload read_update_calls idlers_read_update
    by (rule refl)
  then show ?thesis unfolding Reconcile_def [abs_def] by (simp only: spare_strategies spare_fields spare_workload)
qed

section \<open>The requests of a run\<close>

definition operator_access :: "access set" where
  "operator_access = {a. permitted operator_rules a \<or> event_patch a}"

lemma logged_clientD:
  assumes "logged_client log reads grp resource ops kc"
  shows "asks log {request grp resource verb k |verb k. verb \<in> set reads \<and> (verb = ''get'' \<longrightarrow> k = key)} w (snd (kc_get kc key w))"
    and "asks log {request grp resource ''update'' (object_key ops x)} w (snd (kc_update kc x w))"
    and "asks log {request grp resource ''create'' (object_key ops x)} w (snd (kc_create kc x w))"
    and "asks log {request grp resource ''delete'' (object_key ops x)} w (snd (kc_delete kc x policy w))"
  using assms unfolding logged_client_def by blast+

lemma logged_calls:
  assumes logged: "logged_client log reads grp resource ops kc"
    and ok: "\<forall>verb \<in> V. \<forall>key. request grp resource verb key \<in> A"
  shows "set reads \<subseteq> V \<Longrightarrow> asks log A w (snd (kc_get kc key w))"
    and "''update'' \<in> V \<Longrightarrow> asks log A w (snd (kc_update kc x w))"
    and "''create'' \<in> V \<Longrightarrow> asks log A w (snd (kc_create kc x w))"
    and "''delete'' \<in> V \<Longrightarrow> asks log A w (snd (kc_delete kc x policy w))"
proof -
  have one: "{request grp resource verb k} \<subseteq> A" if "verb \<in> V" for verb k using ok that by blast
  show "asks log A w (snd (kc_get kc key w))" if "set reads \<subseteq> V"
    by (rule asks_mono [OF logged_clientD(1) [OF logged]]) (use ok that in blast)
  show "asks log A w (snd (kc_update kc x w))" if "''update'' \<in> V"
    by (rule asks_mono [OF logged_clientD(2) [OF logged] one [OF that]])
  show "asks log A w (snd (kc_create kc x w))" if "''create'' \<in> V"
    by (rule asks_mono [OF logged_clientD(3) [OF logged] one [OF that]])
  show "asks log A w (snd (kc_delete kc x policy w))" if "''delete'' \<in> V"
    by (rule asks_mono [OF logged_clientD(4) [OF logged] one [OF that]])
qed

lemma kind_contract_answers:
  assumes "kind_contract view ops ks kc"
  shows "kc_get kc key w = (Inr x, w') \<Longrightarrow> object_key ops x = key"
    and "kc_update kc x w = (Inr y, w') \<Longrightarrow> \<exists>v g. y = stamp ops v g x" and "retry_contract kc"
proof -
  have kc: "get_contract view ops ks kc" "update_contract view ops ks kc" "retry_contract kc"
    using assms by (simp_all add: kind_contract_def)
  show "kc_get kc key w = (Inr x, w') \<Longrightarrow> object_key ops x = key"
    using kc(1) unfolding get_contract_def by blast
  show "kc_update kc x w = (Inr y, w') \<Longrightarrow> \<exists>v g. y = stamp ops v g x"
    using kc(2) unfolding update_contract_def by blast
  show "retry_contract kc" by (rule kc(3))
qed

text \<open>Verbs of a marker cover the requests of a kind.\<close>

lemma marker_covers:
  assumes "marker grp resource verbs \<in> set operator_rules" "V \<subseteq> set verbs"
  shows "\<forall>verb \<in> V. \<forall>key. request grp resource verb key \<in> operator_access"
proof (intro ballI allI)
  fix verb key assume "verb \<in> V"
  then have "allows (marker grp resource verbs) (request grp resource verb key)"
    using assms(2) by (auto simp: permitted_marker request_def)
  then show "request grp resource verb key \<in> operator_access"
    using assms(1) unfolding operator_access_def permitted_def by blast
qed

lemma client_keeps:
  assumes kc: "kind_contract view ops ks kc" and logged: "logged_client log cached_reads grp resource ops kc"
    and ok: "\<forall>verb \<in> {''get'', ''list'', ''watch'', ''update'', ''create'', ''delete''}. \<forall>key.
        request grp resource verb key \<in> operator_access"
  shows "calls_keep (asks log operator_access) ops UNIV kc"
proof (rule calls_keepI)
  note calls = logged_calls [OF logged ok]
  show "asks log operator_access w w'" if "kc_get kc key w = (r, w')" for key w r w'
    using calls(1) [of w key] that by simp
  show "asks log operator_access w w'" if "kc_update kc x w = (r, w')" for x w r w'
    using calls(2) [of w x] that by simp
  show "asks log operator_access w w'" if "kc_create kc x w = (r, w')" for x w r w'
    using calls(3) [of w x] that by simp
  show "asks log operator_access w w'" if "kc_delete kc x policy w = (r, w')" for x policy w r w'
    using calls(4) [of w x policy] that by simp
qed (rule kind_contract_answers [OF kc], assumption?)+

lemma read_update_keeps:
  assumes kc: "kind_contract view ops ks kc" and logged: "logged_client log cached_reads grp resource ops kc"
    and ok: "\<forall>verb \<in> {''get'', ''list'', ''watch'', ''update''}. \<forall>key. request grp resource verb key \<in> operator_access"
  shows "calls_keep (asks log operator_access) ops UNIV (read_update kc)"
proof (rule calls_keepI, unfold read_update_calls)
  note calls = logged_calls [OF logged ok]
  show "asks log operator_access w w'" if "kc_get kc key w = (r, w')" for key w r w'
    using calls(1) [of w key] that by simp
  show "asks log operator_access w w'" if "kc_update kc x w = (r, w')" for x w r w'
    using calls(2) [of w x] that by simp
  show "asks log operator_access w w'" if "kc_create (read_update kc) x w = (r, w')" for x w r w'
    using that reflpD [OF asks_refl] by (simp add: read_update_def)
  show "asks log operator_access w w'" if "kc_delete (read_update kc) x policy w = (r, w')" for x policy w r w'
    using that reflpD [OF asks_refl] by (simp add: read_update_def)
  show "retry_contract (read_update kc)"
    using kind_contract_answers(3) [OF kc] by (simp add: retry_contract_def)
qed (rule kind_contract_answers [OF kc], assumption)+

lemma markers:
  "marker ''apps'' ''deployments'' [''get'', ''list'', ''watch'', ''update''] \<in> set operator_rules"
  "marker ''apps'' ''statefulsets'' [''get'', ''list'', ''watch'', ''update''] \<in> set operator_rules"
  "marker ''batch'' ''cronjobs'' [''get'', ''list'', ''watch'', ''create'', ''update'', ''delete''] \<in> set operator_rules"
  "marker ''kidle.kidle.dev'' ''idlingresources''
     [''get'', ''list'', ''watch'', ''create'', ''update'', ''patch'', ''delete''] \<in> set operator_rules"
  "marker '''' ''serviceaccounts'' [''get'', ''list'', ''watch'', ''create'', ''update'', ''delete''] \<in> set operator_rules"
  "marker ''rbac.authorization.k8s.io'' ''roles''
     [''get'', ''list'', ''watch'', ''create'', ''update'', ''delete''] \<in> set operator_rules"
  "marker ''rbac.authorization.k8s.io'' ''rolebindings''
     [''get'', ''list'', ''watch'', ''create'', ''update'', ''delete''] \<in> set operator_rules"
  by (simp_all add: operator_rules_def)

lemma event_requests:
  "\<forall>verb \<in> {''create'', ''patch''}. \<forall>key. request '''' ''events'' verb key \<in> operator_access"
  by (simp add: operator_access_def permitted_marker operator_rules_def request_def event_patch_def)

lemma spare_keeps:
  assumes R: "reconciler_contract view R" and logged: "logged_reconciler log R"
  shows "reconciler_keeps (asks log operator_access) UNIV (spare R)"
proof -
  have "asks log operator_access w (rc_Event R ev w)" for ev w
  proof (rule asks_mono)
    show "asks log {request '''' ''events'' verb k |verb k. verb \<in> {''create'', ''patch''}} w (rc_Event R ev w)"
      using logged by (simp add: logged_reconciler_def)
  qed (use event_requests in blast)
  moreover have util: "controllerutil_contract (spare R)"
    using R by (simp add: reconciler_contract_def controllerutil_contract_def spare_fields)
  have kc: "kind_contract view Deployments DeploymentStore (rc_Deployments R)"
    "kind_contract view StatefulSets StatefulSetStore (rc_StatefulSets R)"
    "kind_contract view CronJobs CronJobStore (rc_CronJobs R)"
    "kind_contract view IdlingResources IdlingResourceStore (rc_IdlingResources R)"
    "kind_contract view ServiceAccounts ServiceAccountStore (rc_ServiceAccounts R)"
    "kind_contract view Roles RoleStore (rc_Roles R)"
    "kind_contract view RoleBindings RoleBindingStore (rc_RoleBindings R)"
    using R by (simp_all add: reconciler_contract_def)
  have lc: "logged_client log cached_reads ''apps'' ''deployments'' Deployments (rc_Deployments R)"
    "logged_client log cached_reads ''apps'' ''statefulsets'' StatefulSets (rc_StatefulSets R)"
    "logged_client log cached_reads ''batch'' ''cronjobs'' CronJobs (rc_CronJobs R)"
    "logged_client log cached_reads ''kidle.kidle.dev'' ''idlingresources'' IdlingResources (rc_IdlingResources R)"
    "logged_client log cached_reads '''' ''serviceaccounts'' ServiceAccounts (rc_ServiceAccounts R)"
    "logged_client log cached_reads ''rbac.authorization.k8s.io'' ''roles'' Roles (rc_Roles R)"
    "logged_client log cached_reads ''rbac.authorization.k8s.io'' ''rolebindings'' RoleBindings (rc_RoleBindings R)"
    using logged by (simp_all add: logged_reconciler_def GroupVersion_def)
  have "calls_keep (asks log operator_access) Deployments UNIV (read_update (rc_Deployments R))"
    "calls_keep (asks log operator_access) StatefulSets UNIV (read_update (rc_StatefulSets R))"
    by (simp_all add: read_update_keeps [OF kc(1) lc(1) marker_covers [OF markers(1)]]
        read_update_keeps [OF kc(2) lc(2) marker_covers [OF markers(2)]])
  then have "calls_keep (asks log operator_access) Deployments UNIV (rc_Deployments (spare R))"
    "calls_keep (asks log operator_access) StatefulSets UNIV (rc_StatefulSets (spare R))"
    by (simp_all add: spare_def)
  moreover have "calls_keep (asks log operator_access) CronJobs UNIV (rc_CronJobs R)"
    "calls_keep (asks log operator_access) IdlingResources UNIV (rc_IdlingResources R)"
    "calls_keep (asks log operator_access) ServiceAccounts UNIV (rc_ServiceAccounts R)"
    "calls_keep (asks log operator_access) Roles UNIV (rc_Roles R)"
    "calls_keep (asks log operator_access) RoleBindings UNIV (rc_RoleBindings R)"
    by (simp_all add: client_keeps [OF kc(3) lc(3) marker_covers [OF markers(3)]]
        client_keeps [OF kc(4) lc(4) marker_covers [OF markers(4)]] client_keeps [OF kc(5) lc(5) marker_covers [OF markers(5)]]
        client_keeps [OF kc(6) lc(6) marker_covers [OF markers(6)]] client_keeps [OF kc(7) lc(7) marker_covers [OF markers(7)]])
  ultimately show ?thesis
    using util by (simp add: reconciler_keeps_def spare_fields asks_refl asks_trans)
qed

text \<open>
  C200: Whatever a run ends with, each request it makes is one the markers permit the operator, or is the
  recorder's patch of an event that occurred before: the markers let it create events only, so such a
  patch is refused and a repeated warning is not counted.
\<close>

theorem Reconcile_permitted:
  assumes R: "reconciler_contract view R" and logged: "logged_reconciler log R"
    and run: "Reconcile R req w = (r, w')"
  shows "\<exists>as. log w' = log w @ as \<and>
     list_all (\<lambda>a. permitted operator_rules a = (\<not> event_patch a)) as"
proof -
  obtain g w1 where get: "kc_get (rc_IdlingResources (spare R)) req w = (g, w1)" by fastforce
  have "asks log operator_access w w'"
    by (rule Reconcile_frame_calls [OF spare_keeps [OF R logged] get]) (simp_all add: run spare_Reconcile)
  then show ?thesis using event_patch_refused by (auto simp: asks_def operator_access_def list_all_iff)
qed

text \<open>The server of \<open>Sim\<close> with a log of the requests.\<close>

definition audit ::
  "string \<Rightarrow> string \<Rightarrow> 'o object_ops \<Rightarrow> ('w, 'o) kind_client \<Rightarrow> ('w \<times> access list, 'o) kind_client"
  where
  "audit grp resource ops kc =
     \<lparr> kc_get = (\<lambda>key s. (fst (kc_get kc key (fst s)),
         snd (kc_get kc key (fst s)), snd s @ [request grp resource ''get'' key])),
       kc_update = (\<lambda>x s. (fst (kc_update kc x (fst s)),
         snd (kc_update kc x (fst s)), snd s @ [request grp resource ''update'' (object_key ops x)])),
       kc_create = (\<lambda>x s. (fst (kc_create kc x (fst s)),
         snd (kc_create kc x (fst s)), snd s @ [request grp resource ''create'' (object_key ops x)])),
       kc_delete = (\<lambda>x policy s. (fst (kc_delete kc x policy (fst s)),
         snd (kc_delete kc x policy (fst s)), snd s @ [request grp resource ''delete'' (object_key ops x)])),
       kc_retry = retry_steps 4 \<rparr>"

lemma audit_run:
  "kc_get (audit grp resource ops kc) key s = (r, t) \<Longrightarrow> kc_get kc key (fst s) = (r, fst t)"
  "kc_update (audit grp resource ops kc) x s = (r', t) \<Longrightarrow> kc_update kc x (fst s) = (r', fst t)"
  "kc_create (audit grp resource ops kc) x s = (r', t) \<Longrightarrow> kc_create kc x (fst s) = (r', fst t)"
  "kc_delete (audit grp resource ops kc) x policy s = (q, t) \<Longrightarrow> kc_delete kc x policy (fst s) = (q, fst t)"
  by (auto simp: audit_def)

lemma audit_contract:
  assumes "kind_contract view ops ks kc"
  shows "kind_contract (\<lambda>s. view (fst s)) ops ks (audit grp resource ops kc)"
proof -
  have kc: "get_contract view ops ks kc" "update_contract view ops ks kc" "create_contract view ops ks kc"
    "delete_contract view ops ks kc"
    using assms by (simp_all add: kind_contract_def)
  have "get_contract (\<lambda>s. view (fst s)) ops ks (audit grp resource ops kc)"
    unfolding get_contract_def by (intro allI impI, drule audit_run(1), use kc(1) in \<open>unfold get_contract_def, blast\<close>)
  moreover have "update_contract (\<lambda>s. view (fst s)) ops ks (audit grp resource ops kc)"
    unfolding update_contract_def by (intro allI impI, drule audit_run(2), use kc(2) in \<open>unfold update_contract_def, blast\<close>)
  moreover have "create_contract (\<lambda>s. view (fst s)) ops ks (audit grp resource ops kc)"
    unfolding create_contract_def by (intro allI impI, drule audit_run(3), use kc(3) in \<open>unfold create_contract_def, blast\<close>)
  moreover have "delete_contract (\<lambda>s. view (fst s)) ops ks (audit grp resource ops kc)"
    unfolding delete_contract_def by (intro allI impI, drule audit_run(4), use kc(4) in \<open>unfold delete_contract_def, blast\<close>)
  moreover have "retry_contract (audit grp resource ops kc)"
    by (simp add: retry_contract_def audit_def retry_steps_run)
  ultimately show ?thesis by (simp add: kind_contract_def)
qed

lemma audit_logged: "''get'' \<in> set reads \<Longrightarrow> logged_client snd reads grp resource ops (audit grp resource ops kc)"
  by (auto simp: logged_client_def audit_def asks_def)

definition audited_reconciler :: "(sim_world \<times> access list) reconciler" where
  "audited_reconciler =
     \<lparr> rc_Deployments = audit ''apps'' ''deployments'' Deployments (rc_Deployments demo_reconciler),
       rc_StatefulSets = audit ''apps'' ''statefulsets'' StatefulSets (rc_StatefulSets demo_reconciler),
       rc_CronJobs = audit ''batch'' ''cronjobs'' CronJobs (rc_CronJobs demo_reconciler),
       rc_IdlingResources = audit ''kidle.kidle.dev'' ''idlingresources'' IdlingResources (rc_IdlingResources demo_reconciler),
       rc_ServiceAccounts = audit '''' ''serviceaccounts'' ServiceAccounts (rc_ServiceAccounts demo_reconciler),
       rc_Roles = audit ''rbac.authorization.k8s.io'' ''roles'' Roles (rc_Roles demo_reconciler),
       rc_RoleBindings = audit ''rbac.authorization.k8s.io'' ''rolebindings'' RoleBindings (rc_RoleBindings demo_reconciler),
       rc_Event = (\<lambda>ev s. (rc_Event demo_reconciler ev (fst s), snd s @ [request '''' ''events'' ''create'' (ev_Object ev)])),
       rc_SetControllerReference = rc_SetControllerReference demo_reconciler,
       rc_AddFinalizer = rc_AddFinalizer demo_reconciler, rc_RemoveFinalizer = rc_RemoveFinalizer demo_reconciler,
       rc_RoleGroup = rc_RoleGroup demo_reconciler, rc_KidlectlImage = rc_KidlectlImage demo_reconciler \<rparr>"

lemma audited_contracts:
  "reconciler_contract (\<lambda>s. sim_view (fst s)) audited_reconciler" "logged_reconciler snd audited_reconciler"
proof -
  have "controllerutil_contract audited_reconciler"
    using sim_reconciler_contract [of "''kidledev/kidlectl:main''"]
    by (simp add: reconciler_contract_def controllerutil_contract_def audited_reconciler_def)
  then show "reconciler_contract (\<lambda>s. sim_view (fst s)) audited_reconciler"
    using sim_reconciler_contract [of "''kidledev/kidlectl:main''"]
    by (simp add: reconciler_contract_def) (simp add: audited_reconciler_def audit_contract)
  have "asks snd {request '''' ''events'' verb k |verb k. verb \<in> {''create'', ''patch''}} w (rc_Event audited_reconciler ev w)"
    for ev w
    by (auto simp: asks_def audited_reconciler_def)
  then show "logged_reconciler snd audited_reconciler"
    by (simp add: logged_reconciler_def) (simp add: audited_reconciler_def audit_logged GroupVersion_def)
qed

theorem Reconcile_permitted_witness:
  "snd (snd (Reconcile audited_reconciler demo_req (demo_world (demo_instance ''Deployment'' True), []))) \<noteq> [] \<and>
   list_all (\<lambda>a. permitted operator_rules a = (\<not> event_patch a))
     (snd (snd (Reconcile audited_reconciler demo_req (demo_world (demo_instance ''Deployment'' True), []))))"
proof -
  let ?w = "(demo_world (demo_instance ''Deployment'' True), [])"
  obtain r w' where run: "Reconcile audited_reconciler demo_req ?w = (r, w')" by (rule that [OF prod.collapse [symmetric]])
  have "snd (snd (Reconcile audited_reconciler demo_req ?w)) \<noteq> []" by code_simp
  then show ?thesis using Reconcile_permitted [OF audited_contracts run] by (auto simp: run)
qed

section \<open>The requests of a cron job\<close>

text \<open>The libraries of kidlectl make no request for a resource; its client is a plain one, without a cache.\<close>

definition logged_library :: "('w \<Rightarrow> access list) \<Rightarrow> ('w, 'rest) client_library \<Rightarrow> bool" where
  "logged_library log lib \<longleftrightarrow>
     (\<forall>ns w. log (snd (lib_Namespace lib ns w)) = log w) \<and> (\<forall>ns w. log (snd (lib_ClientConfig lib ns w)) = log w) \<and>
     (\<forall>w. log (snd (lib_AddToScheme lib w)) = log w) \<and> (\<forall>c w. log (snd (lib_NewDiscovery lib c w)) = log w) \<and>
     (\<forall>c w. log (snd (lib_New lib c w)) = log w \<and>
        (\<forall>kc. fst (lib_New lib c w) = Inr kc \<longrightarrow>
           logged_client log [''get''] (gv_Group GroupVersion) ''idlingresources'' IdlingResources kc))"

lemma NewKidleClient_logged:
  assumes "logged_library log lib" "NewKidleClient lib ns w = (r, w')"
  shows "log w' = log w \<and>
    (\<forall>k. r = Ret (Inr k) \<longrightarrow>
       logged_client log [''get''] (gv_Group GroupVersion) ''idlingresources'' IdlingResources (kd_IdlingResources k))"
  using assms
  by (auto simp: NewKidleClient_def go_try_def go_check_def go_bind_def logged_library_def split: sum.splits option.splits)

text \<open>What kidlectl asks for when it sets the flag of an instance.\<close>

definition flag_requests :: "namespaced_name \<Rightarrow> access set" where
  "flag_requests key = {request (gv_Group GroupVersion) ''idlingresources'' verb key |verb. verb \<in> {''get'', ''update''}}"

lemma ApplyDesiredIdleState_asks:
  assumes kc: "kind_contract view IdlingResources IdlingResourceStore (kd_IdlingResources k)"
    and logged: "logged_client log [''get''] (gv_Group GroupVersion) ''idlingresources'' IdlingResources (kd_IdlingResources k)"
    and run: "ApplyDesiredIdleState k idle key w = (r, w')"
  shows "asks log (flag_requests key) w w'"
proof -
  let ?kc = "kd_IdlingResources k" and ?idle = "\<lambda>ir. ir\<lparr> ir_Spec := (ir_Spec ir)\<lparr> spec_Idle := idle \<rparr> \<rparr>"
  obtain g w1 where get: "kc_get ?kc key w = (g, w1)" by fastforce
  have read: "asks log (flag_requests key) w w1"
    using asks_mono [OF logged_clientD(1) [OF logged, of key w], of "flag_requests key"] get
    by (auto simp: flag_requests_def)
  show ?thesis
  proof (cases "\<exists>ir. g = Inr ir \<and> spec_Idle (ir_Spec ir) \<noteq> idle")
    case True
    then obtain ir where ir: "g = Inr ir" "spec_Idle (ir_Spec ir) \<noteq> idle" by blast
    have key: "object_key IdlingResources (?idle ir) = key"
      using kind_contract_answers(1) [OF kc get[unfolded ir(1)]] by (simp add: object_key_def IdlingResources_def)
    have "w' = snd (kc_update ?kc (?idle ir) w1)"
      using run get ir by (auto simp: ApplyDesiredIdleState_def go_try_def go_bind_def go_call_def Let_def
          split: prod.splits sum.splits)
    moreover have "{request (gv_Group GroupVersion) ''idlingresources'' ''update'' (object_key IdlingResources (?idle ir))}
        \<subseteq> flag_requests key"
      unfolding key by (auto simp: flag_requests_def)
    ultimately have "asks log (flag_requests key) w1 w'"
      using asks_mono [OF logged_clientD(2) [OF logged, of "?idle ir" w1]] by simp
    with read asks_trans [of log] show ?thesis by (blast dest: transpD)
  next
    case False
    then have "w' = w1"
      using run get by (cases g) (auto simp: ApplyDesiredIdleState_def go_try_def go_bind_def go_call_def go_return_def)
    with read show ?thesis by simp
  qed
qed

lemma kidlectl_asks:
  assumes lib: "client_library_contract view lib" and logged: "logged_library log lib"
    and cli: "cli_New cli = NewKidleClient lib"
    and active: "active = (if idle then ''idle'' else ''wakeup'')"
    and args: "args = (if idle then cli_IdleCmd opts else cli_WakeUpCmd opts)"
    and ns: "fst (lib_Namespace lib (opt_Namespace args) w) = Inr ns"
    and run: "kidlectl_main cli vars (Inr (active, opts)) w = (r, w')"
  shows "asks log (flag_requests \<lparr> nn_Namespace = ns, nn_Name = opt_Name args \<rparr>) w w'"
proof -
  let ?key = "\<lparr> nn_Namespace = ns, nn_Name = opt_Name args \<rparr>"
  have cmd: "go_try (NewKidleClient lib (opt_Namespace args)) (\<lambda>err. go_return 2) (\<lambda>kidle.
      go_try (ApplyDesiredIdleState kidle idle (command_key kidle (opt_Name args)))
        (\<lambda>err. go_return 3) (\<lambda>done. go_return 0)) w = (r, w')"
    using run cli active args by (cases idle) (simp_all add: kidlectl_main_def IdleCommand_def WakeupCommand_def)
  obtain q w1 where new: "NewKidleClient lib (opt_Namespace args) w = (q, w1)" by (metis surj_pair)
  note n = NewKidleClient_run [OF lib new] and l = NewKidleClient_logged [OF logged new]
  have quiet: "asks log (flag_requests ?key) w w1" using l by (simp add: asks_def)
  show ?thesis
  proof (cases "\<exists>k. q = Ret (Inr k)")
    case True
    then obtain k where k: "q = Ret (Inr k)" by blast
    have key: "command_key k (opt_Name args) = ?key" using n k ns by (simp add: command_key_def)
    obtain q2 w2 where app: "ApplyDesiredIdleState k idle ?key w1 = (q2, w2)" by (metis surj_pair)
    have "asks log (flag_requests ?key) w1 w2"
      by (rule ApplyDesiredIdleState_asks [OF _ _ app, of view]) (use n l k in simp_all)
    moreover have "w' = w2"
      using cmd new k app key by (auto simp: go_try_def go_bind_def go_return_def split: outcome.splits sum.splits)
    ultimately show ?thesis using quiet asks_trans [of log] by (blast dest: transpD)
  next
    case False
    then have "w' = w1"
      using cmd new by (auto simp: go_try_def go_bind_def go_return_def split: outcome.splits sum.splits)
    with quiet show ?thesis by simp
  qed
qed

lemma flag_requests_permitted:
  assumes "a \<in> flag_requests (meta_key (ir_meta i))"
  shows "ac_Namespace a = om_Namespace (ir_meta i)" "allows (policyRule i) a"
  using assms by (auto simp: flag_requests_def request_def allows_def policyRule_def GroupVersion_def meta_key_def)

lemma policyRule_within_operator: "allows (policyRule i) a \<Longrightarrow> permitted operator_rules a"
  by (auto simp: allows_def policyRule_def permitted_def operator_rules_def marker_def)

text \<open>
  C201: The role a run leaves in place suffices for the cron jobs and gives nothing the operator does not
  have: \<open>kidlectl idle\<close> and \<open>kidlectl wakeup\<close>, run by a pod in the namespace of the instance with the
  name of the instance, ask only for what a rule of that role permits, and that rule is covered by the
  markers, as the API server demands of whoever creates a role.
\<close>

theorem cron_job_permitted:
  assumes R: "reconciler_contract view R" "fresh_reads view R"
    and inst: "cl_IdlingResources (view w) req = Some i"
    and run: "Reconcile R req w = (Ret (res, None), w')"
    and lib: "client_library_contract pview lib" "logged_library log lib" and cli: "cli_New cli = NewKidleClient lib"
    and active: "active = (if idle then ''idle'' else ''wakeup'')"
    and args: "args = (if idle then cli_IdleCmd opts else cli_WakeUpCmd opts)"
    and pod: "fst (lib_Namespace lib (opt_Namespace args) v) = Inr (om_Namespace (ir_meta i))"
      "opt_Name args = om_Name (ir_meta i)"
    and command: "kidlectl_main cli vars (Inr (active, opts)) v = (q, v')"
  shows "\<exists>role rule as. cl_Roles (view w') (owned_key i ''role'') = Some role \<and> rule \<in> set (r_Rules role) \<and>
     log v' = log v @ as \<and> list_all (\<lambda>a. ac_Namespace a = om_Namespace (ir_meta i) \<and> allows rule a) as \<and>
     {a. allows rule a} \<subseteq> {a. permitted operator_rules a}"
proof -
  obtain role where role: "cl_Roles (view w') (owned_key i ''role'') = Some role" "role_for i role"
    using Reconcile_access [OF R inst run] by (auto simp: access_ready_def)
  then have rule: "policyRule i \<in> set (r_Rules role)" by (auto simp: role_for_def split: list.splits)
  have "asks log (flag_requests (meta_key (ir_meta i))) v v'"
    using kidlectl_asks [OF lib cli active args pod(1) command] pod(2) by (simp add: meta_key_def)
  then obtain as where as: "log v' = log v @ as" "set as \<subseteq> flag_requests (meta_key (ir_meta i))"
    by (auto simp: asks_def)
  have "list_all (\<lambda>a. ac_Namespace a = om_Namespace (ir_meta i) \<and> allows (policyRule i) a) as"
    using as(2) flag_requests_permitted by (auto simp: list_all_iff)
  with role(1) rule as(1) policyRule_within_operator [of i] show ?thesis by blast
qed

text \<open>The libraries of the command line tool with a log.\<close>

definition audited_library :: "(sim_world \<times> access list, unit) client_library" where
  "audited_library =
     \<lparr> lib_Namespace = (\<lambda>ns s. (fst (lib_Namespace demo_library ns (fst s)), s)),
       lib_ClientConfig = (\<lambda>ns s. (Inr (), s)),
       lib_AddToScheme = (\<lambda>s. (None, s)),
       lib_New = (\<lambda>c s. (Inr (audit ''kidle.kidle.dev'' ''idlingresources'' IdlingResources
          (kd_IdlingResources demo_client)), s)),
       lib_NewDiscovery = (\<lambda>c s. (Inr (\<lambda>s. (Inr demo_lists, s)), s)),
       lib_ParseGroupVersion = kd_ParseGroupVersion demo_client,
       lib_singular = kd_singular demo_client, lib_range = kd_range demo_client \<rparr>"

definition audited_cli :: "(sim_world \<times> access list) cli_library" where
  "audited_cli = \<lparr> cli_New = NewKidleClient audited_library, cli_Println = (\<lambda>s w. w), cli_WriteHelp = (\<lambda>w. w),
     cli_Marshal = (\<lambda>v. Inr (vi_Version v)) \<rparr>"

lemma audited_library_contracts:
  "client_library_contract (\<lambda>s. sim_view (fst s)) audited_library" "logged_library snd audited_library"
proof -
  have "coherent (\<lambda>s. sim_view (fst s)) IdlingResourceStore
      (audit ''kidle.kidle.dev'' ''idlingresources'' IdlingResources (kd_IdlingResources demo_client))"
    using demo_client_contracts(2) unfolding coherent_def
    by (intro allI impI) (drule audit_run(1), blast)
  then show "client_library_contract (\<lambda>s. sim_view (fst s)) audited_library"
    using audit_contract [OF demo_client_contracts(1)] by (simp add: client_library_contract_def audited_library_def)
  show "logged_library snd audited_library"
    by (simp add: logged_library_def audited_library_def GroupVersion_def audit_logged)
qed

theorem cron_job_permitted_witness:
  "\<exists>as. snd (snd (kidlectl_main audited_cli version_defaults (Inr (''idle'', demo_options))
         (demo_world (demo_instance ''Deployment'' False), []))) = as \<and> as \<noteq> [] \<and>
     list_all (\<lambda>a. permitted operator_rules a) as"
proof -
  let ?i = "demo_instance ''Deployment'' True" and ?v = "(demo_world (demo_instance ''Deployment'' False), [])"
  obtain w' where run: "Reconcile demo_reconciler demo_req (demo_world ?i) = (Ret (no_requeue, None), w')"
    using demo_run [of "''Deployment''" True ?i] by auto
  obtain q v' where command: "kidlectl_main audited_cli version_defaults (Inr (''idle'', demo_options)) ?v = (q, v')"
    by (rule that [OF prod.collapse [symmetric]])
  have pod: "fst (lib_Namespace audited_library (opt_Namespace (cli_IdleCmd demo_options)) ?v) = Inr (om_Namespace (ir_meta ?i))"
    "opt_Name (cli_IdleCmd demo_options) = om_Name (ir_meta ?i)"
    by (simp_all add: audited_library_def demo_library_def demo_options_def demo_defs)
  have cli: "cli_New audited_cli = NewKidleClient audited_library" by (simp add: audited_cli_def)
  have "snd (snd (kidlectl_main audited_cli version_defaults (Inr (''idle'', demo_options)) ?v)) \<noteq> []"
    by (auto simp: kidlectl_main_def audited_cli_def IdleCommand_def NewKidleClient_def audited_library_def demo_library_def
        demo_options_def ApplyDesiredIdleState_def audit_def go_try_def go_check_def go_bind_def go_call_def go_return_def
        Let_def split: outcome.splits sum.splits prod.splits)
  moreover have "cl_IdlingResources (sim_view (demo_world ?i)) demo_req = Some ?i" by simp
  from cron_job_permitted [OF sim_reconciler_contract sim_fresh_reads this run audited_library_contracts cli, of
      "''idle''" True, simplified, OF refl pod command]
  have "list_all (\<lambda>a. permitted operator_rules a) (snd v')" by (auto simp: list_all_iff)
  ultimately show ?thesis by (simp add: command)
qed

end
