(* ===== verification/Spec2Isabelle.thy ===== *)
theory Spec2Isabelle
  imports Watch_Properties Cron_Properties Kidlectl_Properties Copy_Properties
    Operator_Properties System Requeue Events Interleaved_Properties
    Permissions
begin

text \<open>
  kidle, a Kubernetes operator that idles workloads and wakes them up: the verification of its Go
  code, \<open>src/pkg\<close> and \<open>src/cmd\<close>.

  \<^bold>\<open>The program.\<close> An \<open>IdlingResource\<close> refers to a Deployment, a StatefulSet or a CronJob and says
  whether it shall be idle. The operator (\<open>src/cmd/operator/main.go\<close>) registers watches and runs
  \<open>Reconcile\<close> for every request they lead to: it puts its finalizer on the instance, makes or removes
  the cron jobs of the instance's strategies, and drives the workload through an idler, one per kind.
  Annotations on the workload hold the name of the instance, the number of replicas before the idling
  and the state kidle expects. The cron jobs run kidlectl (\<open>src/cmd/kidlectl\<close>), which sets the flag of
  the instance, as a user can do by hand. So the parts meet in the objects the API server stores.

  \<^bold>\<open>How it is modelled.\<close> A Go function with effects is a function of type \<open>('s, 'a) go\<close> (theory
  \<open>Prelude\<close>): it takes a state to an outcome, a return or a panic, and a state; errors are values.
  Structs are records, pointers options, \<open>int32\<close> a 32-bit word, strings lists of characters. The state
  of the reconcile loop is an abstract world \<open>'w\<close>, with the object in memory beside it while an idler
  works on it. What is not under \<open>src/\<close> is a parameter: a client of the API server per kind
  (\<open>kind_client\<close>), the retry of client-go, the event recorder, the kubeconfig loader, discovery, the
  manager. What they document is a predicate over a \<open>view\<close> of the world as the objects the server
  stores: \<open>kind_contract\<close>, \<open>reconciler_contract\<close> (any call may fail, reads may be stale, an update
  needs the stored resource version), and, where a theorem needs more, \<open>fresh_reads\<close> (no stale
  read) and \<open>reconciler_available\<close> (no failure without a reason in the stored state). Theory \<open>Sim\<close>
  is a server in memory that meets all of them; the witnesses run on it.

  \<^bold>\<open>The theories.\<close>
  \<^item> \<open>Prelude\<close>, \<open>GoStd\<close>: the combinators and shared lemmas; what the code uses of Go's library
    (\<open>strconv\<close>, \<open>strings\<close>, base64) and \<open>utils/pointer\<close>.
  \<^item> \<open>Names\<close> (\<open>utils/k8s/name.go\<close>), \<open>KubeTypes\<close> (\<open>utils/k8s/annotations.go\<close>, \<open>types.go\<close>,
    \<open>utils/array\<close>, the Kubernetes objects), \<open>IdlingResource\<close> (\<open>api/v1beta1/idlingresource_types.go\<close>).
  \<^item> \<open>KubeApi\<close>, \<open>Kinds\<close>: the contracts of the API server and the locales \<open>object_kind\<close> and
    \<open>stored_kind\<close>, interpreted for the seven kinds; get, modify, update in a retry is atomic.
  \<^item> \<open>Idler\<close>, \<open>Deployment_Idler\<close>, \<open>StatefulSet_Idler\<close>, \<open>CronJob_Idler\<close> (\<open>controllers/idler\<close>): the
    interface, its locale \<open>idler_contract\<close>, and the three idlers, which interpret it.
  \<^item> \<open>Reconciler\<close>, \<open>Controller\<close> (\<open>idlingresource_controller.go\<close>) and \<open>Cron_Strategies\<close>
    (\<open>cron_strategies.go\<close>): the reconcile loop, every early return included; \<open>Frame\<close>: which objects
    a program may write, whatever a world is; \<open>Cron_Facts\<close>,
    \<open>Reconcile_Facts\<close>, \<open>Reconcile_System\<close>: a run stage by stage, in the locales \<open>workload_reconciler\<close>
    and \<open>reconciled_kind\<close>, interpreted for the three kinds; \<open>Workloads\<close>: the three put together.
  \<^item> \<open>Watch\<close>: \<open>SetupWithManager\<close>, the event filter and the mapper. \<open>Requeue\<close>: how often a request is
    run. \<open>Events\<close>: what a user sees of a run that fails. \<open>Levels\<close>, \<open>System\<close>: runs that fail, and runs,
    commands and others interleaved, as a step relation.
  \<^item> \<open>Interleaving\<close>: others act between the calls of one run, and answers are lost. The world shows its
    history, \<open>shared_contract\<close> says what a call adds to it, \<open>performs\<close> which changes a program makes to
    an object, each on what was stored at that moment. \<open>Shared_Sim\<close>: a server that meets it.
  \<^item> \<open>Permissions\<close>: the rules of the \<open>kubebuilder:rbac\<close> markers and of \<open>createRBAC\<close>, and a log of requests.
  \<^item> \<open>Kidlectl\<close> (\<open>cmd/kidlectl\<close>, \<open>pkg/version\<close>): the client, the commands, their messages and exit
    codes. \<open>Operator\<close> (\<open>cmd/operator/main.go\<close>, \<open>groupversion_info.go\<close>): the command line as the
    \<open>flag\<close> package reads it, the set-up, the exit codes.
  \<^item> \<open>Memory\<close>, \<open>Deep_Copy\<close>, \<open>Copy_Facts\<close> (\<open>zz_generated.deepcopy.go\<close>): the generated copies over
    typed stores of variables, and a reference definition they are equal to.
  \<^item> \<open>Demo\<close>: the runs on the small cluster; the theories named \<open>..._Properties\<close>: the properties of one
    component. Those that span components are in this theory.

  \<^bold>\<open>What is proved.\<close> A run refines an abstract specification of the workload, \<open>reconcile_spec\<close>, for each
  of the three kinds; it touches nothing else, whatever it ends with; it succeeds when the server
  answers; a second one changes no workload; idle and wakeup restore the level; the finalizer is there
  exactly as long as it must be; the cron jobs, the role and the service account are as the strategies ask.
  In any interleaving of runs a workload is never lost and runs at 0, at 1 or at its first number. When
  others act inside a run and answers are lost, the run still writes only its own objects, takes each
  step of its branch at most once and in order, keeps what others wrote, and an idle one records the
  number it replaces. Each request of a run is one the operator is permitted, the patch of a repeated
  event apart, and a cron job may do what it has to. A request ends when its workload is made. All errors but four are the subject of
  an event. kidle's own writes do not wake it up, others' do. The idlers write once or not at all under
  stale reads and conflicts. Names are labels of at most 63 characters.
  kidlectl's exit codes say what was stored. Deep copies read as the original and share nothing with it.
  Some properties state where the code falls short of its purpose: names that collide, a recorded number
  that is cut to 32 bits or overwritten after a stale read, cron job events that are filtered out, a cron job that stays, a role that makes
  a run panic, instances of unknown kinds that are never let go, created instances that idle nothing.

  \<^bold>\<open>Bounds.\<close> The loops of the code recurse on lists (\<open>fun\<close>), but for the parser of the command line,
  whose arguments get fewer (\<open>parse_flags\<close>), and \<open>worked_off\<close>, which may run for ever and says so with
  \<open>None\<close>. The number of retries after conflicts is left open (\<open>retry_run\<close> may give up after any of them),
  so no theorem depends on it; \<open>Sim\<close> takes client-go's default, five calls.

  \<^bold>\<open>Not modelled.\<close> Log lines; the text of errors beyond the prefix \<open>fmt.Errorf\<close> gives; the JSON names of
  fields and the markers controller-gen reads but for those of the permissions; the manifests, Makefiles and scripts, which are not
  Go; the tests. The refinement and liveness theorems are about runs in which nobody
  else acts, stale reads standing for what others did before; only the theorems of
  \<open>Interleaved_Properties\<close> let others act between the calls of a run. Two runs for the same instance
  do not overlap: the controller runtime works on a request once at a time.
\<close>

section \<open>One run of the reconcile loop\<close>

text \<open>
  C1: A run of \<open>Reconcile\<close> for an instance that refers to a Deployment, when it returns without an
  error, leaves in the cluster the Deployment the abstract specification gives: at 0 replicas
  with the old number recorded when the instance is idle, back at the recorded number when it is
  not and the Deployment is at 0, restored and without annotations when the instance is being
  deleted; the first instance that refers to it stays its reference; all but replicas and metadata
  is unchanged.
\<close>

theorem Reconcile_Deployment_refines:
  assumes "reconciler_contract view R" "fresh_reads view R"
    and "cl_IdlingResources (view w) req = Some i" "ref_Kind (ref_of i) = ''Deployment''"
    and "cl_Deployments (view w) (target_key i) = Some d" "deployment_valid d"
    and "Reconcile R req w = (Ret (res, None), w')"
  shows "\<exists>d'. cl_Deployments (view w') (target_key i) = Some d' \<and> d_rest d' = d_rest d \<and>
     (0 \<le> deployment_level d' \<longrightarrow> deployment_valid d') \<and>
     deployment_view d' = reconcile_spec (IsBeingDeleted i) (spec_Idle (ir_Spec i)) (nn_Name req)
        (deployment_view d)"
  using rec_d.Reconcile_refines [of view R w req i d res w'] assms
  unfolding deployment_view_def by (simp add: DeploymentStore_def apart_from_owned_def)

theorem Reconcile_Deployment_refines_witness:
  "\<exists>w' d'. Reconcile demo_reconciler demo_req (demo_world (demo_instance ''Deployment'' True))
       = (Ret (no_requeue, None), w') \<and>
     cl_Deployments (sim_view w') demo_target = Some d' \<and> d_rest d' = ''web pods'' \<and>
     deployment_view d' = \<lparr> wl_level = 0, wl_prior = 3, wl_reference = Some ''web-idler'' \<rparr>"
proof -
  let ?i = "demo_instance ''Deployment'' True"
  obtain w' where run: "Reconcile demo_reconciler demo_req (demo_world ?i) = (Ret (no_requeue, None), w')"
    using demo_run [of "''Deployment''" True ?i] by auto
  show ?thesis
    using run Reconcile_Deployment_refines [OF sim_reconciler_contract sim_fresh_reads _ _ _ _ run, of ?i demo_deployment]
    by (auto simp: demo_simps reconcile_spec_def)
qed

text \<open>
  C2: The same for an instance that refers to a StatefulSet.
\<close>

theorem Reconcile_StatefulSet_refines:
  assumes "reconciler_contract view R" "fresh_reads view R"
    and "cl_IdlingResources (view w) req = Some i" "ref_Kind (ref_of i) = ''StatefulSet''"
    and "cl_StatefulSets (view w) (target_key i) = Some s" "statefulset_valid s"
    and "Reconcile R req w = (Ret (res, None), w')"
  shows "\<exists>s'. cl_StatefulSets (view w') (target_key i) = Some s' \<and> s_rest s' = s_rest s \<and>
     (0 \<le> statefulset_level s' \<longrightarrow> statefulset_valid s') \<and>
     statefulset_view s' = reconcile_spec (IsBeingDeleted i) (spec_Idle (ir_Spec i)) (nn_Name req)
        (statefulset_view s)"
  using rec_s.Reconcile_refines [of view R w req i s res w'] assms
  unfolding statefulset_view_def by (simp add: StatefulSetStore_def apart_from_owned_def)

theorem Reconcile_StatefulSet_refines_witness:
  "\<exists>w' s'. Reconcile demo_reconciler demo_req (demo_world (demo_instance ''StatefulSet'' True))
       = (Ret (no_requeue, None), w') \<and>
     cl_StatefulSets (sim_view w') demo_target = Some s' \<and> s_rest s' = ''web pods'' \<and>
     statefulset_view s' = \<lparr> wl_level = 0, wl_prior = 2, wl_reference = Some ''web-idler'' \<rparr>"
proof -
  let ?i = "demo_instance ''StatefulSet'' True"
  obtain w' where run: "Reconcile demo_reconciler demo_req (demo_world ?i) = (Ret (no_requeue, None), w')"
    using demo_run [of "''StatefulSet''" True ?i] by auto
  show ?thesis
    using run Reconcile_StatefulSet_refines [OF sim_reconciler_contract sim_fresh_reads _ _ _ _ run, of ?i demo_statefulset]
    by (auto simp: demo_simps reconcile_spec_def)
qed

text \<open>
  C3: The same for an instance that refers to a CronJob, which must not be one of the two cron
  jobs kidle makes for the instance itself: it is suspended when the instance is idle, resumed
  when it is not or is being deleted, and all but its suspend flag and metadata is unchanged.
\<close>

theorem Reconcile_CronJob_refines:
  assumes "reconciler_contract view R" "fresh_reads view R"
    and "cl_IdlingResources (view w) req = Some i" "ref_Kind (ref_of i) = ''CronJob''" "target_apart i"
    and "cl_CronJobs (view w) (target_key i) = Some cj" "cronjob_valid cj"
    and "Reconcile R req w = (Ret (res, None), w')"
  shows "\<exists>cj'. cl_CronJobs (view w') (target_key i) = Some cj' \<and> cronjob_rest cj' = cronjob_rest cj \<and>
     cronjob_valid cj' \<and>
     cronjob_view cj' = reconcile_spec (IsBeingDeleted i) (spec_Idle (ir_Spec i)) (nn_Name req)
        (cronjob_view cj)"
proof -
  have "apart_from_owned i (\<lambda>c. ks_get CronJobStore c (target_key i))"
    using assms(4,5) by (simp add: CronJobStore_def apart_from_owned_cronjob target_apart_def)
  moreover have "0 \<le> cronjob_level x" for x by (simp add: cronjob_level_def)
  ultimately show ?thesis
    using rec_c.Reconcile_refines [of view R w req i cj res w'] assms
    unfolding cronjob_view_def by (simp add: CronJobStore_def)
qed

theorem Reconcile_CronJob_refines_witness:
  "\<exists>w' cj'. Reconcile demo_reconciler demo_req (demo_world (demo_instance ''CronJob'' True))
       = (Ret (no_requeue, None), w') \<and>
     cl_CronJobs (sim_view w') demo_target = Some cj' \<and>
     cronjob_view cj' = \<lparr> wl_level = 0, wl_prior = 1, wl_reference = Some ''web-idler'' \<rparr>"
proof -
  let ?i = "demo_instance ''CronJob'' True"
  obtain w' where run: "Reconcile demo_reconciler demo_req (demo_world ?i) = (Ret (no_requeue, None), w')"
    using demo_run [of "''CronJob''" True ?i] by auto
  show ?thesis
    using run Reconcile_CronJob_refines [OF sim_reconciler_contract sim_fresh_reads _ _ _ _ _ run, of ?i demo_cronjob]
    by (auto simp: demo_simps reconcile_spec_def)
qed

text \<open>
  Whatever a run of \<open>Reconcile\<close> ends with, a result, an error or a panic, it has touched
  nothing but the instance of the request, the workload that instance refers to, and the service
  account, role, role binding and two cron jobs kidle makes for it.
\<close>

theorem Reconcile_frame:
  assumes R: "reconciler_contract view R" and fresh: "fresh_reads view R"
    and inst: "cl_IdlingResources (view w) req = Some i"
    and run: "Reconcile R req w = (r, w')"
  shows "(ref_Kind (ref_of i) = ''Deployment'' \<and> k = target_key i
            \<or> cl_Deployments (view w') k = cl_Deployments (view w) k) \<and>
     (ref_Kind (ref_of i) = ''StatefulSet'' \<and> k = target_key i
            \<or> cl_StatefulSets (view w') k = cl_StatefulSets (view w) k) \<and>
     (ref_Kind (ref_of i) = ''CronJob'' \<and> k = target_key i
            \<or> k = owned_key i CommandIdle \<or> k = owned_key i CommandWakeup
            \<or> cl_CronJobs (view w') k = cl_CronJobs (view w) k) \<and>
     (k = meta_key (ir_meta i) \<or> cl_IdlingResources (view w') k = cl_IdlingResources (view w) k) \<and>
     (k = owned_key i ''sa'' \<or> cl_ServiceAccounts (view w') k = cl_ServiceAccounts (view w) k) \<and>
     (k = owned_key i ''role'' \<or> cl_Roles (view w') k = cl_Roles (view w) k) \<and>
     (k = owned_key i ''rb'' \<or> cl_RoleBindings (view w') k = cl_RoleBindings (view w) k)"
proof -
  have keep: "p (view w') = p (view w)" if "apart_from_run i p" for p :: "cluster \<Rightarrow> 'q"
    using Reconcile_keeps [OF R fresh _ run, of p] inst that by simp
  note apart = apart_from_run_def apart_from_workload_def apart_from_owned_def
  have "\<not> (ref_Kind (ref_of i) = ''Deployment'' \<and> k = target_key i) \<Longrightarrow>
      cl_Deployments (view w') k = cl_Deployments (view w) k"
    by (rule keep [of "\<lambda>c. cl_Deployments c k"]) (auto simp: apart)
  moreover have "\<not> (ref_Kind (ref_of i) = ''StatefulSet'' \<and> k = target_key i) \<Longrightarrow>
      cl_StatefulSets (view w') k = cl_StatefulSets (view w) k"
    by (rule keep [of "\<lambda>c. cl_StatefulSets c k"]) (auto simp: apart)
  moreover have "\<not> (ref_Kind (ref_of i) = ''CronJob'' \<and> k = target_key i) \<Longrightarrow>
      k \<noteq> owned_key i CommandIdle \<Longrightarrow> k \<noteq> owned_key i CommandWakeup \<Longrightarrow>
      cl_CronJobs (view w') k = cl_CronJobs (view w) k"
    by (rule keep [of "\<lambda>c. cl_CronJobs c k"]) (auto simp: apart)
  moreover have "k \<noteq> meta_key (ir_meta i) \<Longrightarrow> cl_IdlingResources (view w') k = cl_IdlingResources (view w) k"
    by (rule keep [of "\<lambda>c. cl_IdlingResources c k"]) (auto simp: apart)
  moreover have "k \<noteq> owned_key i ''sa'' \<Longrightarrow> cl_ServiceAccounts (view w') k = cl_ServiceAccounts (view w) k"
    by (rule keep [of "\<lambda>c. cl_ServiceAccounts c k"]) (auto simp: apart)
  moreover have "k \<noteq> owned_key i ''role'' \<Longrightarrow> cl_Roles (view w') k = cl_Roles (view w) k"
    by (rule keep [of "\<lambda>c. cl_Roles c k"]) (auto simp: apart)
  moreover have "k \<noteq> owned_key i ''rb'' \<Longrightarrow> cl_RoleBindings (view w') k = cl_RoleBindings (view w) k"
    by (rule keep [of "\<lambda>c. cl_RoleBindings c k"]) (auto simp: apart)
  ultimately show ?thesis by blast
qed

theorem Reconcile_frame_witness:
  "cl_StatefulSets (sim_view (snd (Reconcile demo_reconciler demo_req
     (demo_world (demo_instance ''Deployment'' True))))) demo_target = Some demo_statefulset"
  using Reconcile_frame [OF sim_reconciler_contract sim_fresh_reads, of
      "demo_world (demo_instance ''Deployment'' True)" demo_req "demo_instance ''Deployment'' True"
      _ _ _ demo_target]
  by (simp add: demo_simps prod_eq_iff)



text \<open>
  C11: Idling and waking up restores a workload of any of the three kinds: a run for an idle instance
  followed by a run for the same instance after it was set awake, in any later state in which nobody
  else changed the workload, takes it to level 0 and back to the level it had. The level is the
  number of replicas, for a CronJob 0 when it is suspended and 1 otherwise.
\<close>

theorem idle_wakeup_restores:
  assumes contract: "reconciler_contract view R" "fresh_reads view R"
    and i: "cl_IdlingResources (view w) req = Some i" "target_apart i"
      "\<not> IsBeingDeleted i" "spec_Idle (ir_Spec i)"
    and x: "workload_valid (view w) i" "workload_at (view w) i = Some a" "0 < wl_level a"
    and run1: "Reconcile R req w = (Ret (res1, None), w1)"
    and later: "target_unchanged i (view w1) (view w2)"
    and j: "cl_IdlingResources (view w2) req = Some j" "target_apart j" "ref_of j = ref_of i" "target_key j = target_key i"
      "\<not> IsBeingDeleted j" "\<not> spec_Idle (ir_Spec j)"
    and run2: "Reconcile R req w2 = (Ret (res2, None), w3)"
  shows "\<exists>b c. workload_at (view w1) i = Some b \<and> wl_level b = 0 \<and>
     workload_at (view w3) i = Some c \<and> wl_level c = wl_level a"
proof -
  define b where "b = reconcile_spec False True (nn_Name req) a"
  have lb: "wl_level b = 0" "wl_prior b = wl_level a"
    using x(3) by (simp_all add: b_def reconcile_spec_def Let_def)
  have b: "workload_at (view w1) i = Some b" "workload_valid (view w1) i"
    using run_refines [OF contract i(1,2) x(1) run1] x(2) i(3,4) lb(1) by (auto simp: b_def)
  note same = workload_unchanged [OF later j(3,4)]
  have "workload_at (view w3) j = Some (reconcile_spec False False (nn_Name req) b)"
    using run_refines [OF contract j(1,2) _ run2] same b j(5,6) by auto
  moreover have "workload_at c j = workload_at c i" for c
    using workload_unchanged(1) [of i c c j] j(3,4) by (simp add: target_unchanged_def)
  ultimately show ?thesis
    using b lb by (simp add: reconcile_spec_def Let_def)
qed

theorem idle_wakeup_restores_witness:
  "\<exists>w1 w3 c. Reconcile demo_reconciler demo_req (demo_world (demo_instance ''Deployment'' True))
       = (Ret (no_requeue, None), w1) \<and>
     Reconcile demo_reconciler demo_req (put_instance (demo_instance ''Deployment'' False) w1)
       = (Ret (no_requeue, None), w3) \<and>
     workload_at (sim_view w3) (demo_instance ''Deployment'' True) = Some c \<and> wl_level c = 3"
proof -
  let ?i = "demo_instance ''Deployment'' True" and ?j = "demo_instance ''Deployment'' False"
  obtain w1 where run1: "Reconcile demo_reconciler demo_req (demo_world ?i) = (Ret (no_requeue, None), w1)"
    using demo_run [of "''Deployment''" True ?i] by auto
  obtain w3 where run2: "Reconcile demo_reconciler demo_req (put_instance ?j w1) = (Ret (no_requeue, None), w3)"
    using demo_run_again [OF run1] by auto
  show ?thesis
    using run1 run2 idle_wakeup_restores [OF sim_reconciler_contract sim_fresh_reads _ _ _ _ _ _ _ run1 _ _ _ _ _ _ _ run2,
        of ?i "deployment_view demo_deployment" ?j]
    by (auto simp: demo_simps workload_valid_def workload_at_def target_unchanged_def)
qed

text \<open>
  C12: A second run changes no workload: after a run that succeeded for an instance that is not
  being deleted, another one leaves every Deployment and StatefulSet of the cluster, and every CronJob
  but kidle's own two, as they are, the resource version included. A workload that is wanted
  awake must have somewhere to wake up to.
\<close>

theorem Reconcile_idempotent:
  assumes contract: "reconciler_contract view R" "fresh_reads view R"
    and i: "cl_IdlingResources (view w) req = Some i" "\<not> IsBeingDeleted i" "target_apart i"
    and steady: "workload_steady (view w) i"
    and run1: "Reconcile R req w = (Ret (res1, None), w1)"
    and run2: "Reconcile R req w1 = (Ret (res2, None), w2)"
  shows "cl_Deployments (view w2) = cl_Deployments (view w1) \<and>
     cl_StatefulSets (view w2) = cl_StatefulSets (view w1) \<and>
     (\<forall>key. key \<noteq> owned_key i CommandIdle \<longrightarrow> key \<noteq> owned_key i CommandWakeup \<longrightarrow>
        cl_CronJobs (view w2) key = cl_CronJobs (view w1) key)"
proof -
  have twice: "p (view w2) = p (view w1)"
    if "apart_from_owned i p" "\<And>f c. p (cl_IdlingResources_update f c) = p c" for p :: "cluster \<Rightarrow> 'q"
    by (rule steady_twice [OF contract i that steady run1 run2])
  have "cl_Deployments (view w2) = cl_Deployments (view w1)" "cl_StatefulSets (view w2) = cl_StatefulSets (view w1)"
    by (rule twice; simp add: apart_from_owned_def)+
  moreover have "cl_CronJobs (view w2) key = cl_CronJobs (view w1) key"
    if "key \<noteq> owned_key i CommandIdle" "key \<noteq> owned_key i CommandWakeup" for key
    by (rule twice [of "\<lambda>c. cl_CronJobs c key"]) (use that in \<open>simp_all add: apart_from_owned_cronjob\<close>)
  ultimately show ?thesis by blast
qed

theorem Reconcile_idempotent_witness:
  "\<exists>w1 w2. Reconcile demo_reconciler demo_req (demo_world (demo_instance ''Deployment'' True))
       = (Ret (no_requeue, None), w1) \<and>
     Reconcile demo_reconciler demo_req w1 = (Ret (no_requeue, None), w2) \<and>
     cl_Deployments (sim_view w2) = cl_Deployments (sim_view w1)"
proof -
  let ?i = "demo_instance ''Deployment'' True"
  obtain w1 where run1: "Reconcile demo_reconciler demo_req (demo_world ?i) = (Ret (no_requeue, None), w1)"
    using demo_run [of "''Deployment''" True ?i] by auto
  obtain w2 where run2: "Reconcile demo_reconciler demo_req w1 = (Ret (no_requeue, None), w2)"
    using demo_run_next [OF run1] by auto
  show ?thesis
    using run1 run2 Reconcile_idempotent [OF sim_reconciler_contract sim_fresh_reads _ _ _ _ run1 run2, of ?i]
    by (auto simp: demo_simps workload_steady_def)
qed



section \<open>Cron strategies, targets that are missing, and kinds kidle does not know\<close>



text \<open>
  C17: When the workload an instance refers to is not there, a run that succeeds has created none: it
  asks to be run again in two seconds, or, when the instance is being deleted, lets it go without
  asking for another run.
\<close>

theorem Reconcile_missing_target:
  assumes contract: "reconciler_contract view R" "fresh_reads view R"
    and i: "cl_IdlingResources (view w) req = Some i" "target_apart i"
    and missing: "workload_missing (view w) i"
    and run: "Reconcile R req w = (Ret (res, None), w')"
  shows "workload_missing (view w') i \<and>
     (if IsBeingDeleted i
      then res = no_requeue \<and>
        (\<forall>j. cl_IdlingResources (view w') req = Some j \<longrightarrow> \<not> HasFinalizer j IdlingResourceFinalizerName)
      else res = no_requeue\<lparr> res_RequeueAfter := 2000000000 \<rparr>)"
proof -
  have "ref_Kind (ref_of i) \<in> set idleable_kinds"
    using missing by (auto simp: workload_missing_def idleable_kinds_def split: if_splits)
  from instance_run [OF contract i(1) this run] missing_run [OF contract i missing run] show ?thesis
    by (auto simp: second_def)
qed

theorem Reconcile_missing_target_witness:
  "\<exists>w'. Reconcile demo_reconciler demo_req (demo_missing_world (demo_instance ''Deployment'' True))
     = (Ret (no_requeue\<lparr> res_RequeueAfter := 2000000000 \<rparr>, None), w')"
proof -
  let ?i = "demo_instance ''Deployment'' True"
  have i: "cl_IdlingResources (sim_view (demo_missing_world ?i)) demo_req = Some ?i" by simp
  have rules: "r_Rules r \<noteq> []" if "cl_Roles (sim_view (demo_missing_world ?i)) (owned_key ?i ''role'') = Some r" for r
    using that by simp
  obtain res w' where run: "Reconcile demo_reconciler demo_req (demo_missing_world ?i) = (Ret (res, None), w')"
    using missing_available [where view = sim_view and R = demo_reconciler and req = demo_req
        and w = "demo_missing_world ?i" and i = ?i, OF sim_reconciler_contract sim_reconciler_available i
        demo_target_apart(1) demo_missing rules] .
  from Reconcile_missing_target [OF sim_reconciler_contract sim_fresh_reads i demo_target_apart(1) demo_missing run] run
  show ?thesis by (auto simp: demo_objects)
qed

text \<open>
  C18: An instance that refers to a kind other than the three is kept for ever: a run that succeeds
  changes no workload and leaves the instance with kidle's finalizer, also when it is being
  deleted, and asks for no other run. So its deletion never ends.
\<close>

theorem Reconcile_unknown_kind:
  assumes R: "reconciler_contract view R" and fresh: "fresh_reads view R"
    and i: "cl_IdlingResources (view w) req = Some i" "ref_Kind (ref_of i) \<notin> set idleable_kinds"
    and run: "Reconcile R req w = (Ret (res, None), w')"
  shows "res = no_requeue \<and>
     (\<exists>j. cl_IdlingResources (view w') req = Some j \<and> HasFinalizer j IdlingResourceFinalizerName \<and>
        ir_Spec j = ir_Spec i \<and> IsBeingDeleted j = IsBeingDeleted i) \<and>
     cl_Deployments (view w') = cl_Deployments (view w) \<and>
     cl_StatefulSets (view w') = cl_StatefulSets (view w)"
proof -
  obtain w3 j where same: "same_instance i j" and has: "HasFinalizer j IdlingResourceFinalizerName"
    and wl: "reconcileWorkload R j w3 = (Ret (res, None), w')"
    and j: "cl_IdlingResources (view w3) req = Some j"
    using Reconcile_stages [OF R fresh i(1) run] by metis
  have "res = no_requeue" "w' = w3"
    using wl i(2) same_instanceD(3) [OF same] by (simp_all add: reconcileWorkload_def idleable_kinds_def)
  moreover
  have "p (view w') = p (view w)" if "apart_from_run i p" for p :: "cluster \<Rightarrow> 'q"
    by (rule Reconcile_keeps [OF R fresh _ run]) (use i(1) that in simp)
  from this [of cl_Deployments] this [of cl_StatefulSets]
  have "cl_Deployments (view w') = cl_Deployments (view w)" "cl_StatefulSets (view w') = cl_StatefulSets (view w)"
    using i(2) by (simp_all add: apart_from_run_def apart_from_owned_def apart_from_workload_def idleable_kinds_def)
  ultimately show ?thesis using j has same by (auto simp: same_instance_def)
qed

theorem Reconcile_unknown_kind_witness:
  "\<exists>w' j. Reconcile demo_reconciler demo_req (demo_world (demo_deleted ''deployment'' True))
      = (Ret (no_requeue, None), w') \<and>
     cl_IdlingResources (sim_view w') demo_req = Some j \<and> IsBeingDeleted j \<and>
     HasFinalizer j IdlingResourceFinalizerName"
proof -
  let ?i = "demo_deleted ''deployment'' True"
  have i: "cl_IdlingResources (sim_view (demo_world ?i)) demo_req = Some ?i" by simp
  have rules: "r_Rules r \<noteq> []" if "cl_Roles (sim_view (demo_world ?i)) (owned_key ?i ''role'') = Some r" for r
    using that by simp
  obtain j w3 where reach: "Reconcile demo_reconciler demo_req (demo_world ?i) = reconcileWorkload demo_reconciler j w3"
    and same: "same_instance ?i j" and "meta_key (ir_meta ?i) = demo_req"
      "HasFinalizer j IdlingResourceFinalizerName" "cl_IdlingResources (sim_view w3) demo_req = Some j"
      "\<forall>p :: cluster \<Rightarrow> unit. apart_from_owned ?i p \<longrightarrow> (\<forall>f c. p (cl_IdlingResources_update f c) = p c) \<longrightarrow>
         p (sim_view w3) = p (sim_view (demo_world ?i))"
    using Reconcile_reaches_workload [where view = sim_view and R = demo_reconciler and req = demo_req
        and w = "demo_world ?i" and i = ?i, OF sim_reconciler_contract sim_reconciler_available i rules] .
  have "reconcileWorkload demo_reconciler j w3 = (Ret (no_requeue, None), w3)"
    by (simp add: reconcileWorkload_def same_instanceD(3) [OF same] demo_objects)
  with reach have run: "Reconcile demo_reconciler demo_req (demo_world ?i) = (Ret (no_requeue, None), w3)" by simp
  then show ?thesis
    using Reconcile_unknown_kind [OF sim_reconciler_contract sim_fresh_reads i _ run]
    by (auto simp: demo_objects idleable_kinds_def)
qed


section \<open>Deletion\<close>

text \<open>
  C19: Deleting an instance takes its Deployment to the recorded number, or to 1 when there is no
  record, whatever number it runs at, and takes kidle's three annotations off. Since a record stays
  after a wakeup, a Deployment that was scaled since, or was never idled, loses its number.
\<close>

theorem deletion_takes_record:
  assumes contract: "reconciler_contract view R" "fresh_reads view R"
    and i: "cl_IdlingResources (view w) req = Some i" "ref_Kind (ref_of i) = ''Deployment''" "IsBeingDeleted i"
    and d: "cl_Deployments (view w) (target_key i) = Some d" "deployment_valid d"
    and recorded: "(case previous_of Deployments d of None \<Rightarrow> Inr 1 | Some s \<Rightarrow> Atoi s) = Inr v"
    and run: "Reconcile R req w = (Ret (res, None), w')"
  shows "\<exists>d'. cl_Deployments (view w') (target_key i) = Some d' \<and> d_rest d' = d_rest d \<and>
     d_Replicas d' = Some (int32_of_int v) \<and> reference_of Deployments d' = None"
proof -
  have prior: "deployment_prior d = int32_of_int v"
    using recorded by (auto simp: deployment_prior_def deployment_previous_cases int32_of_int_def split: option.splits)
  obtain d' where d': "cl_Deployments (view w') (target_key i) = Some d'" "d_rest d' = d_rest d"
      "0 \<le> deployment_level d' \<longrightarrow> deployment_valid d'"
      "deployment_view d' = reconcile_spec True (spec_Idle (ir_Spec i)) (nn_Name req) (deployment_view d)"
    using rec_d.Reconcile_refines [OF contract i(1,2) _ _ d(2) run] d(1) i(3)
    by (auto simp: DeploymentStore_def apart_from_owned_def deployment_view_def)
  have "deployment_level d' = sint (int32_of_int v)" "reference_of Deployments d' = None"
    using d'(4) prior by (simp_all add: deployment_view_def workload_view_def reconcile_spec_def)
  with d' show ?thesis
    by (auto simp: deployment_level_def deployment_valid_def sint_int32_eq split: option.splits)
qed

theorem deletion_takes_record_witness:
  "\<exists>w' d'. Reconcile demo_reconciler demo_req (demo_world (demo_deleted ''Deployment'' False))
       = (Ret (no_requeue, None), w') \<and> d_Replicas demo_deployment = Some 3 \<and>
     cl_Deployments (sim_view w') demo_target = Some d' \<and> d_Replicas d' = Some 1"
proof -
  let ?i = "demo_deleted ''Deployment'' False"
  obtain w' where run: "Reconcile demo_reconciler demo_req (demo_world ?i) = (Ret (no_requeue, None), w')"
    using demo_run [of "''Deployment''" False ?i] by auto
  have i: "cl_IdlingResources (sim_view (demo_world ?i)) demo_req = Some ?i" by simp
  have "(case previous_of Deployments demo_deployment of None \<Rightarrow> Inr 1 | Some s \<Rightarrow> Atoi s) = Inr 1"
    by (simp add: demo_defs annotation_def)
  from deletion_takes_record [OF sim_reconciler_contract sim_fresh_reads i _ _ _ _ this run] run show ?thesis
    by (auto simp: demo_objects demo_workloads int32_of_int_def)
qed

section \<open>From the command line to the workload\<close>

text \<open>
  C15: \<open>kidlectl idle\<close> followed by a run of the operator idles the workload: when the command exits
  with 0, a later run that succeeds, in any state in which nobody else has changed the instance and
  its workload is there, leaves the workload, of any of the three kinds, at level 0.
\<close>

theorem kidlectl_idle_then_Reconcile:
  assumes lib: "client_library_contract view lib" and cli: "cli_New cli = NewKidleClient lib"
    and cmd: "kidlectl_main cli vars (Inr (''idle'', opts)) w = (Ret 0, w1)"
    and req: "fst (lib_Namespace lib (opt_Namespace (cli_IdleCmd opts)) w) = Inr (nn_Namespace req)"
      "opt_Name (cli_IdleCmd opts) = nn_Name req"
    and i: "cl_IdlingResources (view w) req = Some i" "target_apart i" "\<not> IsBeingDeleted i"
    and R: "reconciler_contract view R" "fresh_reads view R"
    and later: "cl_IdlingResources (view w2) req = cl_IdlingResources (view w1) req"
    and x: "workload_valid (view w2) i"
    and run: "Reconcile R req w2 = (Ret (res, None), w3)"
  shows "\<exists>a. workload_at (view w3) i = Some a \<and> wl_level a = 0"
proof -
  obtain j where j: "cl_IdlingResources (view w1) req = Some j" "ir_Spec j = (ir_Spec i)\<lparr> spec_Idle := True \<rparr>"
      "meta_key (ir_meta j) = meta_key (ir_meta i)" "IsBeingDeleted j = IsBeingDeleted i"
    using kidlectl_run [OF lib cli _ _ cmd, of True] req i(1) by auto
  have ref: "ref_of j = ref_of i" using j(2) by (simp add: ref_of_def)
  have name: "om_Namespace (ir_meta j) = om_Namespace (ir_meta i)" "om_Name (ir_meta j) = om_Name (ir_meta i)"
    using j(3) by (simp_all add: meta_key_def)
  then have instance_key: "instance_key j = instance_key i" by (simp add: instance_key_def fun_eq_iff)
  then have key: "target_key j = target_key i" by (simp add: target_key_def ref)
  have "owned_key j s = owned_key i s" for s
    by (simp add: owned_key_def instance_key name split: outcome.split)
  then have apart: "target_apart j" using i(2) by (simp add: target_apart_def ref key)
  have same: "workload_at c j = workload_at c i" "workload_valid c j = workload_valid c i" for c
    using workload_unchanged [of i c c j] ref key by (simp_all add: target_unchanged_def)
  obtain a where a: "workload_at (view w2) j = Some a"
      "workload_at (view w3) j = Some (reconcile_spec False True (nn_Name req) a)"
    by (rule run_refines [OF R _ apart _ run]) (use j later x same i(3) in auto)
  moreover have "0 \<le> wl_level a" using workload_level [of "view w2" i a] x a(1) same by simp
  ultimately show ?thesis using same by (simp add: reconcile_spec_def Let_def)
qed

theorem kidlectl_idle_then_Reconcile_witness:
  "\<exists>w1 w3 a. kidlectl_main demo_cli version_defaults (Inr (''idle'', demo_options)) (demo_world (demo_instance ''Deployment'' False))
       = (Ret 0, w1) \<and>
     Reconcile demo_reconciler demo_req w1 = (Ret (no_requeue, None), w3) \<and>
     workload_at (sim_view w3) (demo_instance ''Deployment'' False) = Some a \<and> wl_level a = 0"
proof -
  let ?i = "demo_instance ''Deployment'' False"
  obtain w1 v g where cmd: "kidlectl_main demo_cli version_defaults (Inr (''idle'', demo_options)) (demo_world ?i) = (Ret 0, w1)"
    and w1: "sim_view w1 = cl_IdlingResources_update
       (\<lambda>m. m(demo_req \<mapsto> stamp IdlingResources v g (with_idle True ?i))) (sim_view (demo_world ?i))"
    by (rule demo_command)
  let ?j = "stamp IdlingResources v g (with_idle True ?i)"
  have j: "ref_of ?j = ref_of ?i" "target_key ?j = demo_target"
    by (simp_all add: stamp_def with_idle_def IdlingResources_def ref_of_def target_key_def instance_key_def demo_defs)
  have "\<exists>w3. Reconcile demo_reconciler demo_req w1 = (Ret (no_requeue, None), w3)"
    by (rule rec_d.Reconcile_available [OF sim_reconciler_contract sim_reconciler_available, of w1 demo_req ?j demo_deployment])
      (auto simp: w1 j demo_objects demo_workloads DeploymentStore_def apart_from_owned_def)
  then obtain w3 where run: "Reconcile demo_reconciler demo_req w1 = (Ret (no_requeue, None), w3)" by blast
  have cli: "cli_New demo_cli = NewKidleClient demo_library" by (simp add: demo_cli_def)
  show ?thesis
    using cmd run kidlectl_idle_then_Reconcile [OF demo_library_contract cli cmd _ _ _ _ _ sim_reconciler_contract
        sim_fresh_reads refl _ run, of ?i]
    by (auto simp: w1 demo_objects demo_workloads demo_library_def demo_options_def workload_valid_def)
qed

text \<open>
  C21: \<open>kidlectl create\<close> with a name it allows creates an instance the operator never idles anything
  for, when the allowed names are in lower case, as the names the server discovers are: the name goes
  into the instance as the kind, and the operator compares kinds in upper camel case. Whatever a run
  for the created instance ends with, no Deployment, no StatefulSet and none but kidle's own cron jobs
  is touched.
\<close>

theorem created_instance_idles_nothing:
  assumes kc: "kind_contract view IdlingResources IdlingResourceStore (kd_IdlingResources k)"
    and create: "CreateIdlingResource k idle ref req w = (Ret (Inr created), w1)"
    and lower: "\<forall>ls. fst (kd_ServerGroupsAndResources k w) = Inr ls \<longrightarrow> (\<forall>s \<in> allowed_names k ls. ToLower s = s)"
    and R: "reconciler_contract view R" "fresh_reads view R"
    and run: "Reconcile R req w1 = (r, w2)"
  shows "\<exists>i. cl_IdlingResources (view w1) req = Some i \<and> spec_Idle (ir_Spec i) = idle \<and>
     cl_Deployments (view w2) = cl_Deployments (view w1) \<and>
     cl_StatefulSets (view w2) = cl_StatefulSets (view w1) \<and>
     (\<forall>key. key \<noteq> owned_key i CommandIdle \<longrightarrow> key \<noteq> owned_key i CommandWakeup \<longrightarrow>
        cl_CronJobs (view w2) key = cl_CronJobs (view w1) key)"
proof -
  obtain kind name ls v g w0 where ls: "kd_ServerGroupsAndResources k w = (Inr ls, w0)" and kind: "kind \<in> allowed_names k ls"
    and w1: "view w1 = cl_IdlingResources_update
       (\<lambda>m. m(req \<mapsto> stamp IdlingResources v g (created_resource idle [kind, name] req))) (view w0)"
    using CreateIdlingResource_run [OF kc create] by metis
  define i where "i = stamp IdlingResources v g (created_resource idle [kind, name] req)"
  have i: "cl_IdlingResources (view w1) req = Some i" using w1 by (simp add: i_def)
  have spec: "ref_Kind (ref_of i) = kind" "spec_Idle (ir_Spec i) = idle"
    by (simp_all add: i_def stamp_def IdlingResources_def created_resource_def ref_of_def)
  have "ToLower kind = kind" using lower ls kind by simp
  moreover have "ToLower ''Deployment'' \<noteq> ''Deployment''" "ToLower ''StatefulSet'' \<noteq> ''StatefulSet''"
    "ToLower ''CronJob'' \<noteq> ''CronJob''" by code_simp+
  ultimately have other: "kind \<noteq> ''Deployment''" "kind \<noteq> ''StatefulSet''" "kind \<noteq> ''CronJob''"
    by metis+
  have keep: "p (view w2) = p (view w1)" if "apart_from_run i p" for p :: "cluster \<Rightarrow> 'q"
    by (rule Reconcile_keeps [OF R _ run]) (use i that in simp)
  note apart = apart_from_run_def apart_from_owned_def apart_from_workload_def
  have "cl_Deployments (view w2) = cl_Deployments (view w1)" "cl_StatefulSets (view w2) = cl_StatefulSets (view w1)"
    by (rule keep; use other spec in \<open>simp add: apart\<close>)+
  moreover have "cl_CronJobs (view w2) key = cl_CronJobs (view w1) key"
    if "key \<noteq> owned_key i CommandIdle" "key \<noteq> owned_key i CommandWakeup" for key
    by (rule keep [of "\<lambda>c. cl_CronJobs c key"]) (use other spec that in \<open>auto simp: apart\<close>)
  ultimately show ?thesis using i spec by blast
qed


theorem created_instance_idles_nothing_witness:
  "\<exists>w1 r w2. CreateIdlingResource demo_client True ''deployment/web'' demo_new_req
       (demo_world (demo_instance ''StatefulSet'' False)) = (Ret (Inr True), w1) \<and>
     Reconcile demo_reconciler demo_new_req w1 = (r, w2) \<and>
     cl_Deployments (sim_view w2) = cl_Deployments (sim_view w1)"
proof -
  let ?w = "demo_world (demo_instance ''StatefulSet'' False)"
  obtain w1 where create: "CreateIdlingResource demo_client True ''deployment/web'' demo_new_req ?w = (Ret (Inr True), w1)"
    by (rule demo_create)
  obtain r w2 where run: "Reconcile demo_reconciler demo_new_req w1 = (r, w2)" by (metis surj_pair)
  have "\<forall>s \<in> allowed_names demo_client demo_lists. ToLower s = s"
    by (auto simp: allowed_names_def demo_lists_def resource_names_def demo_client_def allowed_iff to_lower_def
        split: list.splits)
  then have "\<forall>ls. fst (kd_ServerGroupsAndResources demo_client ?w) = Inr ls \<longrightarrow>
      (\<forall>s \<in> allowed_names demo_client ls. ToLower s = s)"
    by (simp add: demo_client_def)
  then show ?thesis
    using create run created_instance_idles_nothing [OF demo_client_contracts(1) create _ sim_reconciler_contract
        sim_fresh_reads run] by auto
qed

end
